theory Spec2Isabelle
  imports Main
begin

section \<open>JavaScript strings\<close>

text \<open>
  The scripts of this repository are Node programs that transform text with regular
  expressions.  A JavaScript string is modelled as a \<^typ>\<open>string\<close>, one \<^typ>\<open>char\<close> per code
  unit; the model covers the code units below 256 (ASCII and Latin-1).  In that range the
  white space of \<^verbatim>\<open>\s\<close> and of \<^verbatim>\<open>trim\<close> is TAB, LF, VT, FF, CR, SPACE and NBSP, and the
  line terminators excluded by \<^verbatim>\<open>.\<close> are LF and CR.
\<close>

abbreviation sq :: char where "sq \<equiv> CHR 0x27"
abbreviation dq :: char where "dq \<equiv> CHR 0x22"
abbreviation bslash :: char where "bslash \<equiv> CHR 0x5C"
abbreviation btick :: char where "btick \<equiv> CHR 0x60"
abbreviation nl :: char where "nl \<equiv> CHR 0x0A"

definition isSpace :: "char \<Rightarrow> bool" where
  "isSpace c = (c \<in> set [CHR 0x09, CHR 0x0A, CHR 0x0B, CHR 0x0C, CHR 0x0D, CHR 0x20, CHR 0xA0])"

definition isLineTerminator :: "char \<Rightarrow> bool" where
  "isLineTerminator c = (c = CHR 0x0A \<or> c = CHR 0x0D)"

definition isDigit :: "char \<Rightarrow> bool" where
  "isDigit c = (48 \<le> (of_char c :: nat) \<and> (of_char c :: nat) \<le> 57)"

definition isUpperAscii :: "char \<Rightarrow> bool" where
  "isUpperAscii c = (65 \<le> (of_char c :: nat) \<and> (of_char c :: nat) \<le> 90)"

definition isLowerAscii :: "char \<Rightarrow> bool" where
  "isLowerAscii c = (97 \<le> (of_char c :: nat) \<and> (of_char c :: nat) \<le> 122)"

definition isWord :: "char \<Rightarrow> bool" where
  "isWord c = (isDigit c \<or> isUpperAscii c \<or> isLowerAscii c \<or> c = CHR ''_'')"

text \<open>
  \<^verbatim>\<open>toLowerCase\<close> and \<^verbatim>\<open>toUpperCase\<close> on one code unit below 256: the ASCII letters and the
  Latin-1 letters 0xC0..0xDE / 0xE0..0xFE (without the signs 0xD7 and 0xF7) are 32 apart.
  The upper-case forms of 0xB5, 0xDF and 0xFF lie outside the range or are longer than one
  unit; the case-insensitive comparison of a regular expression leaves such a character
  as it is, and so does \<open>toUpperChar\<close>.
\<close>

definition toLowerChar :: "char \<Rightarrow> char" where
  "toLowerChar c =
     (if isUpperAscii c \<or> (192 \<le> (of_char c :: nat) \<and> (of_char c :: nat) \<le> 222 \<and> (of_char c :: nat) \<noteq> 215)
      then char_of ((of_char c :: nat) + 32) else c)"

definition toUpperChar :: "char \<Rightarrow> char" where
  "toUpperChar c =
     (if isLowerAscii c \<or> (224 \<le> (of_char c :: nat) \<and> (of_char c :: nat) \<le> 254 \<and> (of_char c :: nat) \<noteq> 247)
      then char_of ((of_char c :: nat) - 32) else c)"

definition toLowerCase :: "string \<Rightarrow> string" where
  "toLowerCase s = map toLowerChar s"

fun startsWith :: "string \<Rightarrow> string \<Rightarrow> bool" where
  "startsWith s [] = True"
| "startsWith [] (p # ps) = False"
| "startsWith (x # xs) (p # ps) = (x = p \<and> startsWith xs ps)"

fun str_includes :: "string \<Rightarrow> string \<Rightarrow> bool" where
  "str_includes [] t = (t = [])"
| "str_includes (x # xs) t = (startsWith (x # xs) t \<or> str_includes xs t)"

definition trim :: "string \<Rightarrow> string" where
  "trim s = rev (dropWhile isSpace (rev (dropWhile isSpace s)))"

definition substring0 :: "string \<Rightarrow> nat \<Rightarrow> string" where
  \<comment> \<open>\<^verbatim>\<open>s.substring(0, n)\<close>\<close>
  "substring0 s n = take n s"

fun join :: "string \<Rightarrow> string list \<Rightarrow> string" where
  "join sep [] = []"
| "join sep [x] = x"
| "join sep (x # y # ys) = x @ sep @ join sep (y # ys)"

fun splitOnAcc :: "char \<Rightarrow> string \<Rightarrow> string \<Rightarrow> string list" where
  "splitOnAcc d acc [] = [rev acc]"
| "splitOnAcc d acc (x # xs) =
     (if x = d then rev acc # splitOnAcc d [] xs else splitOnAcc d (x # acc) xs)"

definition splitOn :: "char \<Rightarrow> string \<Rightarrow> string list" where
  \<comment> \<open>\<^verbatim>\<open>s.split(d)\<close> for a one-character separator\<close>
  "splitOn d s = splitOnAcc d [] s"

fun splitWsGo :: "bool \<Rightarrow> string \<Rightarrow> string \<Rightarrow> string list" where
  "splitWsGo inSep acc [] = [rev acc]"
| "splitWsGo inSep acc (x # xs) =
     (if isSpace x then (if inSep then splitWsGo True acc xs else rev acc # splitWsGo True [] xs)
      else splitWsGo False (x # acc) xs)"

definition splitWs :: "string \<Rightarrow> string list" where
  \<comment> \<open>\<^verbatim>\<open>s.split(/\s+/)\<close>: every maximal run of white space separates\<close>
  "splitWs s = splitWsGo False [] s"

definition tpl :: "string option \<Rightarrow> string" where
  \<comment> \<open>a value that may be \<^verbatim>\<open>undefined\<close>, inside a template literal or a concatenation\<close>
  "tpl v = (case v of None \<Rightarrow> ''undefined'' | Some s \<Rightarrow> s)"

section \<open>Regular expressions\<close>

text \<open>
  The patterns of the scripts use literals, character classes, greedy and lazy repetition
  of one character class, optional groups, alternatives, capture groups and the anchors
  \<^verbatim>\<open>^\<close> and \<^verbatim>\<open>$\<close> (never with the \<^verbatim>\<open>m\<close> flag in the code modelled here).  \<open>rx\<close> is that
  fragment; the matcher \<open>m\<close> is the backtracking matcher of the language
  specification in continuation-passing style: alternatives are tried from the left, a
  greedy repetition tries the longest run first, a lazy one the shortest.
\<close>

datatype citem = C char | Rng char char | Sp | Wd | Dg

datatype cls = Dot | In "citem list" | NotIn "citem list"

datatype rx =
    Chars string
  | One cls
  | Star cls
  | Plus cls
  | LazyStar cls
  | LazyPlus cls
  | Opt rx
  | Alt rx rx
  | Seq rx rx
  | Grp nat rx
  | Bol
  | Eol

definition cat :: "rx list \<Rightarrow> rx" where
  "cat rs = foldr Seq rs (Chars [])"

definition alts :: "rx list \<Rightarrow> rx" where
  "alts rs = foldr Alt (butlast rs) (last rs)"

abbreviation ws :: cls where "ws \<equiv> In [Sp]"
abbreviation wd :: cls where "wd \<equiv> In [Wd]"
abbreviation dg :: cls where "dg \<equiv> In [Dg]"
abbreviation quote :: cls where "quote \<equiv> In [C sq, C dq]"

definition canon :: "bool \<Rightarrow> char \<Rightarrow> char" where
  \<comment> \<open>the comparison key of a character; \<open>ci\<close> is the \<^verbatim>\<open>i\<close> flag\<close>
  "canon ci c = (if ci then toUpperChar c else c)"

fun in_item :: "bool \<Rightarrow> citem \<Rightarrow> char \<Rightarrow> bool" where
  "in_item ci (C c) x = (canon ci c = canon ci x)"
| "in_item ci (Rng a b) x =
     ((of_char a :: nat) \<le> of_char x \<and> (of_char x :: nat) \<le> of_char b \<or>
      (ci \<and> (\<exists>y \<in> set (map char_of [of_char a ..< Suc (of_char b :: nat)]). canon ci y = canon ci x)))"
| "in_item ci Sp x = isSpace x"
| "in_item ci Wd x = isWord x"
| "in_item ci Dg x = isDigit x"

fun in_cls :: "bool \<Rightarrow> cls \<Rightarrow> char \<Rightarrow> bool" where
  "in_cls ci Dot x = (\<not> isLineTerminator x)"
| "in_cls ci (In its) x = list_ex (\<lambda>i. in_item ci i x) its"
| "in_cls ci (NotIn its) x = (\<not> list_ex (\<lambda>i. in_item ci i x) its)"

fun chars_match :: "bool \<Rightarrow> string \<Rightarrow> string \<Rightarrow> string option" where
  "chars_match ci [] s = Some s"
| "chars_match ci (c # cs) [] = None"
| "chars_match ci (c # cs) (x # xs) =
     (if canon ci c = canon ci x then chars_match ci cs xs else None)"

fun greedy :: "(char \<Rightarrow> bool) \<Rightarrow> (string \<Rightarrow> 'a option) \<Rightarrow> string \<Rightarrow> 'a option" where
  "greedy p k [] = k []"
| "greedy p k (x # xs) =
     (if p x then (case greedy p k xs of Some r \<Rightarrow> Some r | None \<Rightarrow> k (x # xs))
      else k (x # xs))"

fun lazy :: "(char \<Rightarrow> bool) \<Rightarrow> (string \<Rightarrow> 'a option) \<Rightarrow> string \<Rightarrow> 'a option" where
  "lazy p k [] = k []"
| "lazy p k (x # xs) =
     (case k (x # xs) of Some r \<Rightarrow> Some r | None \<Rightarrow> if p x then lazy p k xs else None)"

type_synonym captures = "(nat \<times> string) list"

text \<open>
  \<open>m ci n r s c k\<close>: match \<open>r\<close> at the front of the rest \<open>s\<close> of an input of length
  \<open>n\<close>, with the captures \<open>c\<close> made so far, and hand the new rest and captures to the
  continuation \<open>k\<close>; \<open>None\<close> is failure, which makes the caller backtrack.
\<close>

fun m :: "bool \<Rightarrow> nat \<Rightarrow> rx \<Rightarrow> string \<Rightarrow> captures \<Rightarrow> (string \<Rightarrow> captures \<Rightarrow> 'a option) \<Rightarrow> 'a option" where
  "m ci n (Chars l) s c k = (case chars_match ci l s of None \<Rightarrow> None | Some s' \<Rightarrow> k s' c)"
| "m ci n (One cl) s c k =
     (case s of [] \<Rightarrow> None | x # xs \<Rightarrow> if in_cls ci cl x then k xs c else None)"
| "m ci n (Star cl) s c k = greedy (in_cls ci cl) (\<lambda>s'. k s' c) s"
| "m ci n (Plus cl) s c k =
     (case s of [] \<Rightarrow> None
      | x # xs \<Rightarrow> if in_cls ci cl x then greedy (in_cls ci cl) (\<lambda>s'. k s' c) xs else None)"
| "m ci n (LazyStar cl) s c k = lazy (in_cls ci cl) (\<lambda>s'. k s' c) s"
| "m ci n (LazyPlus cl) s c k =
     (case s of [] \<Rightarrow> None
      | x # xs \<Rightarrow> if in_cls ci cl x then lazy (in_cls ci cl) (\<lambda>s'. k s' c) xs else None)"
| "m ci n (Opt r) s c k = (case m ci n r s c k of Some x \<Rightarrow> Some x | None \<Rightarrow> k s c)"
| "m ci n (Alt r1 r2) s c k =
     (case m ci n r1 s c k of Some x \<Rightarrow> Some x | None \<Rightarrow> m ci n r2 s c k)"
| "m ci n (Seq r1 r2) s c k = m ci n r1 s c (\<lambda>s' c'. m ci n r2 s' c' k)"
| "m ci n (Grp g r) s c k =
     m ci n r s c (\<lambda>s' c'. k s' ((g, take (length s - length s') s) # c'))"
| "m ci n Bol s c k = (if length s = n then k s c else None)"
| "m ci n Eol s c k = (if s = [] then k s c else None)"

record rmatch =
  index :: nat
  whole :: string
  groups :: captures

definition grp :: "rmatch \<Rightarrow> nat \<Rightarrow> string option" where
  \<comment> \<open>\<^verbatim>\<open>match[g]\<close>; \<open>None\<close> is \<^verbatim>\<open>undefined\<close>\<close>
  "grp mt g = map_of (groups mt) g"

text \<open>
  \<open>scan ci n r i s\<close> tries the pattern at the position \<open>i\<close>, where the rest of the input is
  \<open>s\<close>, and then at the positions after it, up to the end of the input.
\<close>

fun scan :: "bool \<Rightarrow> nat \<Rightarrow> rx \<Rightarrow> nat \<Rightarrow> string \<Rightarrow> rmatch option" where
  "scan ci n r i [] =
     (case m ci n r [] [] (\<lambda>s' c. Some (s', c)) of
        Some (s', c) \<Rightarrow> Some \<lparr>index = i, whole = [], groups = c\<rparr>
      | None \<Rightarrow> None)"
| "scan ci n r i (x # t) =
     (case m ci n r (x # t) [] (\<lambda>s' c. Some (s', c)) of
        Some (s', c) \<Rightarrow>
          Some \<lparr>index = i, whole = take (length (x # t) - length s') (x # t), groups = c\<rparr>
      | None \<Rightarrow> scan ci n r (Suc i) t)"

definition regex_exec :: "bool \<Rightarrow> rx \<Rightarrow> string \<Rightarrow> nat \<Rightarrow> rmatch option" where
  \<comment> \<open>the leftmost match that starts at \<open>lastIndex\<close> or later\<close>
  "regex_exec ci r s lastIndex =
     (if length s < lastIndex then None else scan ci (length s) r lastIndex (drop lastIndex s))"

definition js_match :: "bool \<Rightarrow> rx \<Rightarrow> string \<Rightarrow> rmatch option" where
  \<comment> \<open>\<^verbatim>\<open>s.match(re)\<close> for a pattern without the \<^verbatim>\<open>g\<close> flag\<close>
  "js_match ci r s = regex_exec ci r s 0"

definition js_test :: "bool \<Rightarrow> rx \<Rightarrow> string \<Rightarrow> bool" where
  "js_test ci r s = (js_match ci r s \<noteq> None)"

fun ngroups :: "rx \<Rightarrow> nat" where
  "ngroups (Opt r) = ngroups r"
| "ngroups (Alt r1 r2) = ngroups r1 + ngroups r2"
| "ngroups (Seq r1 r2) = ngroups r1 + ngroups r2"
| "ngroups (Grp g r) = Suc (ngroups r)"
| "ngroups r = 0"

definition digitVal :: "char \<Rightarrow> nat" where
  "digitVal c = (of_char c :: nat) - 48"

definition captureText :: "nat \<Rightarrow> rmatch \<Rightarrow> string" where
  \<comment> \<open>a capture inside a replacement: the empty string when the group did not take part\<close>
  "captureText g mt = (case grp mt g of None \<Rightarrow> [] | Some t \<Rightarrow> t)"

text \<open>
  \<open>getSubstitution\<close> expands the \<^verbatim>\<open>$\<close> patterns of a replacement string (\<^verbatim>\<open>$$\<close>, \<^verbatim>\<open>$&\<close>,
  \<^verbatim>\<open>$`\<close>, \<^verbatim>\<open>$'\<close>, \<^verbatim>\<open>$n\<close>, \<^verbatim>\<open>$nn\<close>) as \<^verbatim>\<open>String.prototype.replace\<close> does; \<open>mc\<close> is the number of
  capture groups of the pattern and \<open>str\<close> the string searched.
\<close>

fun getSubstitution :: "nat \<Rightarrow> rmatch \<Rightarrow> string \<Rightarrow> string \<Rightarrow> string" where
  "getSubstitution mc mt str [] = []"
| "getSubstitution mc mt str [x] = [x]"
| "getSubstitution mc mt str (x # y # t) =
     (if x \<noteq> CHR ''$'' then x # getSubstitution mc mt str (y # t)
      else if y = CHR ''$'' then CHR ''$'' # getSubstitution mc mt str t
      else if y = CHR ''&'' then whole mt @ getSubstitution mc mt str t
      else if y = btick then take (index mt) str @ getSubstitution mc mt str t
      else if y = sq then drop (index mt + length (whole mt)) str @ getSubstitution mc mt str t
      else if isDigit y then
        (case t of
           z # t' \<Rightarrow>
             if isDigit z \<and> 10 * digitVal y + digitVal z \<le> mc then
               (if 1 \<le> 10 * digitVal y + digitVal z
                then captureText (10 * digitVal y + digitVal z) mt @ getSubstitution mc mt str t'
                else x # y # z # getSubstitution mc mt str t')
             else if 1 \<le> digitVal y \<and> digitVal y \<le> mc
               then captureText (digitVal y) mt @ getSubstitution mc mt str t
               else x # y # getSubstitution mc mt str t
         | [] \<Rightarrow>
             if 1 \<le> digitVal y \<and> digitVal y \<le> mc then captureText (digitVal y) mt
             else [x, y])
      else x # getSubstitution mc mt str (y # t))"

definition js_replace :: "bool \<Rightarrow> rx \<Rightarrow> string \<Rightarrow> string \<Rightarrow> string" where
  \<comment> \<open>\<^verbatim>\<open>s.replace(re, template)\<close> for a pattern without the \<^verbatim>\<open>g\<close> flag: the first match only\<close>
  "js_replace ci r s template =
     (case js_match ci r s of
        None \<Rightarrow> s
      | Some mt \<Rightarrow> take (index mt) s @ getSubstitution (ngroups r) mt s template
                   @ drop (index mt + length (whole mt)) s)"

text \<open>
  With the \<^verbatim>\<open>g\<close> flag every match is replaced.  \<open>matchesFrom\<close> lists the matches from left to
  right: after a match the search resumes at its end, one character further when the
  match was empty; \<open>skip\<close> counts the characters of the last match still to be passed.
\<close>

fun matchesFrom :: "bool \<Rightarrow> nat \<Rightarrow> rx \<Rightarrow> nat \<Rightarrow> nat \<Rightarrow> string \<Rightarrow> rmatch list" where
  "matchesFrom ci n r i skip [] =
     (if skip = 0 then
        (case m ci n r [] [] (\<lambda>s' c. Some (s', c)) of
           Some (s', c) \<Rightarrow> [\<lparr>index = i, whole = [], groups = c\<rparr>]
         | None \<Rightarrow> [])
      else [])"
| "matchesFrom ci n r i skip (x # xs) =
     (if 0 < skip then matchesFrom ci n r (Suc i) (skip - 1) xs
      else
        (case m ci n r (x # xs) [] (\<lambda>s' c. Some (s', c)) of
           Some (s', c) \<Rightarrow>
             \<lparr>index = i, whole = take (length (x # xs) - length s') (x # xs), groups = c\<rparr>
               # matchesFrom ci n r (Suc i) (length (x # xs) - length s' - 1) xs
         | None \<Rightarrow> matchesFrom ci n r (Suc i) 0 xs))"

fun replaceMatches :: "(rmatch \<Rightarrow> string) \<Rightarrow> string \<Rightarrow> nat \<Rightarrow> rmatch list \<Rightarrow> string" where
  "replaceMatches f s cur [] = drop cur s"
| "replaceMatches f s cur (mt # ms) =
     take (index mt - cur) (drop cur s) @ f mt
       @ replaceMatches f s (index mt + length (whole mt)) ms"

definition js_replace_all :: "bool \<Rightarrow> rx \<Rightarrow> string \<Rightarrow> string \<Rightarrow> string" where
  \<comment> \<open>\<^verbatim>\<open>s.replace(re, template)\<close> for a pattern with the \<^verbatim>\<open>g\<close> flag\<close>
  "js_replace_all ci r s template =
     replaceMatches (\<lambda>mt. getSubstitution (ngroups r) mt s template) s 0
       (matchesFrom ci (length s) r 0 0 s)"

section \<open>Script 03: page class generation\<close>

text \<open>
  \<^verbatim>\<open>src/03-generate-pages.js\<close> holds two revisions of the script.  The first (lines 1--412)
  marks a locator with \<^verbatim>\<open>needsReview\<close>; the second (lines 413--1002) classifies it as
  \<^verbatim>\<open>semantic\<close>, \<^verbatim>\<open>css\<close> or \<^verbatim>\<open>xpath\<close>.  The definitions of the first revision carry the
  suffix \<open>_r1\<close>.
\<close>

subsection \<open>First revision: \<^verbatim>\<open>convertXPathToPlaywright\<close>, lines 65--159\<close>

record conversion_r1 =
  locator :: string
  needsReview :: bool
  originalXpath :: string

definition idMatch_r1 :: rx where
  \<comment> \<open>\<^verbatim>\<open>/^\/\/(\w+)\[@id=['"]([\w-]+)['"]\]$/\<close>\<close>
  \<open>idMatch_r1 = cat [Bol, Chars ''//'', Grp 1 (Plus wd), Chars ''[@id='', One quote,
     Grp 2 (Plus (In [Wd, C CHR ''-''])), One quote, Chars '']'', Eol]\<close>

definition buttonTextMatch_r1 :: rx where
  \<comment> \<open>\<^verbatim>\<open>/^\/\/button\[(?:text\(\)|normalize-space\(\))\s*=\s*['"](.+?)['"]\]$/\<close>\<close>
  \<open>buttonTextMatch_r1 = cat [Bol, Chars ''//button['',
     alts [Chars ''text()'', Chars ''normalize-space()''],
     Star ws, Chars ''='', Star ws, One quote, Grp 1 (LazyPlus Dot), One quote, Chars '']'', Eol]\<close>

definition buttonContainsMatch_r1 :: rx where
  \<comment> \<open>\<^verbatim>\<open>/^\/\/button\[contains\((?:text\(\)|\.),\s*['"](.+?)['"]\)\]$/\<close>\<close>
  \<open>buttonContainsMatch_r1 = cat [Bol, Chars ''//button[contains('',
     alts [Chars ''text()'', Chars ''.''], Chars '','', Star ws,
     One quote, Grp 1 (LazyPlus Dot), One quote, Chars '')]'', Eol]\<close>

definition linkTextMatch_r1 :: rx where
  \<comment> \<open>\<^verbatim>\<open>/^\/\/a\[(?:text\(\)|normalize-space\(\))\s*=\s*['"](.+?)['"]\]$/\<close>\<close>
  \<open>linkTextMatch_r1 = cat [Bol, Chars ''//a['',
     alts [Chars ''text()'', Chars ''normalize-space()''],
     Star ws, Chars ''='', Star ws, One quote, Grp 1 (LazyPlus Dot), One quote, Chars '']'', Eol]\<close>

definition placeholderMatch_r1 :: rx where
  \<comment> \<open>\<^verbatim>\<open>/^\/\/input\[@placeholder=['"](.*?)['"]\]$/\<close>\<close>
  \<open>placeholderMatch_r1 = cat [Bol, Chars ''//input[@placeholder='', One quote,
     Grp 1 (LazyStar Dot), One quote, Chars '']'', Eol]\<close>

definition labelSiblingMatch_r1 :: rx where
  \<comment> \<open>\<^verbatim>\<open>/^\/\/label\[(?:text\(\)|normalize-space\(\))\s*=\s*['"](.+?)['"]\]\/following-sibling::input/\<close>\<close>
  \<open>labelSiblingMatch_r1 = cat [Bol, Chars ''//label['',
     alts [Chars ''text()'', Chars ''normalize-space()''],
     Star ws, Chars ''='', Star ws, One quote, Grp 1 (LazyPlus Dot), One quote,
     Chars '']/following-sibling::input'']\<close>

definition testIdMatch_r1 :: rx where
  \<comment> \<open>\<^verbatim>\<open>/^\/\/\w+\[@data-testid=['"]([\w-]+)['"]\]$/\<close>\<close>
  \<open>testIdMatch_r1 = cat [Bol, Chars ''//'', Plus wd, Chars ''[@data-testid='', One quote,
     Grp 1 (Plus (In [Wd, C CHR ''-''])), One quote, Chars '']'', Eol]\<close>

definition classMatch_r1 :: rx where
  \<comment> \<open>\<^verbatim>\<open>/^\/\/(\w+)\[@class=['"]([\w\s-]+)['"]\]$/\<close>\<close>
  \<open>classMatch_r1 = cat [Bol, Chars ''//'', Grp 1 (Plus wd), Chars ''[@class='', One quote,
     Grp 2 (Plus (In [Wd, Sp, C CHR ''-''])), One quote, Chars '']'', Eol]\<close>

definition classContainsMatch_r1 :: rx where
  \<comment> \<open>\<^verbatim>\<open>/^\/\/(\w+)\[contains\(@class,\s*['"](.+?)['"]\)\]$/\<close>\<close>
  \<open>classContainsMatch_r1 = cat [Bol, Chars ''//'', Grp 1 (Plus wd), Chars ''[contains(@class,'',
     Star ws, One quote, Grp 2 (LazyPlus Dot), One quote, Chars '')]'', Eol]\<close>

definition selectMatch_r1 :: rx where
  \<comment> \<open>\<^verbatim>\<open>/^\/\/select\[@(?:id|name)=['"]([\w-]+)['"]\]$/\<close>\<close>
  \<open>selectMatch_r1 = cat [Bol, Chars ''//select[@'', alts [Chars ''id'', Chars ''name''],
     Chars ''='', One quote, Grp 1 (Plus (In [Wd, C CHR ''-''])), One quote, Chars '']'', Eol]\<close>

definition tableMatch_r1 :: rx where
  \<comment> \<open>\<^verbatim>\<open>/^\/\/table\[@id=['"]([\w-]+)['"]\]$/\<close>\<close>
  \<open>tableMatch_r1 = cat [Bol, Chars ''//table[@id='', One quote,
     Grp 1 (Plus (In [Wd, C CHR ''-''])), One quote, Chars '']'', Eol]\<close>

definition cleanXpath_r1 :: "string \<Rightarrow> string" where
  \<comment> \<open>\<^verbatim>\<open>xpath.replace(/^xpath\s*=\s*/, '').trim()\<close>\<close>
  "cleanXpath_r1 xpath =
     trim (js_replace False (cat [Bol, Chars ''xpath'', Star ws, Chars ''='', Star ws]) xpath [])"

definition convertXPathToPlaywright_r1 :: "string \<Rightarrow> string \<Rightarrow> conversion_r1" where
  \<open>convertXPathToPlaywright_r1 xpath0 fieldName =
    (let result = \<lparr>conversion_r1.locator = [], needsReview = False,
                    conversion_r1.originalXpath = xpath0\<rparr>;
         xpath = cleanXpath_r1 xpath0 in
     case js_match False idMatch_r1 xpath of
       Some idMatch \<Rightarrow>
         result\<lparr>conversion_r1.locator := ''page.locator('#'' @ tpl (grp idMatch 2) @ sq # '')''\<rparr>
     | None \<Rightarrow>
     (case js_match False buttonTextMatch_r1 xpath of
       Some buttonTextMatch \<Rightarrow>
         result\<lparr>conversion_r1.locator :=
           ''page.getByRole('button', { name: '' @ sq # tpl (grp buttonTextMatch 1) @ sq # '' })''\<rparr>
     | None \<Rightarrow>
     (case js_match False buttonContainsMatch_r1 xpath of
       Some buttonContainsMatch \<Rightarrow>
         result\<lparr>conversion_r1.locator :=
           ''page.getByRole('button', { name: /'' @ tpl (grp buttonContainsMatch 1) @ ''/i })''\<rparr>
     | None \<Rightarrow>
     (case js_match False linkTextMatch_r1 xpath of
       Some linkTextMatch \<Rightarrow>
         result\<lparr>conversion_r1.locator :=
           ''page.getByRole('link', { name: '' @ sq # tpl (grp linkTextMatch 1) @ sq # '' })''\<rparr>
     | None \<Rightarrow>
     (case js_match False placeholderMatch_r1 xpath of
       Some placeholderMatch \<Rightarrow>
         result\<lparr>conversion_r1.locator :=
           ''page.getByPlaceholder('' @ sq # tpl (grp placeholderMatch 1) @ sq # '')''\<rparr>
     | None \<Rightarrow>
     (case js_match False labelSiblingMatch_r1 xpath of
       Some labelSiblingMatch \<Rightarrow>
         result\<lparr>conversion_r1.locator :=
           ''page.getByLabel('' @ sq # tpl (grp labelSiblingMatch 1) @ sq # '')''\<rparr>
     | None \<Rightarrow>
     (case js_match False testIdMatch_r1 xpath of
       Some testIdMatch \<Rightarrow>
         result\<lparr>conversion_r1.locator :=
           ''page.getByTestId('' @ sq # tpl (grp testIdMatch 1) @ sq # '')''\<rparr>
     | None \<Rightarrow>
     (case js_match False classMatch_r1 xpath of
       Some classMatch \<Rightarrow>
         result\<lparr>conversion_r1.locator :=
           ''page.locator('' @ sq # tpl (grp classMatch 1) @ ''.''
             @ join ''.'' (splitWs (tpl (grp classMatch 2))) @ sq # '')''\<rparr>
     | None \<Rightarrow>
     (case js_match False classContainsMatch_r1 xpath of
       Some classContainsMatch \<Rightarrow>
         result\<lparr>conversion_r1.locator :=
           ''page.locator('' @ sq # tpl (grp classContainsMatch 1) @ ''[class*="''
             @ tpl (grp classContainsMatch 2) @ ''"]'' @ sq # '')''\<rparr>
     | None \<Rightarrow>
     (case js_match False selectMatch_r1 xpath of
       Some selectMatch \<Rightarrow>
         result\<lparr>conversion_r1.locator := ''page.locator('#'' @ tpl (grp selectMatch 1) @ sq # '')'',
                needsReview := True\<rparr>
     | None \<Rightarrow>
     (case js_match False tableMatch_r1 xpath of
       Some tableMatch \<Rightarrow>
         result\<lparr>conversion_r1.locator := ''page.locator('#'' @ tpl (grp tableMatch 1) @ sq # '')''\<rparr>
     | None \<Rightarrow>
       result\<lparr>conversion_r1.locator :=
                ''page.locator('/* TODO: Convert XPath: '' @ substring0 xpath 50 @ ''... */'' @ sq # '')'',
              needsReview := True\<rparr>)))))))))))\<close>

subsection \<open>Second revision: \<^verbatim>\<open>convertXPathToPlaywright\<close>, lines 484--640\<close>

datatype ltype = Semantic | Css | Xpath

record conversion =
  locator :: string
  type :: ltype
  originalXpath :: string
  comment :: "string option"

definition buttonTextExact :: rx where
  \<comment> \<open>\<^verbatim>\<open>/^\/\/button\[(?:text\(\)|normalize-space\(\)|\.)\s*=\s*['"](.+?)['"]\]$/\<close>\<close>
  \<open>buttonTextExact = cat [Bol, Chars ''//button['',
     alts [Chars ''text()'', Chars ''normalize-space()'', Chars ''.''],
     Star ws, Chars ''='', Star ws, One quote, Grp 1 (LazyPlus Dot), One quote, Chars '']'', Eol]\<close>

definition buttonTextContains :: rx where
  \<comment> \<open>\<^verbatim>\<open>/^\/\/button\[contains\((?:text\(\)|\.),\s*['"](.+?)['"]\)\]$/\<close>\<close>
  \<open>buttonTextContains = cat [Bol, Chars ''//button[contains('',
     alts [Chars ''text()'', Chars ''.''], Chars '','', Star ws,
     One quote, Grp 1 (LazyPlus Dot), One quote, Chars '')]'', Eol]\<close>

definition linkTextExact :: rx where
  \<comment> \<open>\<^verbatim>\<open>/^\/\/a\[(?:text\(\)|normalize-space\(\)|\.)\s*=\s*['"](.+?)['"]\]$/\<close>\<close>
  \<open>linkTextExact = cat [Bol, Chars ''//a['',
     alts [Chars ''text()'', Chars ''normalize-space()'', Chars ''.''],
     Star ws, Chars ''='', Star ws, One quote, Grp 1 (LazyPlus Dot), One quote, Chars '']'', Eol]\<close>

definition linkTextContains :: rx where
  \<comment> \<open>\<^verbatim>\<open>/^\/\/a\[contains\((?:text\(\)|\.),\s*['"](.+?)['"]\)\]$/\<close>\<close>
  \<open>linkTextContains = cat [Bol, Chars ''//a[contains('',
     alts [Chars ''text()'', Chars ''.''], Chars '','', Star ws,
     One quote, Grp 1 (LazyPlus Dot), One quote, Chars '')]'', Eol]\<close>

definition inputById :: rx where
  \<comment> \<open>\<^verbatim>\<open>/^\/\/input\[@id\s*=\s*['"](.+?)['"]\]$/\<close>\<close>
  \<open>inputById = cat [Bol, Chars ''//input[@id'', Star ws, Chars ''='', Star ws,
     One quote, Grp 1 (LazyPlus Dot), One quote, Chars '']'', Eol]\<close>

definition inputByPlaceholder :: rx where
  \<comment> \<open>\<^verbatim>\<open>/^\/\/input\[@placeholder\s*=\s*['"](.+?)['"]\]$/\<close>\<close>
  \<open>inputByPlaceholder = cat [Bol, Chars ''//input[@placeholder'', Star ws, Chars ''='', Star ws,
     One quote, Grp 1 (LazyPlus Dot), One quote, Chars '']'', Eol]\<close>

definition anyById :: rx where
  \<comment> \<open>\<^verbatim>\<open>/^\/\/(\w+)\[@id\s*=\s*['"](.+?)['"]\]$/\<close>\<close>
  \<open>anyById = cat [Bol, Chars ''//'', Grp 1 (Plus wd), Chars ''[@id'', Star ws, Chars ''='', Star ws,
     One quote, Grp 2 (LazyPlus Dot), One quote, Chars '']'', Eol]\<close>

definition byTestId :: rx where
  \<comment> \<open>\<^verbatim>\<open>/^\/\/\w+\[@data-testid\s*=\s*['"](.+?)['"]\]$/\<close>\<close>
  \<open>byTestId = cat [Bol, Chars ''//'', Plus wd, Chars ''[@data-testid'', Star ws, Chars ''='', Star ws,
     One quote, Grp 1 (LazyPlus Dot), One quote, Chars '']'', Eol]\<close>

definition byClassExact :: rx where
  \<comment> \<open>\<^verbatim>\<open>/^\/\/(\w+)\[@class\s*=\s*['"](.+?)['"]\]$/\<close>\<close>
  \<open>byClassExact = cat [Bol, Chars ''//'', Grp 1 (Plus wd), Chars ''[@class'', Star ws, Chars ''='',
     Star ws, One quote, Grp 2 (LazyPlus Dot), One quote, Chars '']'', Eol]\<close>

definition byClassContains :: rx where
  \<comment> \<open>\<^verbatim>\<open>/^\/\/(\w+)\[contains\(@class,\s*['"](.+?)['"]\)\]$/\<close>\<close>
  \<open>byClassContains = cat [Bol, Chars ''//'', Grp 1 (Plus wd), Chars ''[contains(@class,'',
     Star ws, One quote, Grp 2 (LazyPlus Dot), One quote, Chars '')]'', Eol]\<close>

definition anyTextExact :: rx where
  \<comment> \<open>\<^verbatim>\<open>/^\/\/\*\[(?:text\(\)|\.)\s*=\s*['"](.+?)['"]\]$/\<close>\<close>
  \<open>anyTextExact = cat [Bol, Chars ''//*['', alts [Chars ''text()'', Chars ''.''],
     Star ws, Chars ''='', Star ws, One quote, Grp 1 (LazyPlus Dot), One quote, Chars '']'', Eol]\<close>

definition anyTextContains :: rx where
  \<comment> \<open>\<^verbatim>\<open>/^\/\/\*\[contains\((?:text\(\)|\.),\s*['"](.+?)['"]\)\]$/\<close>\<close>
  \<open>anyTextContains = cat [Bol, Chars ''//*[contains('', alts [Chars ''text()'', Chars ''.''],
     Chars '','', Star ws, One quote, Grp 1 (LazyPlus Dot), One quote, Chars '')]'', Eol]\<close>

definition elementTextExact :: rx where
  \<comment> \<open>\<^verbatim>\<open>/^\/\/(\w+)\[(?:text\(\)|\.)\s*=\s*['"](.+?)['"]\]$/\<close>\<close>
  \<open>elementTextExact = cat [Bol, Chars ''//'', Grp 1 (Plus wd), Chars ''['',
     alts [Chars ''text()'', Chars ''.''],
     Star ws, Chars ''='', Star ws, One quote, Grp 2 (LazyPlus Dot), One quote, Chars '']'', Eol]\<close>

definition elementTextContains :: rx where
  \<comment> \<open>\<^verbatim>\<open>/^\/\/(\w+)\[contains\((?:text\(\)|\.),\s*['"](.+?)['"]\)\]$/\<close>\<close>
  \<open>elementTextContains = cat [Bol, Chars ''//'', Grp 1 (Plus wd), Chars ''[contains('',
     alts [Chars ''text()'', Chars ''.''], Chars '','', Star ws,
     One quote, Grp 2 (LazyPlus Dot), One quote, Chars '')]'', Eol]\<close>

definition selectMatch :: rx where
  \<comment> \<open>\<^verbatim>\<open>/^\/\/select\[@(?:id|name)\s*=\s*['"](.+?)['"]\]$/\<close>\<close>
  \<open>selectMatch = cat [Bol, Chars ''//select[@'', alts [Chars ''id'', Chars ''name''],
     Star ws, Chars ''='', Star ws, One quote, Grp 1 (LazyPlus Dot), One quote, Chars '']'', Eol]\<close>

definition thAriaColIndex :: rx where
  \<comment> \<open>\<^verbatim>\<open>/^\/\/th\[@aria-colindex\s*=\s*['"](\d+)['"]\]\/\/a$/\<close>\<close>
  \<open>thAriaColIndex = cat [Bol, Chars ''//th[@aria-colindex'', Star ws, Chars ''='', Star ws,
     One quote, Grp 1 (Plus dg), One quote, Chars '']//a'', Eol]\<close>

definition tableCellMatch :: rx where
  \<comment> \<open>\<^verbatim>\<open>/^\/\/table(?:\/\/|\/)tr\[(\d+)\]\/td\[(\d+)\]/\<close>\<close>
  \<open>tableCellMatch = cat [Bol, Chars ''//table'', alts [Chars ''//'', Chars ''/''], Chars ''tr['',
     Grp 1 (Plus dg), Chars '']/td['', Grp 2 (Plus dg), Chars '']'']\<close>

definition cleanXpath :: "string \<Rightarrow> string" where
  \<comment> \<open>\<^verbatim>\<open>xpath.trim().replace(/^["']|["']$/g, '')\<close>\<close>
  "cleanXpath xpath =
     js_replace_all False (alts [Seq Bol (One quote), Seq (One quote) Eol]) (trim xpath) []"

definition escapeXpath :: "string \<Rightarrow> string" where
  \<comment> \<open>\<^verbatim>\<open>xpath.replace(/`/g, '\\`').replace(/\$/g, '\\$')\<close>\<close>
  "escapeXpath xpath =
     js_replace_all False (Chars ''$'')
       (js_replace_all False (Chars [btick]) xpath [bslash, btick]) [bslash, CHR ''$'']"

definition convertXPathToPlaywright :: "string \<Rightarrow> string \<Rightarrow> conversion" where
  \<open>convertXPathToPlaywright xpath0 fieldName =
    (let xpath = cleanXpath xpath0;
         result = \<lparr>locator = [], type = Xpath, originalXpath = xpath, comment = None\<rparr> in
     (case js_match False buttonTextExact xpath of
       Some buttonTextExactM \<Rightarrow>
         result\<lparr>locator := ''page.getByRole('button', { name: '' @ sq # tpl (grp buttonTextExactM 1) @ sq # '' })'',
                type := Semantic\<rparr>
     | None \<Rightarrow>
     (case js_match False buttonTextContains xpath of
       Some buttonTextContainsM \<Rightarrow>
         result\<lparr>locator := ''page.getByRole('button', { name: /'' @ tpl (grp buttonTextContainsM 1) @ ''/i })'',
                type := Semantic\<rparr>
     | None \<Rightarrow>
     (case js_match False linkTextExact xpath of
       Some linkTextExactM \<Rightarrow>
         result\<lparr>locator := ''page.getByRole('link', { name: '' @ sq # tpl (grp linkTextExactM 1) @ sq # '' })'',
                type := Semantic\<rparr>
     | None \<Rightarrow>
     (case js_match False linkTextContains xpath of
       Some linkTextContainsM \<Rightarrow>
         result\<lparr>locator := ''page.getByRole('link', { name: /'' @ tpl (grp linkTextContainsM 1) @ ''/i })'',
                type := Semantic\<rparr>
     | None \<Rightarrow>
     (case js_match False inputById xpath of
       Some inputByIdM \<Rightarrow>
         result\<lparr>locator := ''page.locator('#'' @ tpl (grp inputByIdM 1) @ sq # '')'',
                type := Css\<rparr>
     | None \<Rightarrow>
     (case js_match False inputByPlaceholder xpath of
       Some inputByPlaceholderM \<Rightarrow>
         result\<lparr>locator := ''page.getByPlaceholder('' @ sq # tpl (grp inputByPlaceholderM 1) @ sq # '')'',
                type := Semantic\<rparr>
     | None \<Rightarrow>
     (case js_match False anyById xpath of
       Some anyByIdM \<Rightarrow>
         result\<lparr>locator := ''page.locator('#'' @ tpl (grp anyByIdM 2) @ sq # '')'',
                type := Css\<rparr>
     | None \<Rightarrow>
     (case js_match False byTestId xpath of
       Some byTestIdM \<Rightarrow>
         result\<lparr>locator := ''page.getByTestId('' @ sq # tpl (grp byTestIdM 1) @ sq # '')'',
                type := Semantic\<rparr>
     | None \<Rightarrow>
     (case js_match False byClassExact xpath of
       Some byClassExactM \<Rightarrow>
         result\<lparr>locator := ''page.locator('' @ sq # tpl (grp byClassExactM 1) @ ''.''
             @ join ''.'' (splitWs (trim (tpl (grp byClassExactM 2)))) @ sq # '')'',
                type := Css\<rparr>
     | None \<Rightarrow>
     (case js_match False byClassContains xpath of
       Some byClassContainsM \<Rightarrow>
         result\<lparr>locator := ''page.locator('' @ sq # tpl (grp byClassContainsM 1) @ ''[class*="''
             @ tpl (grp byClassContainsM 2) @ ''"]'' @ sq # '')'',
                type := Css\<rparr>
     | None \<Rightarrow>
     (case js_match False anyTextExact xpath of
       Some anyTextExactM \<Rightarrow>
         result\<lparr>locator := ''page.getByText('' @ sq # tpl (grp anyTextExactM 1) @ sq # '', { exact: true })'',
                type := Semantic\<rparr>
     | None \<Rightarrow>
     (case js_match False anyTextContains xpath of
       Some anyTextContainsM \<Rightarrow>
         result\<lparr>locator := ''page.getByText('' @ sq # tpl (grp anyTextContainsM 1) @ sq # '')'',
                type := Semantic\<rparr>
     | None \<Rightarrow>
     (case js_match False elementTextExact xpath of
       Some elementTextExactM \<Rightarrow>
         result\<lparr>locator := ''page.locator('' @ sq # tpl (grp elementTextExactM 1) @ sq # '').filter({ hasText: '' @ sq # tpl (grp elementTextExactM 2) @ sq # '' })'',
                type := Css\<rparr>
     | None \<Rightarrow>
     (case js_match False elementTextContains xpath of
       Some elementTextContainsM \<Rightarrow>
         result\<lparr>locator := ''page.locator('' @ sq # tpl (grp elementTextContainsM 1) @ sq # '').filter({ hasText: /'' @ tpl (grp elementTextContainsM 2) @ ''/i })'',
                type := Css\<rparr>
     | None \<Rightarrow>
     (case js_match False selectMatch xpath of
       Some selectMatchM \<Rightarrow>
         result\<lparr>locator := ''page.locator('select#'' @ tpl (grp selectMatchM 1) @ sq # '')'',
                type := Css\<rparr>
     | None \<Rightarrow>
     (case js_match False thAriaColIndex xpath of
       Some thAriaColIndexM \<Rightarrow>
         result\<lparr>locator := ''page.locator('th[aria-colindex="'' @ tpl (grp thAriaColIndexM 1) @ ''"] a'' @ sq # '')'',
                type := Css\<rparr>
     | None \<Rightarrow>
     (case js_match False tableCellMatch xpath of
       Some tableCellMatchM \<Rightarrow>
         result\<lparr>locator := ''page.locator('table tr:nth-child('' @ tpl (grp tableCellMatchM 1) @ '') td:nth-child('' @ tpl (grp tableCellMatchM 2) @ '')'' @ sq # '')'',
                type := Css\<rparr>
     | None \<Rightarrow>
       result\<lparr>locator := ''page.locator('' @ btick # escapeXpath xpath @ btick # '')'',
              type := Xpath,
              comment := Some ''XPath preserved - consider manual review''\<rparr>))))))))))))))))))\<close>

text \<open>
  The same patterns and generators as a table, in the order of their \<^verbatim>\<open>if\<close> statements.  The
  function above is the code as written; the table is used to state that the cascade
  takes the first pattern that matches.
\<close>

definition xpathRules :: "(rx \<times> (rmatch \<Rightarrow> conversion \<Rightarrow> conversion)) list" where
  \<open>xpathRules = [
     (buttonTextExact, \<lambda>M result. result\<lparr>locator := ''page.getByRole('button', { name: '' @ sq # tpl (grp M 1) @ sq # '' })'',
                type := Semantic\<rparr>),
     (buttonTextContains, \<lambda>M result. result\<lparr>locator := ''page.getByRole('button', { name: /'' @ tpl (grp M 1) @ ''/i })'',
                type := Semantic\<rparr>),
     (linkTextExact, \<lambda>M result. result\<lparr>locator := ''page.getByRole('link', { name: '' @ sq # tpl (grp M 1) @ sq # '' })'',
                type := Semantic\<rparr>),
     (linkTextContains, \<lambda>M result. result\<lparr>locator := ''page.getByRole('link', { name: /'' @ tpl (grp M 1) @ ''/i })'',
                type := Semantic\<rparr>),
     (inputById, \<lambda>M result. result\<lparr>locator := ''page.locator('#'' @ tpl (grp M 1) @ sq # '')'',
                type := Css\<rparr>),
     (inputByPlaceholder, \<lambda>M result. result\<lparr>locator := ''page.getByPlaceholder('' @ sq # tpl (grp M 1) @ sq # '')'',
                type := Semantic\<rparr>),
     (anyById, \<lambda>M result. result\<lparr>locator := ''page.locator('#'' @ tpl (grp M 2) @ sq # '')'',
                type := Css\<rparr>),
     (byTestId, \<lambda>M result. result\<lparr>locator := ''page.getByTestId('' @ sq # tpl (grp M 1) @ sq # '')'',
                type := Semantic\<rparr>),
     (byClassExact, \<lambda>M result. result\<lparr>locator := ''page.locator('' @ sq # tpl (grp M 1) @ ''.''
             @ join ''.'' (splitWs (trim (tpl (grp M 2)))) @ sq # '')'',
                type := Css\<rparr>),
     (byClassContains, \<lambda>M result. result\<lparr>locator := ''page.locator('' @ sq # tpl (grp M 1) @ ''[class*="''
             @ tpl (grp M 2) @ ''"]'' @ sq # '')'',
                type := Css\<rparr>),
     (anyTextExact, \<lambda>M result. result\<lparr>locator := ''page.getByText('' @ sq # tpl (grp M 1) @ sq # '', { exact: true })'',
                type := Semantic\<rparr>),
     (anyTextContains, \<lambda>M result. result\<lparr>locator := ''page.getByText('' @ sq # tpl (grp M 1) @ sq # '')'',
                type := Semantic\<rparr>),
     (elementTextExact, \<lambda>M result. result\<lparr>locator := ''page.locator('' @ sq # tpl (grp M 1) @ sq # '').filter({ hasText: '' @ sq # tpl (grp M 2) @ sq # '' })'',
                type := Css\<rparr>),
     (elementTextContains, \<lambda>M result. result\<lparr>locator := ''page.locator('' @ sq # tpl (grp M 1) @ sq # '').filter({ hasText: /'' @ tpl (grp M 2) @ ''/i })'',
                type := Css\<rparr>),
     (selectMatch, \<lambda>M result. result\<lparr>locator := ''page.locator('select#'' @ tpl (grp M 1) @ sq # '')'',
                type := Css\<rparr>),
     (thAriaColIndex, \<lambda>M result. result\<lparr>locator := ''page.locator('th[aria-colindex="'' @ tpl (grp M 1) @ ''"] a'' @ sq # '')'',
                type := Css\<rparr>),
     (tableCellMatch, \<lambda>M result. result\<lparr>locator := ''page.locator('table tr:nth-child('' @ tpl (grp M 1) @ '') td:nth-child('' @ tpl (grp M 2) @ '')'' @ sq # '')'',
                type := Css\<rparr>)]\<close>

definition xpathFallback :: "string \<Rightarrow> conversion" where
  \<comment> \<open>the result of lines 632--639 for a cleaned expression\<close>
  \<open>xpathFallback xpath =
     \<lparr>locator = ''page.locator('' @ btick # escapeXpath xpath @ btick # '')'', type = Xpath,
      originalXpath = xpath, comment = Some ''XPath preserved - consider manual review''\<rparr>\<close>

text \<open>
  The rule matcher in the words of the specification: the rules of an ordered list are
  tried in order and the first whose pattern accepts the expression produces the result.
\<close>

fun applyRules :: "(rx \<times> (rmatch \<Rightarrow> conversion \<Rightarrow> conversion)) list \<Rightarrow> string \<Rightarrow> conversion
                     \<Rightarrow> conversion option" where
  "applyRules [] xpath result = None"
| "applyRules (rl # rls) xpath result =
     (case js_match False (fst rl) xpath of
        Some mt \<Rightarrow> Some (snd rl mt result)
      | None \<Rightarrow> applyRules rls xpath result)"

definition xpathPatterns_r1 :: "rx list" where
  \<comment> \<open>the patterns of the first revision, in the order of their \<^verbatim>\<open>if\<close> statements\<close>
  "xpathPatterns_r1 = [idMatch_r1, buttonTextMatch_r1, buttonContainsMatch_r1, linkTextMatch_r1,
     placeholderMatch_r1, labelSiblingMatch_r1, testIdMatch_r1, classMatch_r1,
     classContainsMatch_r1, selectMatch_r1, tableMatch_r1]"

section \<open>Loops over the matches of a global pattern\<close>

text \<open>
  \<^verbatim>\<open>while ((match = re.exec(content)) !== null) { ... }\<close> with a \<^verbatim>\<open>g\<close> pattern: every
  \<^verbatim>\<open>exec\<close> searches from \<^verbatim>\<open>lastIndex\<close> and moves \<^verbatim>\<open>lastIndex\<close> to the end of the match.
  Nothing in the loop advances \<^verbatim>\<open>lastIndex\<close> past an empty match, so the loop is a partial
  function: \<open>None\<close> is the run that never leaves it.
\<close>

partial_function (option) exec_loop ::
  "bool \<Rightarrow> rx \<Rightarrow> string \<Rightarrow> (rmatch \<Rightarrow> 'a \<Rightarrow> 'a) \<Rightarrow> nat \<Rightarrow> 'a \<Rightarrow> 'a option" where
  "exec_loop ci r s body lastIndex st =
     (case regex_exec ci r s lastIndex of
        None \<Rightarrow> Some st
      | Some mt \<Rightarrow> exec_loop ci r s body (index mt + length (whole mt)) (body mt st))"

declare exec_loop.simps [code]

fun minlen :: "rx \<Rightarrow> nat" where
  \<comment> \<open>a lower bound of the length of every match\<close>
  "minlen (Chars l) = length l"
| "minlen (One cl) = 1"
| "minlen (Plus cl) = 1"
| "minlen (LazyPlus cl) = 1"
| "minlen (Alt r1 r2) = min (minlen r1) (minlen r2)"
| "minlen (Seq r1 r2) = minlen r1 + minlen r2"
| "minlen (Grp g r) = minlen r"
| "minlen r = 0"

section \<open>The brace-depth scan of a method body\<close>

text \<open>
  \<^verbatim>\<open>parseJavaSteps\<close> (\<^verbatim>\<open>src/08-auto-implement-steps.js\<close>, lines 286--293) and
  \<^verbatim>\<open>parseJavaMethodsWithBody\<close> (script 07, \<^verbatim>\<open>src/unnamed/part_002\<close>, lines 434--441) contain
  the same loop:
  \<^verbatim>\<open>
    let braceCount = 1;
    let endIndex = startIndex;
    while (braceCount > 0 && endIndex < content.length) {
      if (content[endIndex] === '{') braceCount++;
      if (content[endIndex] === '}') braceCount--;
      endIndex++;
    }
  \<close>
  \<open>braceLoop\<close> is the \<^verbatim>\<open>while\<close> loop on the pair of its variables; \<open>T_braceLoop\<close> counts its
  iterations.
\<close>

definition braceStep :: "char \<Rightarrow> int \<Rightarrow> int" where
  "braceStep ch braceCount =
     (let b1 = (if ch = CHR ''{'' then braceCount + 1 else braceCount)
      in if ch = CHR ''}'' then b1 - 1 else b1)"

function braceLoop :: "string \<Rightarrow> int \<Rightarrow> nat \<Rightarrow> int \<times> nat" where
  "braceLoop content braceCount endIndex =
     (if braceCount > 0 \<and> endIndex < length content
      then braceLoop content (braceStep (content ! endIndex) braceCount) (endIndex + 1)
      else (braceCount, endIndex))"
  by pat_completeness auto
termination
  by (relation "measure (\<lambda>(content, braceCount, endIndex). length content - endIndex)") auto

function T_braceLoop :: "string \<Rightarrow> int \<Rightarrow> nat \<Rightarrow> nat" where
  "T_braceLoop content braceCount endIndex =
     (if braceCount > 0 \<and> endIndex < length content
      then 1 + T_braceLoop content (braceStep (content ! endIndex) braceCount) (endIndex + 1)
      else 0)"
  by pat_completeness auto
termination
  by (relation "measure (\<lambda>(content, braceCount, endIndex). length content - endIndex)") auto

declare braceLoop.simps [simp del]
declare T_braceLoop.simps [simp del]

definition findBodyEnd :: "string \<Rightarrow> nat \<Rightarrow> nat" where
  \<comment> \<open>\<^verbatim>\<open>endIndex\<close> after the loop, started with \<^verbatim>\<open>braceCount = 1\<close> at \<^verbatim>\<open>startIndex\<close>\<close>
  "findBodyEnd content startIndex = snd (braceLoop content 1 startIndex)"

definition js_substring :: "string \<Rightarrow> nat \<Rightarrow> nat \<Rightarrow> string" where
  \<comment> \<open>\<^verbatim>\<open>s.substring(a, b)\<close>: the arguments are swapped when \<open>b < a\<close>\<close>
  "js_substring s a b = take (max a b - min a b) (drop (min a b) s)"

section \<open>Script 08: auto-implementation of step definitions\<close>

text \<open>\<^verbatim>\<open>src/08-auto-implement-steps.js\<close>.  Console output is not modelled.\<close>

datatype js_error = TypeError

record param =
  name :: string
  type :: string

definition truthy :: "string option \<Rightarrow> bool" where
  \<comment> \<open>a string or \<^verbatim>\<open>undefined\<close>/\<^verbatim>\<open>null\<close> in a condition\<close>
  "truthy v = (case v of None \<Rightarrow> False | Some t \<Rightarrow> t \<noteq> [])"

definition js_or :: "string option \<Rightarrow> string option \<Rightarrow> string option" where
  \<comment> \<open>\<^verbatim>\<open>a || b\<close>\<close>
  "js_or a b = (if truthy a then a else b)"

definition paramName :: "param list \<Rightarrow> nat \<Rightarrow> string option" where
  \<comment> \<open>\<^verbatim>\<open>params[i]?.name\<close>\<close>
  "paramName ps i = (if i < length ps then Some (name (ps ! i)) else None)"

text \<open>
  Numbers.  \<^verbatim>\<open>(matches[1] || params[0]?.name) * 1000\<close> and \<^verbatim>\<open>... - 1\<close> convert a string to
  a number, compute in double precision and print the result in the template literal.  The
  patterns of the two rules give \<^verbatim>\<open>matches[1]\<close> as a run of decimal digits.  The model
  converts such a run (and the empty string, which is 0) to the nearest double, ties to the
  even significand, and everything else to \<^verbatim>\<open>NaN\<close>; signs, fractions, exponents, hexadecimal
  literals and the literal \<^verbatim>\<open>Infinity\<close> are left out.  All values that occur are integers
  or infinite; \<open>Num i\<close> is the double of the integer value \<open>i\<close>.
\<close>

definition digitChar :: "nat \<Rightarrow> char" where
  "digitChar d = char_of (48 + d)"

function showNat :: "nat \<Rightarrow> string" where
  "showNat n = (if n < 10 then [digitChar n] else showNat (n div 10) @ [digitChar (n mod 10)])"
  by pat_completeness auto
termination
  by (relation "measure id") auto

declare showNat.simps [simp del]

function showDigits :: "int \<Rightarrow> string" where
  \<comment> \<open>the decimal digits of an integer that is not negative\<close>
  "showDigits i =
     (if i < 10 then [digitChar (nat i)] else showDigits (i div 10) @ [digitChar (nat (i mod 10))])"
  by pat_completeness auto
termination
  by (relation "measure nat") auto

declare showDigits.simps [simp del]

datatype number = NaN | PosInfinity | NegInfinity | Num int

function bitlen :: "int \<Rightarrow> nat" where
  \<comment> \<open>the number of binary digits\<close>
  "bitlen i = (if i \<le> 0 then 0 else 1 + bitlen (i div 2))"
  by pat_completeness auto
termination
  by (relation "measure nat") auto

declare bitlen.simps [simp del]

definition roundDouble :: "int \<Rightarrow> int option" where
  \<comment> \<open>the double nearest to an integer that is not negative: 53 binary digits are kept, a tie
      goes to the even significand, and \<open>None\<close> is the overflow to \<^verbatim>\<open>Infinity\<close>\<close>
  "roundDouble i =
     (if i < 2 ^ 53 then Some i
      else let e = bitlen i - 53;
               q = i div 2 ^ e;
               r = i mod 2 ^ e;
               q' = (if 2 ^ e < 2 * r \<or> (2 * r = 2 ^ e \<and> odd q) then q + 1 else q)
           in if 2 ^ 1024 \<le> q' * 2 ^ e then None else Some (q' * 2 ^ e))"

definition toDouble :: "int \<Rightarrow> number" where
  "toDouble i =
     (if i < 0 then (case roundDouble (- i) of None \<Rightarrow> NegInfinity | Some v \<Rightarrow> Num (- v))
      else (case roundDouble i of None \<Rightarrow> PosInfinity | Some v \<Rightarrow> Num v))"

definition toNumber :: "string option \<Rightarrow> number" where
  "toNumber v =
     (case v of
        None \<Rightarrow> NaN
      | Some t \<Rightarrow> if list_all isDigit (trim t)
                  then toDouble (foldl (\<lambda>a c. 10 * a + int (digitVal c)) 0 (trim t)) else NaN)"

definition numTimes :: "number \<Rightarrow> int \<Rightarrow> number" where
  \<comment> \<open>\<^verbatim>\<open>v * c\<close> for a positive integer \<open>c\<close>\<close>
  "numTimes v c = (case v of Num i \<Rightarrow> toDouble (i * c) | other \<Rightarrow> other)"

definition numMinus :: "number \<Rightarrow> int \<Rightarrow> number" where
  \<comment> \<open>\<^verbatim>\<open>v - c\<close> for an integer \<open>c\<close>\<close>
  "numMinus v c = (case v of Num i \<Rightarrow> toDouble (i - c) | other \<Rightarrow> other)"

text \<open>
  Printing (\<^verbatim>\<open>Number::toString\<close>).  Below \<open>2^53\<close> every integer is printed with all its
  digits.  From there on the digits printed are the shortest decimal \<open>s\<close> (of \<open>k\<close> digits)
  such that \<open>s * 10^(n - k)\<close> converts back to the same double; of several the one nearest to
  the value, and of two equally near the even one.  The digits are followed by \<open>n - k\<close>
  zeros when \<open>n \<le> 21\<close> and written with an exponent otherwise.  For each \<open>k\<close> only the two
  multiples of \<open>10^(n - k)\<close> that enclose the value have to be tried, and 17 digits always
  suffice.
\<close>

definition candidates :: "int \<Rightarrow> nat \<Rightarrow> (int \<times> nat) list" where
  "candidates x k =
     [(s, n). n \<leftarrow> [length (showDigits x), length (showDigits x) + 1],
              s \<leftarrow> [x div 10 ^ (n - k), x div 10 ^ (n - k) + 1],
              k \<le> n, 10 ^ (k - 1) \<le> s, s < 10 ^ k, roundDouble (s * 10 ^ (n - k)) = Some x]"

definition closer :: "int \<Rightarrow> nat \<Rightarrow> int \<times> nat \<Rightarrow> int \<times> nat \<Rightarrow> int \<times> nat" where
  "closer x k a b =
     (let da = \<bar>fst a * 10 ^ (snd a - k) - x\<bar>;
          db = \<bar>fst b * 10 ^ (snd b - k) - x\<bar>
      in if da < db \<or> (da = db \<and> even (fst a)) then a else b)"

definition shortest :: "int \<Rightarrow> int \<times> nat" where
  "shortest x =
     (case filter (\<lambda>k. candidates x k \<noteq> []) [1 ..< 18] of
        [] \<Rightarrow> (x, length (showDigits x))
      | k # ks \<Rightarrow> foldr (closer x k) (butlast (candidates x k)) (last (candidates x k)))"

definition showDouble :: "int \<Rightarrow> string" where
  "showDouble x =
     (if x < 2 ^ 53 then showDigits x
      else let (s, n) = shortest x; ds = showDigits s; k = length ds
           in if n \<le> 21 then ds @ replicate (n - k) (CHR ''0'')
              else (if k = 1 then ds else hd ds # CHR ''.'' # tl ds) @ ''e+'' @ showNat (n - 1))"

definition showNumber :: "number \<Rightarrow> string" where
  "showNumber v =
     (case v of
        NaN \<Rightarrow> ''NaN''
      | PosInfinity \<Rightarrow> ''Infinity''
      | NegInfinity \<Rightarrow> ''-Infinity''
      | Num i \<Rightarrow> if i < 0 then CHR ''-'' # showDouble (- i) else showDouble i)"

record rule =
  pattern :: rx
  implement :: "rmatch \<Rightarrow> param list \<Rightarrow> js_error + string"

abbreviation optq :: rx where
  \<comment> \<open>\<^verbatim>\<open>['"]?\<close>\<close>
  "optq \<equiv> Opt (One quote)"

abbreviation cap1 :: rx where
  \<comment> \<open>\<^verbatim>\<open>['"]?(.+?)['"]?\<close>\<close>
  "cap1 \<equiv> Seq optq (Seq (Grp 1 (LazyPlus Dot)) optq)"

abbreviation cap2 :: rx where
  "cap2 \<equiv> Seq optq (Seq (Grp 2 (LazyPlus Dot)) optq)"

abbreviation clicks :: rx where
  \<comment> \<open>\<^verbatim>\<open>user clicks? (?:on )?\<close>\<close>
  "clicks \<equiv> Seq (Chars ''user click'') (Seq (Opt (Chars ''s'')) (Seq (Chars '' '') (Opt (Chars ''on ''))))"

abbreviation optThe :: rx where
  \<comment> \<open>\<^verbatim>\<open>(?:the )?\<close>\<close>
  "optThe \<equiv> Opt (Chars ''the '')"

abbreviation m1p0 :: "rmatch \<Rightarrow> param list \<Rightarrow> string option" where
  \<comment> \<open>\<^verbatim>\<open>matches[1] || params[0]?.name\<close>\<close>
  "m1p0 matches params \<equiv> js_or (grp matches 1) (paramName params 0)"

abbreviation m2p1 :: "rmatch \<Rightarrow> param list \<Rightarrow> string option" where
  \<comment> \<open>\<^verbatim>\<open>matches[2] || params[1]?.name\<close>\<close>
  "m2p1 matches params \<equiv> js_or (grp matches 2) (paramName params 1)"

abbreviation networkidle :: string where
  "networkidle \<equiv> nl # ''    await page.waitForLoadState('networkidle');''"

text \<open>
  The table \<^verbatim>\<open>stepPatterns\<close> (lines 57--250), in its order.  Every pattern has the \<^verbatim>\<open>i\<close>
  flag.  A generator returns \<open>Inr\<close> of the generated text, or \<open>Inl\<close> of the exception it
  throws.
\<close>

definition stepPatterns :: "rule list" where
  \<open>stepPatterns = [
    \<comment> \<open>\<^verbatim>\<open>/user (?:navigates?|goes?) to ['"]?(.+?)['"]?$/i\<close>\<close>
    \<lparr>pattern = cat [Chars ''user '',
         alts [Seq (Chars ''navigate'') (Opt (Chars ''s'')), Seq (Chars ''goe'') (Opt (Chars ''s''))],
         Chars '' to '', cap1, Eol],
     implement = (\<lambda>matches params.
       Inr (''await page.goto('' @ sq # tpl (js_or (m1p0 matches params) (Some ''/'')) @ sq # '');''
            @ networkidle))\<rparr>,
    \<comment> \<open>\<^verbatim>\<open>/user (?:is on|opens?) (?:the )?['"]?(.+?)['"]? page$/i\<close>\<close>
    \<lparr>pattern = cat [Chars ''user '', alts [Chars ''is on'', Seq (Chars ''open'') (Opt (Chars ''s''))],
         Chars '' '', optThe, cap1, Chars '' page'', Eol],
     implement = (\<lambda>matches params.
       Inr (''await page.goto('/''
            @ tpl (js_or (map_option (\<lambda>t. js_replace_all False (Plus ws) (toLowerCase t) ''-'')
                            (grp matches 1)) (Some []))
            @ sq # '');'' @ networkidle))\<rparr>,
    \<comment> \<open>\<^verbatim>\<open>/user clicks? (?:on )?(?:the )?['"]?(.+?)['"]?$/i\<close>\<close>
    \<lparr>pattern = cat [clicks, optThe, cap1, Eol],
     implement = (\<lambda>matches params.
       case m1p0 matches params of
         None \<Rightarrow> Inr (''await page.getByText('undefined').click();'')
       | Some target \<Rightarrow>
           if str_includes (toLowerCase target) ''button'' then
             Inr (''await page.getByRole('button', { name: /''
                  @ trim (js_replace True (Chars ''button'') target []) @ ''/i }).click();'')
           else if str_includes (toLowerCase target) ''link'' then
             Inr (''await page.getByRole('link', { name: /''
                  @ trim (js_replace True (Chars ''link'') target []) @ ''/i }).click();'')
           else Inr (''await page.getByText('' @ sq # target @ sq # '').click();''))\<rparr>,
    \<comment> \<open>\<^verbatim>\<open>/user clicks? (?:on )?(?:the )?button ['"]?(.+?)['"]?$/i\<close>\<close>
    \<lparr>pattern = cat [clicks, optThe, Chars ''button '', cap1, Eol],
     implement = (\<lambda>matches params.
       Inr (''await page.getByRole('button', { name: '' @ sq # tpl (m1p0 matches params) @ sq
            # '' }).click();''))\<rparr>,
    \<comment> \<open>\<^verbatim>\<open>/user clicks? (?:on )?(?:the )?link ['"]?(.+?)['"]?$/i\<close>\<close>
    \<lparr>pattern = cat [clicks, optThe, Chars ''link '', cap1, Eol],
     implement = (\<lambda>matches params.
       Inr (''await page.getByRole('link', { name: '' @ sq # tpl (m1p0 matches params) @ sq
            # '' }).click();''))\<rparr>,
    \<comment> \<open>\<^verbatim>\<open>/user clicks? (?:on )?(?:the )?tab ['"]?(.+?)['"]?$/i\<close>\<close>
    \<lparr>pattern = cat [clicks, optThe, Chars ''tab '', cap1, Eol],
     implement = (\<lambda>matches params.
       Inr (''await page.getByRole('tab', { name: '' @ sq # tpl (m1p0 matches params) @ sq
            # '' }).click();''))\<rparr>,
    \<comment> \<open>\<^verbatim>\<open>/user clicks? (?:on )?(?:an? )?Account$/i\<close>\<close>
    \<lparr>pattern = cat [clicks, Opt (cat [Chars ''a'', Opt (Chars ''n''), Chars '' '']),
         Chars ''Account'', Eol],
     implement = (\<lambda>matches params.
       Inr ''await page.locator('table tbody tr').first().click();'')\<rparr>,
    \<comment> \<open>\<^verbatim>\<open>/user (?:enters?|types?|inputs?) ['"]?(.+?)['"]? (?:in|into) (?:the )?['"]?(.+?)['"]?(?: field)?$/i\<close>\<close>
    \<lparr>pattern = cat [Chars ''user '',
         alts [Seq (Chars ''enter'') (Opt (Chars ''s'')), Seq (Chars ''type'') (Opt (Chars ''s'')),
               Seq (Chars ''input'') (Opt (Chars ''s''))],
         Chars '' '', cap1, Chars '' '', alts [Chars ''in'', Chars ''into''], Chars '' '', optThe,
         cap2, Opt (Chars '' field''), Eol],
     implement = (\<lambda>matches params.
       case m1p0 matches params of
         None \<Rightarrow> Inl TypeError
       | Some v \<Rightarrow>
           Inr (''await page.getByLabel('' @ sq # tpl (m2p1 matches params) @ sq # '').fill(''
                @ (if startsWith v ''{'' then tpl (paramName params 0) else sq # v @ [sq])
                @ '');''))\<rparr>,
    \<comment> \<open>\<^verbatim>\<open>/user (?:enters?|types?|fills?) ['"]?(.+?)['"]?$/i\<close>\<close>
    \<lparr>pattern = cat [Chars ''user '',
         alts [Seq (Chars ''enter'') (Opt (Chars ''s'')), Seq (Chars ''type'') (Opt (Chars ''s'')),
               Seq (Chars ''fill'') (Opt (Chars ''s''))],
         Chars '' '', cap1, Eol],
     implement = (\<lambda>matches params.
       Inr (''await page.locator('input:focus, textarea:focus').fill(''
            @ tpl (js_or (paramName params 0) (Some (sq # tpl (grp matches 1) @ [sq]))) @ '');''))\<rparr>,
    \<comment> \<open>\<^verbatim>\<open>/user clears? (?:the )?['"]?(.+?)['"]?(?: field)?$/i\<close>\<close>
    \<lparr>pattern = cat [Chars ''user clear'', Opt (Chars ''s''), Chars '' '', optThe, cap1,
         Opt (Chars '' field''), Eol],
     implement = (\<lambda>matches params.
       Inr (''await page.getByLabel('' @ sq # tpl (m1p0 matches params) @ sq # '').clear();''))\<rparr>,
    \<comment> \<open>\<^verbatim>\<open>/user selects? ['"]?(.+?)['"]? from (?:the )?['"]?(.+?)['"]?(?: dropdown)?$/i\<close>\<close>
    \<lparr>pattern = cat [Chars ''user select'', Opt (Chars ''s''), Chars '' '', cap1, Chars '' from '',
         optThe, cap2, Opt (Chars '' dropdown''), Eol],
     implement = (\<lambda>matches params.
       Inr (''await page.getByLabel('' @ sq # tpl (m2p1 matches params) @ sq # '').selectOption(''
            @ sq # tpl (m1p0 matches params) @ sq # '');''))\<rparr>,
    \<comment> \<open>\<^verbatim>\<open>/user selects? (?:the )?option ['"]?(.+?)['"]?$/i\<close>\<close>
    \<lparr>pattern = cat [Chars ''user select'', Opt (Chars ''s''), Chars '' '', optThe, Chars ''option '',
         cap1, Eol],
     implement = (\<lambda>matches params.
       Inr (''await page.getByRole('option', { name: '' @ sq # tpl (m1p0 matches params) @ sq
            # '' }).click();''))\<rparr>,
    \<comment> \<open>\<^verbatim>\<open>/user (?:checks?|selects?) (?:the )?['"]?(.+?)['"]? checkbox$/i\<close>\<close>
    \<lparr>pattern = cat [Chars ''user '',
         alts [Seq (Chars ''check'') (Opt (Chars ''s'')), Seq (Chars ''select'') (Opt (Chars ''s''))],
         Chars '' '', optThe, cap1, Chars '' checkbox'', Eol],
     implement = (\<lambda>matches params.
       Inr (''await page.getByLabel('' @ sq # tpl (m1p0 matches params) @ sq # '').check();''))\<rparr>,
    \<comment> \<open>\<^verbatim>\<open>/user unchecks? (?:the )?['"]?(.+?)['"]? checkbox$/i\<close>\<close>
    \<lparr>pattern = cat [Chars ''user uncheck'', Opt (Chars ''s''), Chars '' '', optThe, cap1,
         Chars '' checkbox'', Eol],
     implement = (\<lambda>matches params.
       Inr (''await page.getByLabel('' @ sq # tpl (m1p0 matches params) @ sq # '').uncheck();''))\<rparr>,
    \<comment> \<open>\<^verbatim>\<open>/user waits? for (?:the )?page to load$/i\<close>\<close>
    \<lparr>pattern = cat [Chars ''user wait'', Opt (Chars ''s''), Chars '' for '', optThe,
         Chars ''page to load'', Eol],
     implement = (\<lambda>matches params. Inr ''await page.waitForLoadState('networkidle');'')\<rparr>,
    \<comment> \<open>\<^verbatim>\<open>/user waits? for (\d+) seconds?$/i\<close>\<close>
    \<lparr>pattern = cat [Chars ''user wait'', Opt (Chars ''s''), Chars '' for '', Grp 1 (Plus dg),
         Chars '' second'', Opt (Chars ''s''), Eol],
     implement = (\<lambda>matches params.
       Inr (''await page.waitForTimeout(''
            @ showNumber (numTimes (toNumber (m1p0 matches params)) 1000) @ '');''))\<rparr>,
    \<comment> \<open>\<^verbatim>\<open>/user waits? (?:for )?(?:the )?['"]?(.+?)['"]? (?:to be )?(?:visible|displayed)$/i\<close>\<close>
    \<lparr>pattern = cat [Chars ''user wait'', Opt (Chars ''s''), Chars '' '', Opt (Chars ''for ''), optThe,
         cap1, Chars '' '', Opt (Chars ''to be ''), alts [Chars ''visible'', Chars ''displayed''], Eol],
     implement = (\<lambda>matches params.
       Inr (''await page.getByText('' @ sq # tpl (m1p0 matches params) @ sq
            # '').waitFor({ state: 'visible' });''))\<rparr>,
    \<comment> \<open>\<^verbatim>\<open>/(?:user )?(?:should )?sees? (?:the )?(?:text )?['"]?(.+?)['"]?$/i\<close>\<close>
    \<lparr>pattern = cat [Opt (Chars ''user ''), Opt (Chars ''should ''), Chars ''see'', Opt (Chars ''s''),
         Chars '' '', optThe, Opt (Chars ''text ''), cap1, Eol],
     implement = (\<lambda>matches params.
       Inr (''await expect(page.getByText('' @ sq # tpl (m1p0 matches params) @ sq
            # '')).toBeVisible();''))\<rparr>,
    \<comment> \<open>\<^verbatim>\<open>/(?:user )?(?:should )?sees? (?:the )?['"]?(.+?)['"]? (?:is )?displayed$/i\<close>\<close>
    \<lparr>pattern = cat [Opt (Chars ''user ''), Opt (Chars ''should ''), Chars ''see'', Opt (Chars ''s''),
         Chars '' '', optThe, cap1, Chars '' '', Opt (Chars ''is ''), Chars ''displayed'', Eol],
     implement = (\<lambda>matches params.
       Inr (''await expect(page.getByText('' @ sq # tpl (m1p0 matches params) @ sq
            # '')).toBeVisible();''))\<rparr>,
    \<comment> \<open>\<^verbatim>\<open>/(?:the )?page title should (?:be|contain) ['"]?(.+?)['"]?$/i\<close>\<close>
    \<lparr>pattern = cat [optThe, Chars ''page title should '', alts [Chars ''be'', Chars ''contain''],
         Chars '' '', cap1, Eol],
     implement = (\<lambda>matches params.
       Inr (''await expect(page).toHaveTitle(/'' @ tpl (m1p0 matches params) @ ''/i);''))\<rparr>,
    \<comment> \<open>\<^verbatim>\<open>/(?:the )?URL should contain ['"]?(.+?)['"]?$/i\<close>\<close>
    \<lparr>pattern = cat [optThe, Chars ''URL should contain '', cap1, Eol],
     implement = (\<lambda>matches params.
       Inr (''await expect(page).toHaveURL(/'' @ tpl (m1p0 matches params) @ ''/);''))\<rparr>,
    \<comment> \<open>\<^verbatim>\<open>/(?:user )?validates? (?:the )?['"]?(.+?)['"]?(?: tab)?(?: fields)?$/i\<close>\<close>
    \<lparr>pattern = cat [Opt (Chars ''user ''), Chars ''validate'', Opt (Chars ''s''), Chars '' '', optThe,
         cap1, Opt (Chars '' tab''), Opt (Chars '' fields''), Eol],
     implement = (\<lambda>matches params.
       Inr (''// Validate '' @ tpl (js_or (m1p0 matches params) (Some ''section'')) @ nl
            # ''    await expect(page.locator('[data-testid="''
            @ js_replace_all False (Plus ws)
                (toLowerCase (tpl (js_or (m1p0 matches params) (Some ''section'')))) ''-''
            @ ''"]')).toBeVisible();''))\<rparr>,
    \<comment> \<open>\<^verbatim>\<open>/(?:the )?['"]?(.+?)['"]? should be (?:visible|displayed)$/i\<close>\<close>
    \<lparr>pattern = cat [optThe, cap1, Chars '' should be '', alts [Chars ''visible'', Chars ''displayed''],
         Eol],
     implement = (\<lambda>matches params.
       Inr (''await expect(page.getByText('' @ sq # tpl (m1p0 matches params) @ sq
            # '')).toBeVisible();''))\<rparr>,
    \<comment> \<open>\<^verbatim>\<open>/(?:the )?['"]?(.+?)['"]? should not be (?:visible|displayed)$/i\<close>\<close>
    \<lparr>pattern = cat [optThe, cap1, Chars '' should not be '',
         alts [Chars ''visible'', Chars ''displayed''], Eol],
     implement = (\<lambda>matches params.
       Inr (''await expect(page.getByText('' @ sq # tpl (m1p0 matches params) @ sq
            # '')).toBeHidden();''))\<rparr>,
    \<comment> \<open>\<^verbatim>\<open>/(?:the )?['"]?(.+?)['"]? should (?:have|contain) (?:text|value) ['"]?(.+?)['"]?$/i\<close>\<close>
    \<lparr>pattern = cat [optThe, cap1, Chars '' should '', alts [Chars ''have'', Chars ''contain''],
         Chars '' '', alts [Chars ''text'', Chars ''value''], Chars '' '', cap2, Eol],
     implement = (\<lambda>matches params.
       Inr (''await expect(page.getByLabel('' @ sq # tpl (grp matches 1) @ sq # '')).toHaveValue(''
            @ sq # tpl (js_or (grp matches 2) (paramName params 0)) @ sq # '');''))\<rparr>,
    \<comment> \<open>\<^verbatim>\<open>/account details should be displayed$/i\<close>\<close>
    \<lparr>pattern = cat [Chars ''account details should be displayed'', Eol],
     implement = (\<lambda>matches params.
       Inr (''await expect(page.locator('[data-testid="account-details"]')).toBeVisible();'' @ nl
            # ''    // Or use a more specific locator based on your app structure''))\<rparr>,
    \<comment> \<open>\<^verbatim>\<open>/user logs? in(?:to)? (?:with )?(?:default )?(?:credentials)?/i\<close>\<close>
    \<lparr>pattern = cat [Chars ''user log'', Opt (Chars ''s''), Chars '' in'', Opt (Chars ''to''), Chars '' '',
         Opt (Chars ''with ''), Opt (Chars ''default ''), Opt (Chars ''credentials'')],
     implement = (\<lambda>matches params.
       Inr (''// Login with default credentials'' @ nl
            # ''    await page.getByLabel('Username').fill(process.env.DEFAULT_USER || 'testuser');''
            @ nl
            # ''    await page.getByLabel('Password').fill(process.env.DEFAULT_PASS || 'testpass');''
            @ nl
            # ''    await page.getByRole('button', { name: /login|sign in/i }).click();''
            @ networkidle))\<rparr>,
    \<comment> \<open>\<^verbatim>\<open>/user logs? out$/i\<close>\<close>
    \<lparr>pattern = cat [Chars ''user log'', Opt (Chars ''s''), Chars '' out'', Eol],
     implement = (\<lambda>matches params.
       Inr (''await page.getByRole('button', { name: /logout|sign out/i }).click();''
            @ networkidle))\<rparr>,
    \<comment> \<open>\<^verbatim>\<open>/user clicks? (?:on )?row (\d+)/i\<close>\<close>
    \<lparr>pattern = cat [clicks, Chars ''row '', Grp 1 (Plus dg)],
     implement = (\<lambda>matches params.
       Inr (''await page.locator('table tbody tr').nth(''
            @ showNumber (numMinus (toNumber (m1p0 matches params)) 1)
            @ '').click();''))\<rparr>,
    \<comment> \<open>\<^verbatim>\<open>/user clicks? (?:on )?(?:the )?first row/i\<close>\<close>
    \<lparr>pattern = cat [clicks, optThe, Chars ''first row''],
     implement = (\<lambda>matches params.
       Inr ''await page.locator('table tbody tr').first().click();'')\<rparr>,
    \<comment> \<open>\<^verbatim>\<open>/user scrolls? (?:to )?(?:the )?(?:bottom|end)/i\<close>\<close>
    \<lparr>pattern = cat [Chars ''user scroll'', Opt (Chars ''s''), Chars '' '', Opt (Chars ''to ''), optThe,
         alts [Chars ''bottom'', Chars ''end'']],
     implement = (\<lambda>matches params.
       Inr ''await page.evaluate(() => window.scrollTo(0, document.body.scrollHeight));'')\<rparr>,
    \<comment> \<open>\<^verbatim>\<open>/user scrolls? (?:to )?(?:the )?top/i\<close>\<close>
    \<lparr>pattern = cat [Chars ''user scroll'', Opt (Chars ''s''), Chars '' '', Opt (Chars ''to ''), optThe,
         Chars ''top''],
     implement = (\<lambda>matches params.
       Inr ''await page.evaluate(() => window.scrollTo(0, 0));'')\<rparr>,
    \<comment> \<open>\<^verbatim>\<open>/user presses? (?:the )?(?:Enter|Return) key$/i\<close>\<close>
    \<lparr>pattern = cat [Chars ''user presse'', Opt (Chars ''s''), Chars '' '', optThe,
         alts [Chars ''Enter'', Chars ''Return''], Chars '' key'', Eol],
     implement = (\<lambda>matches params. Inr ''await page.keyboard.press('Enter');'')\<rparr>,
    \<comment> \<open>\<^verbatim>\<open>/user presses? (?:the )?Tab key$/i\<close>\<close>
    \<lparr>pattern = cat [Chars ''user presse'', Opt (Chars ''s''), Chars '' '', optThe, Chars ''Tab key'', Eol],
     implement = (\<lambda>matches params. Inr ''await page.keyboard.press('Tab');'')\<rparr>,
    \<comment> \<open>\<^verbatim>\<open>/user presses? (?:the )?Escape key$/i\<close>\<close>
    \<lparr>pattern = cat [Chars ''user presse'', Opt (Chars ''s''), Chars '' '', optThe, Chars ''Escape key'',
         Eol],
     implement = (\<lambda>matches params. Inr ''await page.keyboard.press('Escape');'')\<rparr>
   ]\<close>

text \<open>\<^verbatim>\<open>matchStepPattern\<close> (lines 255--268): the \<^verbatim>\<open>for ... of\<close> loop over the table.\<close>

fun matchStepPattern_loop :: "rule list \<Rightarrow> string \<Rightarrow> param list \<Rightarrow> string option" where
  "matchStepPattern_loop [] description params = None"
| "matchStepPattern_loop (r # rs) description params =
     (case js_match True (pattern r) description of
        Some matches \<Rightarrow>
          (case implement r matches params of
             Inr text \<Rightarrow> Some text
           | Inl e \<Rightarrow> matchStepPattern_loop rs description params)
      | None \<Rightarrow> matchStepPattern_loop rs description params)"

definition matchStepPattern :: "string \<Rightarrow> param list \<Rightarrow> string option" where
  "matchStepPattern description params = matchStepPattern_loop stepPatterns description params"

text \<open>\<^verbatim>\<open>parseJavaSteps\<close> (lines 273--315).\<close>

record step =
  description :: string
  methodName :: string
  params :: "param list"
  body :: string

definition stepRegex :: rx where
  \<comment> \<open>\<^verbatim>\<open>/@(?:QAFTestStep\s*\(\s*description\s*=\s*|Given|When|Then)\s*\(\s*["'](.+?)["']\s*\)\s*(?:public\s+)?(?:void|boolean|String|\w+)\s+(\w+)\s*\(([^)]*)\)\s*\{/g\<close>\<close>
  \<open>stepRegex = cat [Chars ''@'',
     alts [cat [Chars ''QAFTestStep'', Star ws, Chars ''('', Star ws, Chars ''description'', Star ws,
                Chars ''='', Star ws],
           Chars ''Given'', Chars ''When'', Chars ''Then''],
     Star ws, Chars ''('', Star ws, One quote, Grp 1 (LazyPlus Dot), One quote, Star ws, Chars '')'',
     Star ws, Opt (Seq (Chars ''public'') (Plus ws)),
     alts [Chars ''void'', Chars ''boolean'', Chars ''String'', Plus wd],
     Plus ws, Grp 2 (Plus wd), Star ws, Chars ''('', Grp 3 (Star (NotIn [C CHR '')''])), Chars '')'',
     Star ws, Chars ''{'']\<close>

definition parseStepParam :: "string \<Rightarrow> param" where
  "parseStepParam p0 =
     (let parts = splitWs (trim p0) in
      \<lparr>name = last parts,
       type = (if str_includes (toLowerCase (hd parts)) ''string'' then ''string''
               else if str_includes (toLowerCase (hd parts)) ''int'' then ''number''
               else ''string'')\<rparr>)"

definition parseStepParams :: "string \<Rightarrow> param list" where
  \<comment> \<open>\<^verbatim>\<open>paramsStr.split(',').filter(p => p.trim()).map(...)\<close>\<close>
  "parseStepParams paramsStr =
     map parseStepParam (filter (\<lambda>p0. trim p0 \<noteq> []) (splitOn CHR '','' paramsStr))"

definition parseStep :: "string \<Rightarrow> rmatch \<Rightarrow> step list \<Rightarrow> step list" where
  \<comment> \<open>the body of the \<^verbatim>\<open>while\<close> loop, for the match \<open>mt\<close>\<close>
  "parseStep content mt steps =
     (let startIndex = index mt + length (whole mt);
          endIndex = findBodyEnd content startIndex
      in steps @ [\<lparr>description = tpl (grp mt 1),
                     methodName = tpl (grp mt 2),
                     params = parseStepParams (tpl (grp mt 3)),
                     body = trim (js_substring content startIndex (endIndex - 1))\<rparr>])"

definition parseJavaSteps :: "string \<Rightarrow> step list option" where
  "parseJavaSteps content = exec_loop False stepRegex content (parseStep content) 0 []"

text \<open>
  \<^verbatim>\<open>updateTypeScriptStepFile\<close> (lines 320--375).  \<^verbatim>\<open>escapedDesc\<close> puts a backslash before
  every pattern metacharacter of the description, so the pattern compiled from it by
  \<^verbatim>\<open>new RegExp\<close> matches the description as a literal text; \<open>todoPattern\<close> contains that
  literal.  The pattern has the \<^verbatim>\<open>i\<close> flag and no \<^verbatim>\<open>g\<close> flag.
\<close>

definition todoPattern :: "string \<Rightarrow> rx" where
  \<comment> \<open>\<^verbatim>\<open>(Given|When|Then)\s*\(\s*['"]${escapedDesc}['"]\s*,\s*async[^{]+\{[^}]*TODO[^}]*\}\<close>\<close>
  \<open>todoPattern desc = cat [Grp 1 (alts [Chars ''Given'', Chars ''When'', Chars ''Then'']),
     Star ws, Chars ''('', Star ws, One quote, Chars desc, One quote, Star ws, Chars '','', Star ws,
     Chars ''async'', Plus (NotIn [C CHR ''{'']), Chars ''{'', Star (NotIn [C CHR ''}'']),
     Chars ''TODO'', Star (NotIn [C CHR ''}'']), Chars ''}'']\<close>

record stats =
  filesProcessed :: nat
  stepsImplemented :: nat
  stepsSkipped :: nat

definition tsParams :: "param list \<Rightarrow> string" where
  "tsParams ps =
     (if length ps > 0
      then ''{ page }, '' @ join '', '' (map (\<lambda>p. name p @ '': '' @ param.type p) ps)
      else ''{ page }'')"

definition stepType :: "string \<Rightarrow> string" where
  "stepType desc =
     (if startsWith (toLowerCase desc) ''user should'' \<or>
         str_includes (toLowerCase desc) ''should be'' \<or>
         str_includes (toLowerCase desc) ''validates'' then ''Then''
      else if str_includes (toLowerCase desc) ''given'' \<or>
              str_includes (toLowerCase desc) ''logged in'' then ''Given''
      else ''When'')"

definition newStep :: "step \<Rightarrow> string \<Rightarrow> string" where
  \<open>newStep st implementation =
     stepType (description st) @ ''('' @ sq # description st @ sq # '', async (''
       @ tsParams (params st) @ '') => {'' @ nl # ''    '' @ implementation @ nl # ''  })''\<close>

text \<open>
  The callback of \<^verbatim>\<open>javaSteps.forEach\<close> on the variables it changes: the content
  \<^verbatim>\<open>tsContent\<close>, the counter \<^verbatim>\<open>implementedCount\<close> and the global \<^verbatim>\<open>stats\<close>.
\<close>

definition processStep :: "step \<Rightarrow> string \<times> nat \<times> stats \<Rightarrow> string \<times> nat \<times> stats" where
  "processStep st = (\<lambda>(tsContent, implementedCount, sts).
     if \<not> js_test True (todoPattern (description st)) tsContent then
       (tsContent, implementedCount, sts)
     else
       (case matchStepPattern (description st) (params st) of
          Some implementation \<Rightarrow>
            if implementation \<noteq> [] then
              (js_replace True (todoPattern (description st)) tsContent (newStep st implementation),
               implementedCount + 1,
               sts\<lparr>stepsImplemented := stepsImplemented sts + 1\<rparr>)
            else (tsContent, implementedCount, sts\<lparr>stepsSkipped := stepsSkipped sts + 1\<rparr>)
        | None \<Rightarrow> (tsContent, implementedCount, sts\<lparr>stepsSkipped := stepsSkipped sts + 1\<rparr>)))"

text \<open>
  The file at \<^verbatim>\<open>tsFilePath\<close> is \<open>None\<close> when it does not exist.  The result is the file
  after the call, the count returned and the statistics; the file is written only when
  at least one step was implemented.
\<close>

definition updateTypeScriptStepFile ::
  "string option \<Rightarrow> string \<Rightarrow> stats \<Rightarrow> (string option \<times> nat \<times> stats) option" where
  "updateTypeScriptStepFile tsFile javaContent sts =
     (case tsFile of
        None \<Rightarrow> Some (None, 0, sts)
      | Some tsContent0 \<Rightarrow>
          (case parseJavaSteps javaContent of
             None \<Rightarrow> None
           | Some javaSteps \<Rightarrow>
               (case fold processStep javaSteps (tsContent0, 0, sts) of
                  (tsContent, implementedCount, sts') \<Rightarrow>
                    Some (if implementedCount > 0 then Some tsContent else Some tsContent0,
                          implementedCount, sts'))))"

section \<open>Script 07: auto-implementation of page methods\<close>

text \<open>
  \<^verbatim>\<open>src/unnamed/part_002\<close>.  \<^verbatim>\<open>parseJavaMethodsWithBody\<close> (lines 421--467) and
  \<^verbatim>\<open>updateTypeScriptFile\<close> (lines 472--530).  Console output is not modelled.
\<close>


















section \<open>Script 03: parsing of Java page classes\<close>

text \<open>
  \<^verbatim>\<open>parseJavaPageClass\<close> (\<^verbatim>\<open>src/03-generate-pages.js\<close>, second revision, lines 646--788).  An
  entry of \<^verbatim>\<open>result.locators\<close> is the object \<^verbatim>\<open>{ name, xpath, playwright, type, comment }\<close>;
  its fields other than \<^verbatim>\<open>playwright\<close> carry the prefix \<open>entry\<close> here.  The global
  \<^verbatim>\<open>conversionStats\<close>, the object of the three counters \<^verbatim>\<open>semantic\<close>, \<^verbatim>\<open>css\<close> and \<^verbatim>\<open>xpath\<close>, is a
  function from the classification to its counter.  The fields \<^verbatim>\<open>locators\<close> and \<^verbatim>\<open>methods\<close> of
  the result are \<open>pageLocators\<close> and \<open>pageMethods\<close>.
\<close>

record locatorEntry =
  entryName :: string
  entryXpath :: string
  playwright :: string
  entryType :: ltype
  entryComment :: "string option"

record pageClass =
  className :: string
  pageLocators :: "locatorEntry list"
  pageMethods :: "(string \<times> string) list"

definition classRx :: rx where
  \<comment> \<open>\<^verbatim>\<open>/(?:public\s+)?class\s+(\w+)(?:\s+extends\s+\w+)?/\<close>\<close>
  \<open>classRx = cat [Opt (Seq (Chars ''public'') (Plus ws)), Chars ''class'', Plus ws, Grp 1 (Plus wd),
     Opt (cat [Plus ws, Chars ''extends'', Plus ws, Plus wd])]\<close>

abbreviation staticFinalBy :: rx where
  \<comment> \<open>\<^verbatim>\<open>(?:public\s+)?static\s+final\s+By\s+(\w+)\s*=\s*By\.xpath\s*\(\s*\<close>\<close>
  "staticFinalBy \<equiv> Seq (Opt (Seq (Chars ''public'') (Plus ws)))
     (Seq (Chars ''static'') (Seq (Plus ws) (Seq (Chars ''final'') (Seq (Plus ws) (Seq (Chars ''By'')
     (Seq (Plus ws) (Seq (Grp 1 (Plus wd)) (Seq (Star ws) (Seq (Chars ''='') (Seq (Star ws)
     (Seq (Chars ''By.xpath'') (Seq (Star ws) (Seq (Chars ''('') (Star ws))))))))))))))"

definition qafXpathRegex :: rx where
  \<comment> \<open>\<^verbatim>\<open>/(?:public\s+)?static\s+final\s+By\s+(\w+)\s*=\s*By\.xpath\s*\(\s*xpathExpression\s*:\s*"([^"]+)"\s*\)/g\<close>\<close>
  \<open>qafXpathRegex = cat [staticFinalBy, Chars ''xpathExpression'', Star ws, Chars '':'', Star ws,
     Chars [dq], Grp 2 (Plus (NotIn [C dq])), Chars [dq], Star ws, Chars '')'']\<close>

definition qafXpathRegex2 :: rx where
  \<comment> \<open>the same with single quotes\<close>
  \<open>qafXpathRegex2 = cat [staticFinalBy, Chars ''xpathExpression'', Star ws, Chars '':'', Star ws,
     Chars [sq], Grp 2 (Plus (NotIn [C sq])), Chars [sq], Star ws, Chars '')'']\<close>

definition simpleXpathRegex :: rx where
  \<comment> \<open>\<^verbatim>\<open>/(?:public\s+)?static\s+final\s+By\s+(\w+)\s*=\s*By\.xpath\s*\(\s*["'](.+?)["']\s*\)/g\<close>\<close>
  \<open>simpleXpathRegex = cat [staticFinalBy, One quote, Grp 2 (LazyPlus Dot), One quote, Star ws,
     Chars '')'']\<close>

abbreviation findByField :: rx where
  \<comment> \<open>\<^verbatim>\<open>\s*=\s*["'](.+?)["']\s*\)\s*(?:private|public|protected)?\s*(?:WebElement|QAFWebElement)\s+(\w+)\<close>\<close>
  "findByField \<equiv> Seq (Star ws) (Seq (Chars ''='') (Seq (Star ws) (Seq (One quote)
     (Seq (Grp 1 (LazyPlus Dot)) (Seq (One quote) (Seq (Star ws) (Seq (Chars '')'') (Seq (Star ws)
     (Seq (Opt (Alt (Chars ''private'') (Alt (Chars ''public'') (Chars ''protected''))))
     (Seq (Star ws) (Seq (Alt (Chars ''WebElement'') (Chars ''QAFWebElement''))
     (Seq (Plus ws) (Grp 2 (Plus wd))))))))))))))"

definition findByXPathRegex :: rx where
  \<comment> \<open>\<^verbatim>\<open>/@FindBy\s*\(\s*xpath\s*=\s*["'](.+?)["']\s*\)\s*(?:private|public|protected)?\s*(?:WebElement|QAFWebElement)\s+(\w+)/g\<close>\<close>
  \<open>findByXPathRegex = cat [Chars ''@FindBy'', Star ws, Chars ''('', Star ws, Chars ''xpath'', findByField]\<close>

definition findByIdRegex :: rx where
  \<comment> \<open>the same with \<^verbatim>\<open>id\<close> in the place of \<^verbatim>\<open>xpath\<close>\<close>
  \<open>findByIdRegex = cat [Chars ''@FindBy'', Star ws, Chars ''('', Star ws, Chars ''id'', findByField]\<close>

definition findByCssRegex :: rx where
  \<comment> \<open>the same with \<^verbatim>\<open>css\<close> in the place of \<^verbatim>\<open>xpath\<close>\<close>
  \<open>findByCssRegex = cat [Chars ''@FindBy'', Star ws, Chars ''('', Star ws, Chars ''css'', findByField]\<close>

definition pageMethodRegex :: rx where
  \<comment> \<open>\<^verbatim>\<open>/public\s+(?:void|boolean|String|int|WebElement|List<\w+>|\w+)\s+(\w+)\s*\(([^)]*)\)/g\<close>\<close>
  \<open>pageMethodRegex = cat [Chars ''public'', Plus ws,
     alts [Chars ''void'', Chars ''boolean'', Chars ''String'', Chars ''int'', Chars ''WebElement'',
           cat [Chars ''List<'', Plus wd, Chars ''>''], Plus wd],
     Plus ws, Grp 1 (Plus wd), Star ws, Chars ''('', Grp 2 (Star (NotIn [C CHR '')''])), Chars '')'']\<close>

definition getSetIsRx :: rx where
  \<comment> \<open>\<^verbatim>\<open>/^(get|set|is)[A-Z]/\<close>\<close>
  \<open>getSetIsRx = cat [Bol, Grp 1 (alts [Chars ''get'', Chars ''set'', Chars ''is'']),
     One (In [Rng CHR ''A'' CHR ''Z''])]\<close>

text \<open>
  The bodies of the loops, on the pair of \<^verbatim>\<open>result.locators\<close> and \<^verbatim>\<open>conversionStats\<close>.
  \<open>pushConverted\<close> is the block that the loops over the patterns 1, 1b, 2 and 3 share: the
  conversion, the \<^verbatim>\<open>push\<close> and the increment of \<^verbatim>\<open>conversionStats[conversion.type]\<close>.
\<close>

definition pushConverted ::
  "string \<Rightarrow> string \<Rightarrow> locatorEntry list \<times> (ltype \<Rightarrow> nat) \<Rightarrow> locatorEntry list \<times> (ltype \<Rightarrow> nat)" where
  "pushConverted fieldName xpath0 = (\<lambda>(locs, conversionStats).
     (let conv = convertXPathToPlaywright xpath0 fieldName
      in (locs @ [\<lparr>entryName = fieldName, entryXpath = xpath0,
                     playwright = conversion.locator conv,
                     entryType = conversion.type conv,
                     entryComment = conversion.comment conv\<rparr>],
          conversionStats(conversion.type conv := conversionStats (conversion.type conv) + 1))))"

definition qafBody ::
  "rmatch \<Rightarrow> locatorEntry list \<times> (ltype \<Rightarrow> nat) \<Rightarrow> locatorEntry list \<times> (ltype \<Rightarrow> nat)" where
  \<comment> \<open>pattern 1\<close>
  "qafBody mt = pushConverted (tpl (grp mt 1)) (tpl (grp mt 2))"

definition dedupBody ::
  "rmatch \<Rightarrow> locatorEntry list \<times> (ltype \<Rightarrow> nat) \<Rightarrow> locatorEntry list \<times> (ltype \<Rightarrow> nat)" where
  \<comment> \<open>patterns 1b and 2: \<^verbatim>\<open>result.locators.some(l => l.name === match[1])\<close> skips the match\<close>
  "dedupBody mt = (\<lambda>(locs, conversionStats).
     if list_ex (\<lambda>l. entryName l = tpl (grp mt 1)) locs then (locs, conversionStats)
     else pushConverted (tpl (grp mt 1)) (tpl (grp mt 2)) (locs, conversionStats))"

definition findByXPathBody ::
  "rmatch \<Rightarrow> locatorEntry list \<times> (ltype \<Rightarrow> nat) \<Rightarrow> locatorEntry list \<times> (ltype \<Rightarrow> nat)" where
  \<comment> \<open>pattern 3\<close>
  "findByXPathBody mt = pushConverted (tpl (grp mt 2)) (tpl (grp mt 1))"

definition findByIdBody ::
  "rmatch \<Rightarrow> locatorEntry list \<times> (ltype \<Rightarrow> nat) \<Rightarrow> locatorEntry list \<times> (ltype \<Rightarrow> nat)" where
  \<comment> \<open>pattern 4\<close>
  "findByIdBody mt = (\<lambda>(locs, conversionStats).
     (locs @ [\<lparr>entryName = tpl (grp mt 2), entryXpath = ''id='' @ tpl (grp mt 1),
                 playwright = ''page.locator('#'' @ tpl (grp mt 1) @ sq # '')'',
                 entryType = Css, entryComment = None\<rparr>],
      conversionStats(Css := conversionStats Css + 1)))"

definition findByCssBody ::
  "rmatch \<Rightarrow> locatorEntry list \<times> (ltype \<Rightarrow> nat) \<Rightarrow> locatorEntry list \<times> (ltype \<Rightarrow> nat)" where
  \<comment> \<open>pattern 5\<close>
  "findByCssBody mt = (\<lambda>(locs, conversionStats).
     (locs @ [\<lparr>entryName = tpl (grp mt 2), entryXpath = ''css='' @ tpl (grp mt 1),
                 playwright = ''page.locator('' @ sq # tpl (grp mt 1) @ sq # '')'',
                 entryType = Css, entryComment = None\<rparr>],
      conversionStats(Css := conversionStats Css + 1)))"

definition pageMethodBody :: "rmatch \<Rightarrow> (string \<times> string) list \<Rightarrow> (string \<times> string) list" where
  "pageMethodBody mt methods =
     (if tpl (grp mt 1) \<in> set [''toString'', ''equals'', ''hashCode'', ''getClass'', ''wait'',
                                ''notify'', ''openPage'', ''launchPage''] then methods
      else if js_test False getSetIsRx (tpl (grp mt 1)) \<and> tpl (grp mt 2) = [] then methods
      else methods @ [(tpl (grp mt 1), tpl (grp mt 2))])"

definition parseLocators ::
  "string \<Rightarrow> (ltype \<Rightarrow> nat) \<Rightarrow> (locatorEntry list \<times> (ltype \<Rightarrow> nat)) option" where
  \<comment> \<open>the six loops over the locator patterns, one after the other\<close>
  "parseLocators content conversionStats =
     Option.bind (exec_loop False qafXpathRegex content qafBody 0 ([], conversionStats)) (\<lambda>s1.
     Option.bind (exec_loop False qafXpathRegex2 content dedupBody 0 s1) (\<lambda>s2.
     Option.bind (exec_loop False simpleXpathRegex content dedupBody 0 s2) (\<lambda>s3.
     Option.bind (exec_loop False findByXPathRegex content findByXPathBody 0 s3) (\<lambda>s4.
     Option.bind (exec_loop False findByIdRegex content findByIdBody 0 s4) (\<lambda>s5.
     exec_loop False findByCssRegex content findByCssBody 0 s5)))))"

definition parseJavaPageClass ::
  "string \<Rightarrow> string \<Rightarrow> (ltype \<Rightarrow> nat) \<Rightarrow> (pageClass \<times> (ltype \<Rightarrow> nat)) option" where
  \<comment> \<open>the result and \<^verbatim>\<open>conversionStats\<close> after the call; \<open>None\<close> if a loop does not end\<close>
  "parseJavaPageClass content fileName conversionStats =
     Option.bind (parseLocators content conversionStats) (\<lambda>(locs, conversionStats').
     Option.bind (exec_loop False pageMethodRegex content pageMethodBody 0 []) (\<lambda>methods.
     Some (\<lparr>className = (case js_match False classRx content of
                             Some classMatch \<Rightarrow> tpl (grp classMatch 1) | None \<Rightarrow> []),
             pageLocators = locs, pageMethods = methods\<rparr>,
           conversionStats')))"

section \<open>Script 02: conversion of feature files\<close>

text \<open>\<^verbatim>\<open>convertFeatureContent\<close> (\<^verbatim>\<open>src/02-convert-features.js\<close>, lines 84--123).\<close>

definition keywordRx :: rx where
  \<comment> \<open>\<^verbatim>\<open>/^(\s*)(Given|When|Then)\s+(.*)$/\<close>\<close>
  \<open>keywordRx = cat [Bol, Grp 1 (Star ws), Grp 2 (alts [Chars ''Given'', Chars ''When'', Chars ''Then'']),
     Plus ws, Grp 3 (Star Dot), Eol]\<close>

definition andButRx :: rx where
  \<comment> \<open>\<^verbatim>\<open>/^(\s*)(And|But)\s+(.*)$/\<close>\<close>
  \<open>andButRx = cat [Bol, Grp 1 (Star ws), Grp 2 (alts [Chars ''And'', Chars ''But'']),
     Plus ws, Grp 3 (Star Dot), Eol]\<close>

definition resetRx :: rx where
  \<comment> \<open>\<^verbatim>\<open>/^\s*(Scenario|Background|Feature|Examples|Rule)/\<close>\<close>
  \<open>resetRx = cat [Bol, Star ws,
     Grp 1 (alts [Chars ''Scenario'', Chars ''Background'', Chars ''Feature'', Chars ''Examples'',
                  Chars ''Rule''])]\<close>

text \<open>
  The body of the \<^verbatim>\<open>for\<close> loop on the variables it changes: \<^verbatim>\<open>lastKeyword\<close>,
  \<^verbatim>\<open>convertedLines\<close> and \<^verbatim>\<open>conversions\<close>.  \<open>copyLine\<close> is the end of the body, reached by a
  line that is neither a step line nor a rewritten \<^verbatim>\<open>And\<close>/\<^verbatim>\<open>But\<close> line.
\<close>

definition copyLine :: "string \<Rightarrow> string \<times> string list \<times> nat \<Rightarrow> string \<times> string list \<times> nat" where
  "copyLine line = (\<lambda>(lastKeyword, convertedLines, conversions).
     ((if js_test False resetRx line then [] else lastKeyword), convertedLines @ [line], conversions))"

definition convertLine :: "string \<Rightarrow> string \<times> string list \<times> nat \<Rightarrow> string \<times> string list \<times> nat" where
  "convertLine line = (\<lambda>(lastKeyword, convertedLines, conversions).
     (case js_match False keywordRx line of
        Some keywordMatch \<Rightarrow> (tpl (grp keywordMatch 2), convertedLines @ [line], conversions)
      | None \<Rightarrow>
        (case js_match False andButRx line of
           Some andButMatch \<Rightarrow>
             if lastKeyword \<noteq> [] then
               (lastKeyword,
                convertedLines @ [tpl (grp andButMatch 1) @ lastKeyword @ '' '' @ tpl (grp andButMatch 3)],
                conversions + 1)
             else copyLine line (lastKeyword, convertedLines, conversions)
         | None \<Rightarrow> copyLine line (lastKeyword, convertedLines, conversions))))"

definition convertLines :: "string list \<Rightarrow> string \<times> string list \<times> nat" where
  \<comment> \<open>the state after the loop over \<open>lines\<close>\<close>
  "convertLines lines = fold convertLine lines ([], [], 0)"

definition convertFeatureContent :: "string \<Rightarrow> string \<times> nat" where
  \<comment> \<open>the pair of the fields \<^verbatim>\<open>content\<close> and \<^verbatim>\<open>conversions\<close> of the object returned\<close>
  "convertFeatureContent text =
     (case convertLines (splitOn nl text) of
        (lastKeyword, convertedLines, conversions) \<Rightarrow> (join [nl] convertedLines, conversions))"

text \<open>
  The two readings of ``a line that begins, after optional white space, with \<^verbatim>\<open>And\<close> or
  \<^verbatim>\<open>But\<close>'': followed by a space character, and followed by any white space character.
\<close>

definition beginsAndButSpace :: "string \<Rightarrow> bool" where
  "beginsAndButSpace line =
     (startsWith (dropWhile isSpace line) ''And '' \<or> startsWith (dropWhile isSpace line) ''But '')"

definition beginsAndButWs :: "string \<Rightarrow> bool" where
  "beginsAndButWs line =
     ((startsWith (dropWhile isSpace line) ''And'' \<or> startsWith (dropWhile isSpace line) ''But'') \<and>
      (case drop 3 (dropWhile isSpace line) of [] \<Rightarrow> False | w # rest \<Rightarrow> isSpace w))"

section \<open>Script 02: the run\<close>

text \<open>
  The top level of \<^verbatim>\<open>src/02-convert-features.js\<close> (lines 15--227) and \<^verbatim>\<open>processDirectory\<close>
  (lines 126--186).  The configuration file, the source tree and the behaviour of the
  target file system are the environment of the run.  \<^verbatim>\<open>JSON.parse\<close>, \<^verbatim>\<open>path.join\<close> and the
  functions of \<^verbatim>\<open>fs\<close> are library functions and parameters of the model.  Console output is
  not modelled but for the message that goes with \<^verbatim>\<open>process.exit(1)\<close>.
\<close>

datatype mapped =
    Falsy \<comment> \<open>no entry, or a value that counts as false\<close>
  | Text string \<comment> \<open>a string that is not empty\<close>
  | Truthy \<comment> \<open>any other value that counts as true: it is not a string\<close>

record config =
  sourceRoot :: string \<comment> \<open>\<^verbatim>\<open>config.source.rootDir\<close>\<close>
  targetRoot :: string \<comment> \<open>\<^verbatim>\<open>config.target.rootDir\<close>\<close>
  sourceFeaturesPath :: "string option" \<comment> \<open>\<^verbatim>\<open>config.source.features?.path\<close>\<close>
  targetFeaturesPath :: "string option" \<comment> \<open>\<^verbatim>\<open>config.target.features\<close>\<close>
  folderMapping :: "string \<Rightarrow> mapped" \<comment> \<open>\<^verbatim>\<open>(config.options?.features?.folderMapping || {})[name]\<close>\<close>

datatype configFile =
    NoFile \<comment> \<open>\<^verbatim>\<open>fs.existsSync(configPath)\<close> is false\<close>
  | Unparsable string \<comment> \<open>reading or \<^verbatim>\<open>JSON.parse\<close> throws, with this message\<close>
  | Malformed string \<comment> \<open>parsed, but building the paths (lines 38--45) throws, with this message\<close>
  | Parsed config

datatype node =
    FileNode "string + string" \<comment> \<open>a file: \<^verbatim>\<open>readFileSync\<close> throws with a message, or gives the content\<close>
  | DirNode "(string \<times> node) list" \<comment> \<open>a directory: the names in the order of \<^verbatim>\<open>readdirSync\<close>\<close>
  | UnreadableDir string \<comment> \<open>a directory for which \<^verbatim>\<open>readdirSync\<close> throws\<close>
  | BrokenNode string \<comment> \<open>an entry for which \<^verbatim>\<open>statSync\<close> throws, such as a dangling link\<close>

record env =
  configPath :: string
  configFile :: configFile
  sourceTree :: "node option" \<comment> \<open>what is at \<^verbatim>\<open>sourceDir\<close>; \<open>None\<close> when nothing exists there\<close>
  pjoin :: "string \<Rightarrow> string \<Rightarrow> string" \<comment> \<open>\<^verbatim>\<open>path.join\<close> of two strings\<close>
  fsExists :: "string list \<Rightarrow> string \<Rightarrow> bool"
    \<comment> \<open>\<^verbatim>\<open>fs.existsSync\<close> in the target, after the directories listed have been made\<close>
  mkdirError :: "string \<Rightarrow> string option" \<comment> \<open>the message when \<^verbatim>\<open>mkdirSync\<close> throws\<close>
  writeError :: "string \<Rightarrow> string option" \<comment> \<open>the message when \<^verbatim>\<open>writeFileSync\<close> throws\<close>

record runState =
  totalFiles :: nat
  totalConversions :: nat
  convertedFiles :: "(string \<times> string \<times> nat) list" \<comment> \<open>source, target, conversions\<close>
  errors :: "(string \<times> string) list" \<comment> \<open>file, error\<close>
  madeDirs :: "string list" \<comment> \<open>the directories made by \<^verbatim>\<open>mkdirSync\<close>\<close>
  written :: "(string \<times> string) list" \<comment> \<open>the feature files written: path and content\<close>

definition initialState :: runState where
  "initialState = \<lparr>totalFiles = 0, totalConversions = 0, convertedFiles = [], errors = [],
     madeDirs = [], written = []\<rparr>"

definition endsWith :: "string \<Rightarrow> string \<Rightarrow> bool" where
  "endsWith s suffix = startsWith (rev s) (rev suffix)"

definition kebabCase :: "string \<Rightarrow> string" where
  \<comment> \<open>the chain of \<^verbatim>\<open>replace\<close> calls of \<^verbatim>\<open>convertFolderName\<close>\<close>
  \<open>kebabCase name0 =
     (let lower = In [Rng CHR ''a'' CHR ''z''];
          upper = In [Rng CHR ''A'' CHR ''Z''];
          s1 = js_replace_all False (Seq (Grp 1 (One lower)) (Grp 2 (One upper))) name0 ''$1-$2'';
          s2 = js_replace_all False
                 (Seq (Grp 1 (Plus upper)) (Grp 2 (Seq (One upper) (One lower)))) s1 ''$1-$2'';
          s3 = js_replace_all False (Plus ws) s2 ''-'';
          s4 = js_replace_all False (Plus (In [C CHR ''.''])) s3 ''-'';
          s5 = js_replace_all False (Plus (In [C CHR ''_''])) s4 ''-'';
          s6 = js_replace_all False (Seq (Chars ''-'') (Plus (In [C CHR ''-'']))) s5 ''-'';
          s7 = js_replace_all False (Alt (Seq Bol (Chars ''-'')) (Seq (Chars ''-'') Eol)) s6 []
      in toLowerCase s7)\<close>

definition convertFolderName :: "(string \<Rightarrow> mapped) \<Rightarrow> string \<Rightarrow> string option" where
  \<comment> \<open>\<open>None\<close> is a mapped value that is not a string\<close>
  "convertFolderName mapping name0 =
     (case mapping name0 of
        Text t \<Rightarrow> Some t
      | Truthy \<Rightarrow> None
      | Falsy \<Rightarrow> Some (kebabCase name0))"

text \<open>
  A step of the run returns \<open>Inr\<close> of the state after it, or \<open>Inl\<close> of the message of an
  exception that nothing catches, with the state reached.
\<close>

definition ensureDir :: "env \<Rightarrow> string \<Rightarrow> runState \<Rightarrow> string + runState" where
  \<comment> \<open>\<^verbatim>\<open>if (!fs.existsSync(p)) fs.mkdirSync(p, { recursive: true })\<close>\<close>
  "ensureDir e p st =
     (if fsExists e (madeDirs st) p then Inr st
      else (case mkdirError e p of
              Some msg \<Rightarrow> Inl msg
            | None \<Rightarrow> Inr (st\<lparr>madeDirs := madeDirs st @ [p]\<rparr>)))"

definition convertFile :: "env \<Rightarrow> string \<Rightarrow> string \<Rightarrow> string \<Rightarrow> string + string \<Rightarrow> runState \<Rightarrow> runState" where
  \<comment> \<open>the \<^verbatim>\<open>try\<close> block for a feature file, with its \<^verbatim>\<open>catch\<close>\<close>
  "convertFile e srcItemPath tgtPath item file st =
     (case file of
        Inl msg \<Rightarrow> st\<lparr>errors := errors st @ [(srcItemPath, msg)]\<rparr>
      | Inr content \<Rightarrow>
          (case ensureDir e tgtPath st of
             Inl msg \<Rightarrow> st\<lparr>errors := errors st @ [(srcItemPath, msg)]\<rparr>
           | Inr st1 \<Rightarrow>
               (case writeError e (pjoin e tgtPath item) of
                  Some msg \<Rightarrow> st1\<lparr>errors := errors st1 @ [(srcItemPath, msg)]\<rparr>
                | None \<Rightarrow>
                    st1\<lparr>written := written st1
                           @ [(pjoin e tgtPath item, fst (convertFeatureContent content))],
                        totalFiles := totalFiles st1 + 1,
                        totalConversions := totalConversions st1 + snd (convertFeatureContent content),
                        convertedFiles := convertedFiles st1
                           @ [(srcItemPath, pjoin e tgtPath item,
                               snd (convertFeatureContent content))]\<rparr>)))"

text \<open>
  \<^verbatim>\<open>processDirectory\<close>, with \<open>processItems\<close> for the callback of \<^verbatim>\<open>items.forEach\<close> over the rest
  of the entries.  The global \<^verbatim>\<open>folderMapping\<close> is the parameter \<open>mapping\<close>.
\<close>

fun processDirectory ::
    "env \<Rightarrow> (string \<Rightarrow> mapped) \<Rightarrow> string \<Rightarrow> string \<Rightarrow> node \<Rightarrow> runState
       \<Rightarrow> (string \<times> runState) + runState"
  and processItems ::
    "env \<Rightarrow> (string \<Rightarrow> mapped) \<Rightarrow> string \<Rightarrow> string \<Rightarrow> (string \<times> node) list \<Rightarrow> runState
       \<Rightarrow> (string \<times> runState) + runState"
where
  "processDirectory e mapping srcPath tgtPath (DirNode items) st = processItems e mapping srcPath tgtPath items st"
| "processDirectory e mapping srcPath tgtPath (UnreadableDir msg) st = Inl (msg, st)"
| "processDirectory e mapping srcPath tgtPath (FileNode file) st =
     Inl (''ENOTDIR: not a directory, scandir '' @ srcPath, st)"
| "processDirectory e mapping srcPath tgtPath (BrokenNode msg) st = Inr st"
| "processItems e mapping srcPath tgtPath [] st = Inr st"
| "processItems e mapping srcPath tgtPath ((item, BrokenNode msg) # rest) st = Inl (msg, st)"
| "processItems e mapping srcPath tgtPath ((item, FileNode file) # rest) st =
     (if endsWith item ''.feature''
      then processItems e mapping srcPath tgtPath rest
             (convertFile e (pjoin e srcPath item) tgtPath item file st)
      else processItems e mapping srcPath tgtPath rest st)"
| "processItems e mapping srcPath tgtPath ((item, DirNode items) # rest) st =
     (case convertFolderName mapping item of
        None \<Rightarrow> Inl (''The '' @ [dq] @ ''path'' @ [dq] @ '' argument must be of type string'', st)
      | Some convertedName \<Rightarrow>
          (case ensureDir e (pjoin e tgtPath convertedName) st of
             Inl msg \<Rightarrow> Inl (msg, st)
           | Inr st1 \<Rightarrow>
               (case processDirectory e mapping (pjoin e srcPath item) (pjoin e tgtPath convertedName)
                       (DirNode items) st1 of
                  Inl a \<Rightarrow> Inl a
                | Inr st2 \<Rightarrow> processItems e mapping srcPath tgtPath rest st2)))"
| "processItems e mapping srcPath tgtPath ((item, UnreadableDir msg0) # rest) st =
     (case convertFolderName mapping item of
        None \<Rightarrow> Inl (''The '' @ [dq] @ ''path'' @ [dq] @ '' argument must be of type string'', st)
      | Some convertedName \<Rightarrow>
          (case ensureDir e (pjoin e tgtPath convertedName) st of
             Inl msg \<Rightarrow> Inl (msg, st)
           | Inr st1 \<Rightarrow>
               (case processDirectory e mapping (pjoin e srcPath item) (pjoin e tgtPath convertedName)
                       (UnreadableDir msg0) st1 of
                  Inl a \<Rightarrow> Inl a
                | Inr st2 \<Rightarrow> processItems e mapping srcPath tgtPath rest st2)))"

datatype ending =
    Exit nat string \<comment> \<open>\<^verbatim>\<open>process.exit\<close> with this code, after this message\<close>
  | Uncaught string \<comment> \<open>an exception that nothing catches\<close>
  | Completed string \<comment> \<open>the end of the script; the report was written to this path\<close>

definition writeReport :: "env \<Rightarrow> config \<Rightarrow> runState \<Rightarrow> ending \<times> runState" where
  \<comment> \<open>lines 211--217; the text of the report is not modelled, and the directory of the report
      is taken to be the \<^verbatim>\<open>path.join\<close> of the target root and \<^verbatim>\<open>reports\<close>\<close>
  "writeReport e c st =
     (let reportPath = pjoin e (pjoin e (targetRoot c) ''reports'') ''feature-conversion-report.json''
      in case ensureDir e (pjoin e (targetRoot c) ''reports'') st of
           Inl msg \<Rightarrow> (Uncaught msg, st)
         | Inr st1 \<Rightarrow>
             (case writeError e reportPath of
                Some msg \<Rightarrow> (Uncaught msg, st1)
              | None \<Rightarrow> (Completed reportPath, st1)))"

definition sourceExists :: "env \<Rightarrow> bool" where
  \<comment> \<open>\<^verbatim>\<open>fs.existsSync(sourceDir)\<close>\<close>
  "sourceExists e = (case sourceTree e of None \<Rightarrow> False | Some (BrokenNode msg) \<Rightarrow> False
     | Some nd \<Rightarrow> True)"

definition run :: "env \<Rightarrow> ending \<times> runState" where
  \<comment> \<open>the script; the state is that of the target and of the counters at its end\<close>
  "run e =
     (case configFile e of
        NoFile \<Rightarrow> (Exit 1 (''[ERROR] Configuration file not found: '' @ configPath e), initialState)
      | Unparsable msg \<Rightarrow>
          (Exit 1 (''[ERROR] Failed to parse configuration: '' @ msg), initialState)
      | Malformed msg \<Rightarrow> (Uncaught msg, initialState)
      | Parsed c \<Rightarrow>
          (let sourceDir = pjoin e (sourceRoot c)
                 (case sourceFeaturesPath c of None \<Rightarrow> ''features''
                  | Some p \<Rightarrow> if p = [] then ''features'' else p);
               targetDir = pjoin e (targetRoot c)
                 (case targetFeaturesPath c of None \<Rightarrow> ''features''
                  | Some p \<Rightarrow> if p = [] then ''features'' else p)
           in if \<not> sourceExists e
              then (Exit 1 (''[ERROR] Source features directory not found: '' @ sourceDir),
                    initialState)
              else (case processDirectory e (folderMapping c) sourceDir targetDir (the (sourceTree e)) initialState of
                      Inl (msg, st) \<Rightarrow> (Uncaught msg, st)
                    | Inr st \<Rightarrow> writeReport e c st)))"

text \<open>
  The feature files of a tree, and the trees in which every entry can be inspected and
  every directory can be listed.
\<close>

fun featureFiles :: "node \<Rightarrow> nat" and featureFilesIn :: "(string \<times> node) list \<Rightarrow> nat" where
  "featureFiles (DirNode items) = featureFilesIn items"
| "featureFiles nd = 0"
| "featureFilesIn [] = 0"
| "featureFilesIn ((item, FileNode file) # rest) =
     (if endsWith item ''.feature'' then 1 else 0) + featureFilesIn rest"
| "featureFilesIn ((item, nd) # rest) = featureFiles nd + featureFilesIn rest"

fun listable :: "node \<Rightarrow> bool" and listableIn :: "(string \<times> node) list \<Rightarrow> bool" where
  "listable (DirNode items) = listableIn items"
| "listable (FileNode file) = True"
| "listable nd = False"
| "listableIn [] = True"
| "listableIn ((item, nd) # rest) = (listable nd \<and> listableIn rest)"

section \<open>What a match is\<close>

text \<open>
  \<open>rx_sem ci n r s s' c c'\<close>: the pattern \<open>r\<close> can take the rest \<open>s\<close> of an input of length
  \<open>n\<close> to the rest \<open>s'\<close>, extending the captures \<open>c\<close> to \<open>c'\<close>.  This is the specification the
  matcher \<open>m\<close> is sound for; it is used in proofs only.
\<close>

fun rx_sem :: "bool \<Rightarrow> nat \<Rightarrow> rx \<Rightarrow> string \<Rightarrow> string \<Rightarrow> captures \<Rightarrow> captures \<Rightarrow> bool" where
  "rx_sem ci n (Chars l) s s' c c' =
     (\<exists>u. s = u @ s' \<and> map (canon ci) u = map (canon ci) l \<and> c' = c)"
| "rx_sem ci n (One cl) s s' c c' = (\<exists>x. s = x # s' \<and> in_cls ci cl x \<and> c' = c)"
| "rx_sem ci n (Star cl) s s' c c' = (\<exists>u. s = u @ s' \<and> (\<forall>x \<in> set u. in_cls ci cl x) \<and> c' = c)"
| "rx_sem ci n (Plus cl) s s' c c' =
     (\<exists>u. s = u @ s' \<and> u \<noteq> [] \<and> (\<forall>x \<in> set u. in_cls ci cl x) \<and> c' = c)"
| "rx_sem ci n (LazyStar cl) s s' c c' =
     (\<exists>u. s = u @ s' \<and> (\<forall>x \<in> set u. in_cls ci cl x) \<and> c' = c)"
| "rx_sem ci n (LazyPlus cl) s s' c c' =
     (\<exists>u. s = u @ s' \<and> u \<noteq> [] \<and> (\<forall>x \<in> set u. in_cls ci cl x) \<and> c' = c)"
| "rx_sem ci n (Opt r) s s' c c' = (rx_sem ci n r s s' c c' \<or> (s' = s \<and> c' = c))"
| "rx_sem ci n (Alt r1 r2) s s' c c' = (rx_sem ci n r1 s s' c c' \<or> rx_sem ci n r2 s s' c c')"
| "rx_sem ci n (Seq r1 r2) s s' c c' =
     (\<exists>s1 c1. rx_sem ci n r1 s s1 c c1 \<and> rx_sem ci n r2 s1 s' c1 c')"
| "rx_sem ci n (Grp g r) s s' c c' =
     (\<exists>c1. rx_sem ci n r s s' c c1 \<and> c' = (g, take (length s - length s') s) # c1)"
| "rx_sem ci n Bol s s' c c' = (s' = s \<and> length s = n \<and> c' = c)"
| "rx_sem ci n Eol s s' c c' = (s' = s \<and> s = [] \<and> c' = c)"

section \<open>Properties\<close>

subsection \<open>Evaluation\<close>

text \<open>The equations that evaluate the model on a concrete input.\<close>

lemmas char_eval = isSpace_def isLineTerminator_def isDigit_def isUpperAscii_def isLowerAscii_def
  isWord_def canon_def toUpperChar_def toLowerChar_def toLowerCase_def char_of_def bit_0
  digitVal_def digitChar_def

lemmas rx_eval = cat_def alts_def js_match_def js_test_def regex_exec_def grp_def js_replace_def
  js_replace_all_def captureText_def

lemmas str_eval = tpl_def trim_def substring0_def splitOn_def splitWs_def js_substring_def
  truthy_def js_or_def paramName_def Let_def

lemmas xpath_rx_r1 = idMatch_r1_def buttonTextMatch_r1_def buttonContainsMatch_r1_def
  linkTextMatch_r1_def placeholderMatch_r1_def labelSiblingMatch_r1_def testIdMatch_r1_def
  classMatch_r1_def classContainsMatch_r1_def selectMatch_r1_def tableMatch_r1_def

lemmas xpath_rx = buttonTextExact_def buttonTextContains_def linkTextExact_def
  linkTextContains_def inputById_def inputByPlaceholder_def anyById_def byTestId_def
  byClassExact_def byClassContains_def anyTextExact_def anyTextContains_def elementTextExact_def
  elementTextContains_def selectMatch_def thAriaColIndex_def tableCellMatch_def

subsection \<open>Strings\<close>

lemma startsWith_iff: "startsWith s p \<longleftrightarrow> (\<exists>r. s = p @ r)"
  by (induction s p rule: startsWith.induct) auto

lemma str_includes_iff: "str_includes s t \<longleftrightarrow> (\<exists>a b. s = a @ t @ b)"
proof (induction s)
  case Nil
  then show ?case by auto
next
  case (Cons x xs)
  show ?case
  proof
    assume "str_includes (x # xs) t"
    then consider "startsWith (x # xs) t" | "str_includes xs t" by auto
    then show "\<exists>a b. x # xs = a @ t @ b"
    proof cases
      case 1
      then obtain r where "x # xs = t @ r" by (auto simp: startsWith_iff)
      then have "x # xs = [] @ t @ r" by simp
      then show ?thesis by blast
    next
      case 2
      with Cons obtain a b where "xs = a @ t @ b" by auto
      then have "x # xs = (x # a) @ t @ b" by simp
      then show ?thesis by blast
    qed
  next
    assume "\<exists>a b. x # xs = a @ t @ b"
    then obtain a b where ab: "x # xs = a @ t @ b" by auto
    show "str_includes (x # xs) t"
    proof (cases a)
      case Nil
      with ab have "startsWith (x # xs) t" by (auto simp: startsWith_iff)
      then show ?thesis by simp
    next
      case (Cons y ys)
      with ab have "xs = ys @ t @ b" by simp
      with Cons.IH have "str_includes xs t" by blast
      then show ?thesis by simp
    qed
  qed
qed

lemma matchesFrom_char_none:
  "\<forall>c \<in> set s. c \<noteq> d \<Longrightarrow> matchesFrom False n (Chars [d]) i 0 s = []"
  by (induction s arbitrary: i) (auto simp: canon_def)

lemma replace_char_absent: "d \<notin> set s \<Longrightarrow> js_replace_all False (Chars [d]) s t = s"
proof -
  assume "d \<notin> set s"
  then have "\<forall>c \<in> set s. c \<noteq> d" by auto
  then have "matchesFrom False (length s) (Chars [d]) 0 0 s = []"
    by (rule matchesFrom_char_none)
  then show ?thesis by (simp add: js_replace_all_def)
qed

lemma escapeXpath_plain: "btick \<notin> set x \<Longrightarrow> CHR ''$'' \<notin> set x \<Longrightarrow> escapeXpath x = x"
  by (simp add: escapeXpath_def replace_char_absent)

subsection \<open>The brace-depth scan\<close>

lemma braceLoop_steps:
  "T_braceLoop content b e \<le> length content - e \<and>
   snd (braceLoop content b e) = e + T_braceLoop content b e \<and>
   (fst (braceLoop content b e) \<le> 0 \<or> length content \<le> snd (braceLoop content b e))"
proof (induction content b e rule: braceLoop.induct)
  case (1 content braceCount endIndex)
  show ?case
  proof (cases "braceCount > 0 \<and> endIndex < length content")
    case True
    with "1" show ?thesis
      by (subst T_braceLoop.simps, subst (1 2 3) braceLoop.simps, subst (2) T_braceLoop.simps) auto
  next
    case False
    then show ?thesis
      by (subst T_braceLoop.simps, subst (1 2 3) braceLoop.simps, subst (2) T_braceLoop.simps) auto
  qed
qed

lemma braceLoop_nonneg: "0 \<le> b \<Longrightarrow> 0 \<le> fst (braceLoop content b e)"
proof (induction content b e rule: braceLoop.induct)
  case (1 content braceCount endIndex)
  show ?case
  proof (cases "braceCount > 0 \<and> endIndex < length content")
    case True
    then have "0 \<le> braceStep (content ! endIndex) braceCount"
      by (simp add: braceStep_def Let_def)
    with "1" True show ?thesis by (subst braceLoop.simps) simp
  next
    case False
    with "1.prems" show ?thesis by (subst braceLoop.simps) auto
  qed
qed

text \<open>
  Claim C4.  For every text \<open>content\<close> and every start position, balanced braces or not,
  the scan of a method body ends: \<open>braceLoop\<close> is a total function (its termination is
  proved with the measure \<open>length content - endIndex\<close>), it makes at most
  \<open>length content - startIndex\<close> iterations, so at most \<open>length content\<close>, \<^verbatim>\<open>endIndex\<close> has
  advanced by one per iteration, and at the end the depth is zero or the end of the text
  is reached.
\<close>

theorem C4_brace_scan_bounded:
  "T_braceLoop content 1 startIndex \<le> length content - startIndex \<and>
   T_braceLoop content 1 startIndex \<le> length content \<and>
   findBodyEnd content startIndex = startIndex + T_braceLoop content 1 startIndex \<and>
   (fst (braceLoop content 1 startIndex) = 0 \<or> length content \<le> findBodyEnd content startIndex)"
proof -
  have a: "0 \<le> fst (braceLoop content 1 startIndex)" by (rule braceLoop_nonneg) simp
  from braceLoop_steps [of content 1 startIndex] a show ?thesis
    unfolding findBodyEnd_def by auto
qed

subsection \<open>The rule matchers\<close>

lemma convert_applyRules:
  "convertXPathToPlaywright x f =
     (case applyRules xpathRules (cleanXpath x)
             \<lparr>locator = [], type = Xpath, originalXpath = cleanXpath x, comment = None\<rparr> of
        Some r \<Rightarrow> r | None \<Rightarrow> xpathFallback (cleanXpath x))"
  unfolding convertXPathToPlaywright_def xpathRules_def xpathFallback_def Let_def
  by (simp split: option.split)

lemma applyRules_first:
  "i < length rls \<Longrightarrow> js_match False (fst (rls ! i)) x = Some mt \<Longrightarrow>
   \<forall>j<i. js_match False (fst (rls ! j)) x = None \<Longrightarrow>
   applyRules rls x res = Some (snd (rls ! i) mt res)"
proof (induction rls arbitrary: i)
  case Nil
  then show ?case by simp
next
  case (Cons r rs)
  show ?case
  proof (cases i)
    case 0
    with Cons.prems show ?thesis by simp
  next
    case (Suc i')
    from Cons.prems(3) Suc have r: "js_match False (fst r) x = None" by auto
    have "applyRules rs x res = Some (snd (rs ! i') mt res)"
    proof (rule Cons.IH [of i'])
      show "i' < length rs" using Cons.prems(1) Suc by simp
      show "js_match False (fst (rs ! i')) x = Some mt" using Cons.prems(2) Suc by simp
      show "\<forall>j<i'. js_match False (fst (rs ! j)) x = None"
      proof (intro allI impI)
        fix j assume "j < i'"
        then have "Suc j < i" using Suc by simp
        with Cons.prems(3) have "js_match False (fst ((r # rs) ! Suc j)) x = None" by blast
        then show "js_match False (fst (rs ! j)) x = None" by simp
      qed
    qed
    with r Suc show ?thesis by simp
  qed
qed

lemma applyRules_none:
  "(\<forall>rl \<in> set rls. js_match False (fst rl) x = None) \<Longrightarrow> applyRules rls x res = None"
  by (induction rls) auto

lemma convert_r1_fallback:
  "(\<forall>p \<in> set xpathPatterns_r1. js_match False p (cleanXpath_r1 x) = None) \<Longrightarrow>
   convertXPathToPlaywright_r1 x f =
     \<lparr>conversion_r1.locator =
        ''page.locator('/* TODO: Convert XPath: '' @ take 50 (cleanXpath_r1 x) @ ''... */'' @ sq # '')'',
      needsReview = True, conversion_r1.originalXpath = x\<rparr>"
  unfolding convertXPathToPlaywright_r1_def xpathPatterns_r1_def Let_def substring0_def
  by simp

lemma matchStepPattern_loop_first:
  "i < length rules \<Longrightarrow> js_match True (pattern (rules ! i)) d = Some mt \<Longrightarrow>
   \<forall>j<i. js_match True (pattern (rules ! j)) d = None \<Longrightarrow>
   implement (rules ! i) mt ps = Inr out \<Longrightarrow>
   matchStepPattern_loop rules d ps = Some out"
proof (induction rules arbitrary: i)
  case Nil
  then show ?case by simp
next
  case (Cons r rs)
  show ?case
  proof (cases i)
    case 0
    with Cons.prems show ?thesis by simp
  next
    case (Suc i')
    from Cons.prems(3) Suc have r: "js_match True (pattern r) d = None" by auto
    have "matchStepPattern_loop rs d ps = Some out"
    proof (rule Cons.IH [of i'])
      show "i' < length rs" using Cons.prems(1) Suc by simp
      show "js_match True (pattern (rs ! i')) d = Some mt" using Cons.prems(2) Suc by simp
      show "\<forall>j<i'. js_match True (pattern (rs ! j)) d = None"
      proof (intro allI impI)
        fix j assume "j < i'"
        then have "Suc j < i" using Suc by simp
        with Cons.prems(3) have "js_match True (pattern ((r # rs) ! Suc j)) d = None" by blast
        then show "js_match True (pattern (rs ! j)) d = None" by simp
      qed
      show "implement (rs ! i') mt ps = Inr out" using Cons.prems(4) Suc by simp
    qed
    with r show ?thesis by simp
  qed
qed

lemma matchStepPattern_loop_skip:
  "js_match True (pattern r) d = Some mt \<Longrightarrow> implement r mt ps = Inl e \<Longrightarrow>
   matchStepPattern_loop (pre @ r # post) d ps = matchStepPattern_loop (pre @ post) d ps"
  by (induction pre) (auto split: option.splits sum.splits)

lemma matchStepPattern_loop_none:
  "(\<forall>r \<in> set rules. \<forall>mt. js_match True (pattern r) d = Some mt \<longrightarrow>
      (\<exists>e. implement r mt ps = Inl e)) \<Longrightarrow>
   matchStepPattern_loop rules d ps = None"
  by (induction rules) (auto split: option.splits sum.splits)

text \<open>
  Claim C1.  Rule matching is first-match-wins in declaration order.  For
  \<^verbatim>\<open>matchStepPattern\<close>, over any ordered rule list: when rule \<open>i\<close> accepts the description, no
  earlier rule accepts it, and the generator of rule \<open>i\<close> returns \<open>out\<close>, the result is
  \<open>out\<close>, whatever the later rules would accept.  For \<^verbatim>\<open>convertXPathToPlaywright\<close>: when
  pattern \<open>k\<close> of the cascade accepts the cleaned expression and no earlier pattern does,
  the result is what the generator of pattern \<open>k\<close> makes of the initial result.
\<close>

theorem C1_first_match_wins:
  "(i < length rules \<and> js_match True (pattern (rules ! i)) d = Some mt \<and>
    (\<forall>j<i. js_match True (pattern (rules ! j)) d = None) \<and>
    implement (rules ! i) mt ps = Inr out
      \<longrightarrow> matchStepPattern_loop rules d ps = Some out) \<and>
   (k < length xpathRules \<and> js_match False (fst (xpathRules ! k)) (cleanXpath x) = Some xm \<and>
    (\<forall>j<k. js_match False (fst (xpathRules ! j)) (cleanXpath x) = None)
      \<longrightarrow> convertXPathToPlaywright x f =
            snd (xpathRules ! k) xm
              \<lparr>locator = [], type = Xpath, originalXpath = cleanXpath x, comment = None\<rparr>)"
proof (intro conjI impI)
  assume "i < length rules \<and> js_match True (pattern (rules ! i)) d = Some mt \<and>
    (\<forall>j<i. js_match True (pattern (rules ! j)) d = None) \<and>
    implement (rules ! i) mt ps = Inr out"
  then show "matchStepPattern_loop rules d ps = Some out"
    using matchStepPattern_loop_first [of i rules d mt ps out] by blast
next
  assume "k < length xpathRules \<and> js_match False (fst (xpathRules ! k)) (cleanXpath x) = Some xm \<and>
    (\<forall>j<k. js_match False (fst (xpathRules ! j)) (cleanXpath x) = None)"
  then have "applyRules xpathRules (cleanXpath x)
               \<lparr>locator = [], type = Xpath, originalXpath = cleanXpath x, comment = None\<rparr>
             = Some (snd (xpathRules ! k) xm
               \<lparr>locator = [], type = Xpath, originalXpath = cleanXpath x, comment = None\<rparr>)"
    using applyRules_first [of k xpathRules "cleanXpath x" xm] by blast
  then show "convertXPathToPlaywright x f =
            snd (xpathRules ! k) xm
              \<lparr>locator = [], type = Xpath, originalXpath = cleanXpath x, comment = None\<rparr>"
    by (simp add: convert_applyRules)
qed

text \<open>
  Witness of C1: the description \<^verbatim>\<open>user clicks on the button Save\<close> is accepted by the third
  rule of \<^verbatim>\<open>stepPatterns\<close> (any click) and by the fourth (click on a button); the result is
  the third rule's.  The expression \<^verbatim>\<open>//input[@id='q']\<close> is accepted by \<^verbatim>\<open>inputById\<close> (index 4)
  and by \<^verbatim>\<open>anyById\<close> (index 6); the result is the former's.
\<close>

lemma stepPatterns_2_accepts:
  "js_match True (pattern (stepPatterns ! 2)) ''user clicks on the button Save''
     = Some \<lparr>index = 0, whole = ''user clicks on the button Save'', groups = [(1, ''button Save'')]\<rparr>"
  by (simp add: stepPatterns_def rx_eval char_eval split del: if_split)

lemma stepPatterns_3_accepts:
  "js_match True (pattern (stepPatterns ! 3)) ''user clicks on the button Save''
     = Some \<lparr>index = 0, whole = ''user clicks on the button Save'', groups = [(1, ''Save'')]\<rparr>"
  by (simp add: stepPatterns_def rx_eval char_eval split del: if_split)

lemma stepPatterns_01_reject:
  "js_match True (pattern (stepPatterns ! 0)) ''user clicks on the button Save'' = None"
  "js_match True (pattern (stepPatterns ! 1)) ''user clicks on the button Save'' = None"
  by (simp_all add: stepPatterns_def rx_eval char_eval split del: if_split)

lemma stepPatterns_2_output:
  "implement (stepPatterns ! 2)
     \<lparr>index = 0, whole = ''user clicks on the button Save'', groups = [(1, ''button Save'')]\<rparr> []
   = Inr ''await page.getByRole('button', { name: /Save/i }).click();''"
  by (simp add: stepPatterns_def rx_eval char_eval str_eval split del: if_split)

lemma xpathRules_4_accepts:
  "js_match False (fst (xpathRules ! 4)) (cleanXpath ''//input[@id='q']'')
     = Some \<lparr>index = 0, whole = ''//input[@id='q']'', groups = [(1, ''q'')]\<rparr>"
  by (simp add: xpathRules_def cleanXpath_def xpath_rx rx_eval char_eval str_eval split del: if_split)

lemma xpathRules_6_accepts:
  "js_match False (fst (xpathRules ! 6)) (cleanXpath ''//input[@id='q']'')
     = Some \<lparr>index = 0, whole = ''//input[@id='q']'', groups = [(2, ''q''), (1, ''input'')]\<rparr>"
  by (simp add: xpathRules_def cleanXpath_def xpath_rx rx_eval char_eval str_eval split del: if_split)

lemma xpathRules_0123_reject:
  "js_match False (fst (xpathRules ! 0)) (cleanXpath ''//input[@id='q']'') = None"
  "js_match False (fst (xpathRules ! 1)) (cleanXpath ''//input[@id='q']'') = None"
  "js_match False (fst (xpathRules ! 2)) (cleanXpath ''//input[@id='q']'') = None"
  "js_match False (fst (xpathRules ! 3)) (cleanXpath ''//input[@id='q']'') = None"
  by (simp_all add: xpathRules_def cleanXpath_def xpath_rx rx_eval char_eval str_eval split del: if_split)

lemma all_less_2: "(\<forall>j<2::nat. P j) \<longleftrightarrow> P 0 \<and> P 1"
  by (auto simp: less_Suc_eq numeral_2_eq_2)

lemma all_less_4: "(\<forall>j<4::nat. P j) \<longleftrightarrow> P 0 \<and> P 1 \<and> P 2 \<and> P 3"
  by (auto simp: less_Suc_eq numeral_eq_Suc)

theorem C1_first_match_wins_witness:
  "js_match True (pattern (stepPatterns ! 2)) ''user clicks on the button Save'' \<noteq> None \<and>
   js_match True (pattern (stepPatterns ! 3)) ''user clicks on the button Save'' \<noteq> None \<and>
   matchStepPattern_loop stepPatterns ''user clicks on the button Save'' []
     = Some ''await page.getByRole('button', { name: /Save/i }).click();'' \<and>
   js_match False (fst (xpathRules ! 4)) (cleanXpath ''//input[@id='q']'') \<noteq> None \<and>
   js_match False (fst (xpathRules ! 6)) (cleanXpath ''//input[@id='q']'') \<noteq> None \<and>
   convertXPathToPlaywright ''//input[@id='q']'' [] =
     \<lparr>locator = ''page.locator('#q')'', type = Css, originalXpath = ''//input[@id='q']'',
      comment = None\<rparr>"
proof -
  have len: "(2::nat) < length stepPatterns" "(4::nat) < length xpathRules"
    by (simp_all add: stepPatterns_def xpathRules_def)
  have cl: "cleanXpath ''//input[@id='q']'' = ''//input[@id='q']''"
    by (simp add: cleanXpath_def rx_eval char_eval str_eval split del: if_split)
  have gen: "snd (xpathRules ! 4) \<lparr>index = 0, whole = ''//input[@id='q']'', groups = [(1, ''q'')]\<rparr>
        \<lparr>locator = [], type = Xpath, originalXpath = ''//input[@id='q']'', comment = None\<rparr>
      = \<lparr>locator = ''page.locator('#q')'', type = Css, originalXpath = ''//input[@id='q']'',
         comment = None\<rparr>"
    by (simp add: xpathRules_def grp_def tpl_def)
  note c1 = C1_first_match_wins [of 2 stepPatterns "''user clicks on the button Save''"
      "\<lparr>index = 0, whole = ''user clicks on the button Save'', groups = [(1, ''button Save'')]\<rparr>"
      "[]" "''await page.getByRole('button', { name: /Save/i }).click();''"
      4 "''//input[@id='q']''"
      "\<lparr>index = 0, whole = ''//input[@id='q']'', groups = [(1, ''q'')]\<rparr>" "[]"]
  have h1: "2 < length stepPatterns \<and>
      js_match True (pattern (stepPatterns ! 2)) ''user clicks on the button Save''
        = Some \<lparr>index = 0, whole = ''user clicks on the button Save'',
                 groups = [(1, ''button Save'')]\<rparr> \<and>
      (\<forall>j<2. js_match True (pattern (stepPatterns ! j)) ''user clicks on the button Save'' = None) \<and>
      implement (stepPatterns ! 2)
        \<lparr>index = 0, whole = ''user clicks on the button Save'', groups = [(1, ''button Save'')]\<rparr> []
        = Inr ''await page.getByRole('button', { name: /Save/i }).click();''"
    using len(1) stepPatterns_2_accepts stepPatterns_01_reject stepPatterns_2_output
    by (simp only: all_less_2 simp_thms)
  have A: "matchStepPattern_loop stepPatterns ''user clicks on the button Save'' []
     = Some ''await page.getByRole('button', { name: /Save/i }).click();''"
    using c1 h1 by blast
  have h2: "4 < length xpathRules \<and>
      js_match False (fst (xpathRules ! 4)) (cleanXpath ''//input[@id='q']'')
        = Some \<lparr>index = 0, whole = ''//input[@id='q']'', groups = [(1, ''q'')]\<rparr> \<and>
      (\<forall>j<4. js_match False (fst (xpathRules ! j)) (cleanXpath ''//input[@id='q']'') = None)"
    using len(2) xpathRules_4_accepts xpathRules_0123_reject
    by (simp only: all_less_4 simp_thms)
  have "convertXPathToPlaywright ''//input[@id='q']'' [] =
      snd (xpathRules ! 4) \<lparr>index = 0, whole = ''//input[@id='q']'', groups = [(1, ''q'')]\<rparr>
        \<lparr>locator = [], type = Xpath, originalXpath = cleanXpath ''//input[@id='q']'',
         comment = None\<rparr>"
    using c1 h2 by blast
  then have B: "convertXPathToPlaywright ''//input[@id='q']'' [] =
     \<lparr>locator = ''page.locator('#q')'', type = Css, originalXpath = ''//input[@id='q']'',
      comment = None\<rparr>"
    by (simp only: cl gen)
  show ?thesis
    using A B stepPatterns_2_accepts stepPatterns_3_accepts xpathRules_4_accepts xpathRules_6_accepts
    by simp
qed

lemma matchStepPattern_loop_after_throwing:
  assumes "\<forall>p \<in> set earlier. \<forall>mp. js_match True (pattern p) d = Some mp \<longrightarrow>
      (\<exists>e. implement p mp ps = Inl e)"
    and "js_match True (pattern q) d = Some mq" and "implement q mq ps = Inr out"
  shows "matchStepPattern_loop (earlier @ q # later) d ps = Some out"
  using assms
proof (induction earlier)
  case Nil
  then show ?case by simp
next
  case (Cons p earlier)
  from Cons.prems have tl: "matchStepPattern_loop (earlier @ q # later) d ps = Some out"
    by (intro Cons.IH) simp_all
  show ?case
  proof (cases "js_match True (pattern p) d")
    case None
    with tl show ?thesis by simp
  next
    case (Some mp)
    with Cons.prems(1) obtain e where "implement p mp ps = Inl e" by auto
    with Some tl show ?thesis by simp
  qed
qed

text \<open>
  Claim C5.  In \<^verbatim>\<open>matchStepPattern\<close>, over any ordered rule list, a rule whose pattern accepts
  the description and whose generator throws counts as a rule that did not match: the
  result is the result of the list without that rule, so the later rules are tried in
  order.  When every accepting rule throws, the result is \<^verbatim>\<open>null\<close> (\<open>None\<close>), no exception
  leaves the function, and \<^verbatim>\<open>updateTypeScriptStepFile\<close> counts the step as skipped and
  leaves the content as it is.  When every accepting rule in front of a rule \<open>q\<close> throws, and
  \<open>q\<close> accepts the description and its generator returns \<open>out\<close>, the result is \<open>out\<close>: the
  search goes on behind the throwing rules and the output of the later rule is produced.
\<close>

theorem C5_throwing_generator_is_no_match:
  "(js_match True (pattern r) d = Some mt \<and> implement r mt ps = Inl e
      \<longrightarrow> matchStepPattern_loop (pre @ r # post) d ps = matchStepPattern_loop (pre @ post) d ps) \<and>
   ((\<forall>r' \<in> set rules. \<forall>mt'. js_match True (pattern r') d = Some mt' \<longrightarrow>
        (\<exists>e'. implement r' mt' ps = Inl e'))
      \<longrightarrow> matchStepPattern_loop rules d ps = None) \<and>
   (js_test True (todoPattern (description st)) tsContent \<and>
    matchStepPattern (description st) (params st) = None
      \<longrightarrow> processStep st (tsContent, n, sts)
            = (tsContent, n, sts\<lparr>stepsSkipped := stepsSkipped sts + 1\<rparr>)) \<and>
   ((\<forall>p \<in> set earlier. \<forall>mp. js_match True (pattern p) d = Some mp \<longrightarrow>
        (\<exists>e'. implement p mp ps = Inl e')) \<and>
    js_match True (pattern q) d = Some mq \<and> implement q mq ps = Inr out
      \<longrightarrow> matchStepPattern_loop (earlier @ q # later) d ps = Some out)"
proof (intro conjI impI)
  assume "(\<forall>p \<in> set earlier. \<forall>mp. js_match True (pattern p) d = Some mp \<longrightarrow>
        (\<exists>e'. implement p mp ps = Inl e')) \<and>
    js_match True (pattern q) d = Some mq \<and> implement q mq ps = Inr out"
  then have "\<forall>p \<in> set earlier. \<forall>mp. js_match True (pattern p) d = Some mp \<longrightarrow>
        (\<exists>e'. implement p mp ps = Inl e')"
    and "js_match True (pattern q) d = Some mq" and "implement q mq ps = Inr out" by blast+
  then show "matchStepPattern_loop (earlier @ q # later) d ps = Some out"
    by (rule matchStepPattern_loop_after_throwing)
next
  assume "js_match True (pattern r) d = Some mt \<and> implement r mt ps = Inl e"
  then show "matchStepPattern_loop (pre @ r # post) d ps = matchStepPattern_loop (pre @ post) d ps"
    using matchStepPattern_loop_skip [of r d mt ps e pre post] by blast
next
  assume "\<forall>r' \<in> set rules. \<forall>mt'. js_match True (pattern r') d = Some mt' \<longrightarrow>
        (\<exists>e'. implement r' mt' ps = Inl e')"
  then show "matchStepPattern_loop rules d ps = None"
    by (rule matchStepPattern_loop_none)
next
  assume "js_test True (todoPattern (description st)) tsContent \<and>
    matchStepPattern (description st) (params st) = None"
  then show "processStep st (tsContent, n, sts)
            = (tsContent, n, sts\<lparr>stepsSkipped := stepsSkipped sts + 1\<rparr>)"
    by (simp add: processStep_def)
qed

text \<open>
  Witness of C5.  The rule \<open>throwingRule\<close> pairs the pattern \<^verbatim>\<open>/user/i\<close> with the generator of
  the eighth rule of the table, which calls \<^verbatim>\<open>value.startsWith\<close>: without a first group and
  without parameters \<^verbatim>\<open>value\<close> is \<^verbatim>\<open>undefined\<close> and the call throws.  In front of the table the
  rule changes nothing; alone it gives \<^verbatim>\<open>null\<close>, and the step is counted as skipped.  For the
  description \<^verbatim>\<open>user goes to x\<close> the throwing rule accepts first, and the result is the
  \<^verbatim>\<open>page.goto\<close> of the first rule of the table, which comes after it.
\<close>

lemma stepPatterns_0_accepts:
  "js_match True (pattern (stepPatterns ! 0)) ''user goes to x''
     = Some \<lparr>index = 0, whole = ''user goes to x'', groups = [(1, ''x'')]\<rparr>"
  by (simp add: stepPatterns_def rx_eval char_eval split del: if_split)

lemma stepPatterns_0_output:
  "implement (stepPatterns ! 0) \<lparr>index = 0, whole = ''user goes to x'', groups = [(1, ''x'')]\<rparr> []
     = Inr (''await page.goto('x');'' @ nl # ''    await page.waitForLoadState('networkidle');'')"
  by (simp add: stepPatterns_def js_or_def truthy_def rx_eval str_eval)

lemma goes_to_x: "matchStepPattern_loop stepPatterns ''user goes to x'' []
    = Some (''await page.goto('x');'' @ nl # ''    await page.waitForLoadState('networkidle');'')"
  by (simp add: stepPatterns_def js_or_def truthy_def rx_eval char_eval str_eval
      split del: if_split)

lemma throwingRule_accepts:
  "js_match True (Chars ''user'') ''user goes to x'' = Some \<lparr>index = 0, whole = ''user'', groups = []\<rparr>"
  by (simp add: rx_eval char_eval split del: if_split)

lemma throwingRule_throws:
  "implement (stepPatterns ! 7) \<lparr>index = 0, whole = ''user'', groups = []\<rparr> [] = Inl TypeError"
  by (simp add: stepPatterns_def rx_eval str_eval)

lemma todo_present_example:
  "js_test True (todoPattern ''user frobnicates'')
     ''When('user frobnicates', async function () { /* TODO */ })''"
  by (simp add: todoPattern_def rx_eval char_eval split del: if_split)

lemma frobnicates_unmatched: "matchStepPattern ''user frobnicates'' [] = None"
  by (simp add: matchStepPattern_def stepPatterns_def rx_eval char_eval split del: if_split)

theorem C5_throwing_generator_is_no_match_witness:
  "js_match True (Chars ''user'') ''user goes to x'' \<noteq> None \<and>
   implement (stepPatterns ! 7) (the (js_match True (Chars ''user'') ''user goes to x'')) []
     = Inl TypeError \<and>
   matchStepPattern_loop
     (\<lparr>pattern = Chars ''user'', implement = implement (stepPatterns ! 7)\<rparr> # stepPatterns)
     ''user goes to x'' []
     = matchStepPattern_loop stepPatterns ''user goes to x'' [] \<and>
   matchStepPattern_loop [\<lparr>pattern = Chars ''user'', implement = implement (stepPatterns ! 7)\<rparr>]
     ''user goes to x'' [] = None \<and>
   matchStepPattern_loop
     (\<lparr>pattern = Chars ''user'', implement = implement (stepPatterns ! 7)\<rparr> # stepPatterns)
     ''user goes to x'' []
     = Some (''await page.goto('x');'' @ nl # ''    await page.waitForLoadState('networkidle');'') \<and>
   matchStepPattern_loop
     ([\<lparr>pattern = Chars ''user'', implement = implement (stepPatterns ! 7)\<rparr>]
        @ stepPatterns ! 0 # [])
     ''user goes to x'' []
     = Some (''await page.goto('x');'' @ nl # ''    await page.waitForLoadState('networkidle');'') \<and>
   processStep \<lparr>description = ''user frobnicates'', methodName = ''f'', params = [], body = []\<rparr>
     (''When('user frobnicates', async function () { /* TODO */ })'', 0,
      \<lparr>filesProcessed = 0, stepsImplemented = 0, stepsSkipped = 0\<rparr>)
     = (''When('user frobnicates', async function () { /* TODO */ })'', 0,
        \<lparr>filesProcessed = 0, stepsImplemented = 0, stepsSkipped = 1\<rparr>)"
proof -
  note c5 = C5_throwing_generator_is_no_match
    [of "\<lparr>pattern = Chars ''user'', implement = implement (stepPatterns ! 7)\<rparr>"
        "''user goes to x''" "\<lparr>index = 0, whole = ''user'', groups = []\<rparr>" "[]" TypeError
        "[]" stepPatterns
        "[\<lparr>pattern = Chars ''user'', implement = implement (stepPatterns ! 7)\<rparr>]"
        "\<lparr>description = ''user frobnicates'', methodName = ''f'', params = [], body = []\<rparr>"
        "''When('user frobnicates', async function () { /* TODO */ })''" 0
        "\<lparr>filesProcessed = 0, stepsImplemented = 0, stepsSkipped = 0\<rparr>"
        "[\<lparr>pattern = Chars ''user'', implement = implement (stepPatterns ! 7)\<rparr>]"
        "stepPatterns ! 0" "\<lparr>index = 0, whole = ''user goes to x'', groups = [(1, ''x'')]\<rparr>"
        "''await page.goto('x');'' @ nl # ''    await page.waitForLoadState('networkidle');''"
        "[]"]
  have A: "matchStepPattern_loop
     (\<lparr>pattern = Chars ''user'', implement = implement (stepPatterns ! 7)\<rparr> # stepPatterns)
     ''user goes to x'' []
     = matchStepPattern_loop stepPatterns ''user goes to x'' []"
    using c5 throwingRule_accepts throwingRule_throws by simp
  have B: "matchStepPattern_loop [\<lparr>pattern = Chars ''user'', implement = implement (stepPatterns ! 7)\<rparr>]
     ''user goes to x'' [] = None"
    using c5 throwingRule_accepts throwingRule_throws by simp
  have C: "processStep \<lparr>description = ''user frobnicates'', methodName = ''f'', params = [], body = []\<rparr>
     (''When('user frobnicates', async function () { /* TODO */ })'', 0,
      \<lparr>filesProcessed = 0, stepsImplemented = 0, stepsSkipped = 0\<rparr>)
     = (''When('user frobnicates', async function () { /* TODO */ })'', 0,
        \<lparr>filesProcessed = 0, stepsImplemented = 0, stepsSkipped = 1\<rparr>)"
    using c5 todo_present_example frobnicates_unmatched by simp
  have D: "matchStepPattern_loop
     (\<lparr>pattern = Chars ''user'', implement = implement (stepPatterns ! 7)\<rparr> # stepPatterns)
     ''user goes to x'' []
     = Some (''await page.goto('x');'' @ nl # ''    await page.waitForLoadState('networkidle');'')"
    using A goes_to_x by simp
  have E: "matchStepPattern_loop
     ([\<lparr>pattern = Chars ''user'', implement = implement (stepPatterns ! 7)\<rparr>]
        @ stepPatterns ! 0 # [])
     ''user goes to x'' []
     = Some (''await page.goto('x');'' @ nl # ''    await page.waitForLoadState('networkidle');'')"
    using c5 throwingRule_accepts throwingRule_throws stepPatterns_0_accepts stepPatterns_0_output
    by simp
  from throwingRule_accepts have F: "js_match True (Chars ''user'') ''user goes to x'' \<noteq> None"
    by simp
  from throwingRule_accepts throwingRule_throws
  have G: "implement (stepPatterns ! 7) (the (js_match True (Chars ''user'') ''user goes to x'')) []
     = Inl TypeError" by simp
  from F G A B D E C show ?thesis by (intro conjI)
qed

text \<open>
  Claim C9.  For \<^verbatim>\<open>//button[text()='Submit']\<close> the second revision of
  \<^verbatim>\<open>convertXPathToPlaywright\<close> returns the locator
  \<^verbatim>\<open>page.getByRole('button', { name: 'Submit' })\<close> with the type \<^verbatim>\<open>semantic\<close>; the first
  revision, which has no classification, returns the same locator and does not ask for a
  review.
\<close>

theorem C9_button_submit:
  "convertXPathToPlaywright ''//button[text()='Submit']'' fieldName =
     \<lparr>locator = ''page.getByRole('button', { name: 'Submit' })'', type = Semantic,
      originalXpath = ''//button[text()='Submit']'', comment = None\<rparr> \<and>
   convertXPathToPlaywright_r1 ''//button[text()='Submit']'' fieldName =
     \<lparr>conversion_r1.locator = ''page.getByRole('button', { name: 'Submit' })'',
      needsReview = False, conversion_r1.originalXpath = ''//button[text()='Submit']''\<rparr>"
proof
  show "convertXPathToPlaywright ''//button[text()='Submit']'' fieldName =
     \<lparr>locator = ''page.getByRole('button', { name: 'Submit' })'', type = Semantic,
      originalXpath = ''//button[text()='Submit']'', comment = None\<rparr>"
    by (simp add: convertXPathToPlaywright_def cleanXpath_def xpath_rx rx_eval char_eval str_eval
          split del: if_split)
  show "convertXPathToPlaywright_r1 ''//button[text()='Submit']'' fieldName =
     \<lparr>conversion_r1.locator = ''page.getByRole('button', { name: 'Submit' })'',
      needsReview = False, conversion_r1.originalXpath = ''//button[text()='Submit']''\<rparr>"
    by (simp add: convertXPathToPlaywright_r1_def cleanXpath_r1_def xpath_rx_r1 rx_eval char_eval
          str_eval split del: if_split)
qed

subsection \<open>The fallback\<close>

text \<open>
  Claim C2 as stated fails.  In the first revision the fallback keeps only the first 50
  characters of the expression: the 65 characters of
  \<^verbatim>\<open>//div[@class='container']//table[@id='results']//tr[2]/td[3]/span\<close> are cut after
  \<^verbatim>\<open>//t\<close>.  In the second revision the fallback puts a backslash before every \<^verbatim>\<open>$\<close> and
  every backtick: \<^verbatim>\<open>//div[@id=$id]\<close> is generated as \<^verbatim>\<open>//div[@id=\$id]\<close>.  In both cases the
  generated text does not contain the original expression.
\<close>

theorem C2_fallback_not_literal_counterexample:
  "conversion_r1.locator
     (convertXPathToPlaywright_r1
        ''//div[@class='container']//table[@id='results']//tr[2]/td[3]/span'' [])
     = ''page.locator('/* TODO: Convert XPath: //div[@class='container']//table[@id='results']//t... */')'' \<and>
   \<not> str_includes
     (conversion_r1.locator
        (convertXPathToPlaywright_r1
           ''//div[@class='container']//table[@id='results']//tr[2]/td[3]/span'' []))
     ''//div[@class='container']//table[@id='results']//tr[2]/td[3]/span'' \<and>
   convertXPathToPlaywright ''//div[@id=$id]'' []
     = \<lparr>locator = ''page.locator('' @ btick # ''//div[@id='' @ bslash # ''$id]'' @ btick # '')'',
        type = Xpath, originalXpath = ''//div[@id=$id]'',
        comment = Some ''XPath preserved - consider manual review''\<rparr> \<and>
   \<not> str_includes (locator (convertXPathToPlaywright ''//div[@id=$id]'' [])) ''//div[@id=$id]''"
proof -
  have a: "convertXPathToPlaywright_r1
        ''//div[@class='container']//table[@id='results']//tr[2]/td[3]/span'' []
     = \<lparr>conversion_r1.locator =
         ''page.locator('/* TODO: Convert XPath: //div[@class='container']//table[@id='results']//t... */')'',
        needsReview = True,
        conversion_r1.originalXpath =
          ''//div[@class='container']//table[@id='results']//tr[2]/td[3]/span''\<rparr>"
    by (simp add: convertXPathToPlaywright_r1_def cleanXpath_r1_def xpath_rx_r1 rx_eval char_eval
          str_eval split del: if_split)
  have b: "convertXPathToPlaywright ''//div[@id=$id]'' []
     = \<lparr>locator = ''page.locator('' @ btick # ''//div[@id='' @ bslash # ''$id]'' @ btick # '')'',
        type = Xpath, originalXpath = ''//div[@id=$id]'',
        comment = Some ''XPath preserved - consider manual review''\<rparr>"
    by (simp add: convertXPathToPlaywright_def cleanXpath_def escapeXpath_def xpath_rx rx_eval
          char_eval str_eval split del: if_split)
  show ?thesis
    by (simp add: a b)
qed

text \<open>
  Claim C2, amended.  When no pattern accepts the cleaned expression, the result is the
  fallback.  Second revision: the locator is \<^verbatim>\<open>page.locator(`E`)\<close>, where \<open>E\<close> is the cleaned
  expression with a backslash before every backtick and every \<^verbatim>\<open>$\<close>, the type is \<^verbatim>\<open>xpath\<close>
  and the comment is \<^verbatim>\<open>XPath preserved - consider manual review\<close>; a cleaned expression
  without backtick and \<^verbatim>\<open>$\<close> is contained in the locator as it is.  First revision: the
  locator contains, after the marker \<^verbatim>\<open>TODO: Convert XPath:\<close>, the first 50 characters of
  the cleaned expression, and \<^verbatim>\<open>needsReview\<close> is set; a cleaned expression of at most 50
  characters is contained in the locator as it is.
\<close>

theorem C2_fallback_embeds_cleaned_expression:
  "((\<forall>rl \<in> set xpathRules. js_match False (fst rl) (cleanXpath x) = None) \<longrightarrow>
      convertXPathToPlaywright x f = xpathFallback (cleanXpath x) \<and>
      (btick \<notin> set (cleanXpath x) \<and> CHR ''$'' \<notin> set (cleanXpath x) \<longrightarrow>
         str_includes (locator (convertXPathToPlaywright x f)) (cleanXpath x))) \<and>
   ((\<forall>p \<in> set xpathPatterns_r1. js_match False p (cleanXpath_r1 x) = None) \<longrightarrow>
      conversion_r1.locator (convertXPathToPlaywright_r1 x f) =
        ''page.locator('/* TODO: Convert XPath: '' @ take 50 (cleanXpath_r1 x) @ ''... */'' @ sq # '')'' \<and>
      needsReview (convertXPathToPlaywright_r1 x f) \<and>
      (length (cleanXpath_r1 x) \<le> 50 \<longrightarrow>
         str_includes (conversion_r1.locator (convertXPathToPlaywright_r1 x f)) (cleanXpath_r1 x)))"
proof (intro conjI impI)
  assume none: "\<forall>rl \<in> set xpathRules. js_match False (fst rl) (cleanXpath x) = None"
  then show fb: "convertXPathToPlaywright x f = xpathFallback (cleanXpath x)"
    by (simp add: convert_applyRules applyRules_none)
  assume "btick \<notin> set (cleanXpath x) \<and> CHR ''$'' \<notin> set (cleanXpath x)"
  then have "escapeXpath (cleanXpath x) = cleanXpath x"
    by (simp add: escapeXpath_plain)
  then have "locator (convertXPathToPlaywright x f)
      = (''page.locator('' @ [btick]) @ cleanXpath x @ (btick # '')'')"
    by (simp add: fb xpathFallback_def)
  then show "str_includes (locator (convertXPathToPlaywright x f)) (cleanXpath x)"
    unfolding str_includes_iff by blast
next
  assume none: "\<forall>p \<in> set xpathPatterns_r1. js_match False p (cleanXpath_r1 x) = None"
  then have fb: "convertXPathToPlaywright_r1 x f =
     \<lparr>conversion_r1.locator =
        ''page.locator('/* TODO: Convert XPath: '' @ take 50 (cleanXpath_r1 x) @ ''... */'' @ sq # '')'',
      needsReview = True, conversion_r1.originalXpath = x\<rparr>"
    by (rule convert_r1_fallback)
  then show "conversion_r1.locator (convertXPathToPlaywright_r1 x f) =
        ''page.locator('/* TODO: Convert XPath: '' @ take 50 (cleanXpath_r1 x) @ ''... */'' @ sq # '')''"
    by simp
  from fb show "needsReview (convertXPathToPlaywright_r1 x f)" by simp
  assume "length (cleanXpath_r1 x) \<le> 50"
  then have "conversion_r1.locator (convertXPathToPlaywright_r1 x f)
      = ''page.locator('/* TODO: Convert XPath: '' @ cleanXpath_r1 x @ (''... */'' @ sq # '')'')"
    by (simp add: fb)
  then show "str_includes (conversion_r1.locator (convertXPathToPlaywright_r1 x f)) (cleanXpath_r1 x)"
    unfolding str_includes_iff by blast
qed

text \<open>
  Witness of C2: no pattern of either revision accepts \<^verbatim>\<open>//div[@class='x']/span[2]/a\<close>, and
  both fallbacks contain the whole expression.
\<close>

lemma example_clean:
  "cleanXpath ''//div[@class='x']/span[2]/a'' = ''//div[@class='x']/span[2]/a''"
  "cleanXpath_r1 ''//div[@class='x']/span[2]/a'' = ''//div[@class='x']/span[2]/a''"
  by (simp_all add: cleanXpath_def cleanXpath_r1_def rx_eval char_eval str_eval split del: if_split)

lemma example_unmatched:
  "\<forall>rl \<in> set xpathRules. js_match False (fst rl) ''//div[@class='x']/span[2]/a'' = None"
  by (simp add: xpathRules_def xpath_rx rx_eval char_eval split del: if_split)

lemma example_unmatched_r1:
  "\<forall>p \<in> set xpathPatterns_r1. js_match False p ''//div[@class='x']/span[2]/a'' = None"
  by (simp add: xpathPatterns_r1_def xpath_rx_r1 rx_eval char_eval split del: if_split)

theorem C2_fallback_embeds_cleaned_expression_witness:
  "list_all (\<lambda>rl. js_match False (fst rl) (cleanXpath ''//div[@class='x']/span[2]/a'') = None)
     xpathRules \<and>
   list_all (\<lambda>p. js_match False p (cleanXpath_r1 ''//div[@class='x']/span[2]/a'') = None)
     xpathPatterns_r1 \<and>
   locator (convertXPathToPlaywright ''//div[@class='x']/span[2]/a'' [])
     = ''page.locator('' @ btick # ''//div[@class='x']/span[2]/a'' @ btick # '')'' \<and>
   str_includes (locator (convertXPathToPlaywright ''//div[@class='x']/span[2]/a'' []))
     ''//div[@class='x']/span[2]/a'' \<and>
   conversion_r1.locator (convertXPathToPlaywright_r1 ''//div[@class='x']/span[2]/a'' [])
     = ''page.locator('/* TODO: Convert XPath: //div[@class='x']/span[2]/a... */')'' \<and>
   str_includes (conversion_r1.locator (convertXPathToPlaywright_r1 ''//div[@class='x']/span[2]/a'' []))
     ''//div[@class='x']/span[2]/a''"
proof -
  note c2 = C2_fallback_embeds_cleaned_expression [of "''//div[@class='x']/span[2]/a''" "[]"]
  have h1: "\<forall>rl \<in> set xpathRules.
      js_match False (fst rl) (cleanXpath ''//div[@class='x']/span[2]/a'') = None"
    using example_unmatched by (simp only: example_clean)
  have h2: "\<forall>p \<in> set xpathPatterns_r1.
      js_match False p (cleanXpath_r1 ''//div[@class='x']/span[2]/a'') = None"
    using example_unmatched_r1 by (simp only: example_clean)
  have h3: "btick \<notin> set (cleanXpath ''//div[@class='x']/span[2]/a'') \<and>
      CHR ''$'' \<notin> set (cleanXpath ''//div[@class='x']/span[2]/a'')"
    by (simp add: example_clean)
  have h4: "length (cleanXpath_r1 ''//div[@class='x']/span[2]/a'') \<le> 50"
    by (simp add: example_clean)
  from c2 h1 h3 have a1: "convertXPathToPlaywright ''//div[@class='x']/span[2]/a'' []
      = xpathFallback (cleanXpath ''//div[@class='x']/span[2]/a'')"
    and a2: "str_includes (locator (convertXPathToPlaywright ''//div[@class='x']/span[2]/a'' []))
      (cleanXpath ''//div[@class='x']/span[2]/a'')"
    by blast+
  from c2 h2 h4 have b1: "conversion_r1.locator (convertXPathToPlaywright_r1 ''//div[@class='x']/span[2]/a'' [])
      = ''page.locator('/* TODO: Convert XPath: '' @ take 50 (cleanXpath_r1 ''//div[@class='x']/span[2]/a'')
          @ ''... */'' @ sq # '')''"
    and b2: "str_includes (conversion_r1.locator (convertXPathToPlaywright_r1 ''//div[@class='x']/span[2]/a'' []))
      (cleanXpath_r1 ''//div[@class='x']/span[2]/a'')"
    by blast+
  have e: "escapeXpath ''//div[@class='x']/span[2]/a'' = ''//div[@class='x']/span[2]/a''"
    by (rule escapeXpath_plain) simp_all
  show ?thesis
    using h1 h2 a1 a2 b1 b2 by (simp add: example_clean xpathFallback_def e list_all_iff)
qed

subsection \<open>Soundness of the matcher\<close>

lemma chars_match_sound:
  "chars_match ci l s = Some s' \<Longrightarrow> \<exists>u. s = u @ s' \<and> map (canon ci) u = map (canon ci) l"
proof (induction ci l s rule: chars_match.induct)
  case (1 ci s)
  then show ?case by simp
next
  case (2 ci c cs)
  then show ?case by simp
next
  case (3 ci c cs x xs)
  show ?case
  proof (cases "canon ci c = canon ci x")
    case True
    with 3 obtain u where "xs = u @ s'" "map (canon ci) u = map (canon ci) cs" by auto
    with True have "x # xs = (x # u) @ s' \<and> map (canon ci) (x # u) = map (canon ci) (c # cs)"
      by simp
    then show ?thesis by blast
  next
    case False
    with 3 show ?thesis by simp
  qed
qed

lemma greedy_sound:
  "greedy p k s = Some x \<Longrightarrow> \<exists>u s'. s = u @ s' \<and> (\<forall>y \<in> set u. p y) \<and> k s' = Some x"
proof (induction s)
  case Nil
  then have "k [] = Some x" by simp
  then show ?case by (intro exI [of _ "[]"]) simp
next
  case (Cons a s)
  show ?case
  proof (cases "p a")
    case False
    with Cons.prems have "k (a # s) = Some x" by simp
    then show ?thesis by (intro exI [of _ "[]"] exI [of _ "a # s"]) simp
  next
    case True
    show ?thesis
    proof (cases "greedy p k s")
      case None
      with True Cons.prems have "k (a # s) = Some x" by simp
      then show ?thesis by (intro exI [of _ "[]"] exI [of _ "a # s"]) simp
    next
      case (Some y)
      with True Cons.prems have "greedy p k s = Some x" by simp
      from Cons.IH [OF this] obtain u s' where u: "s = u @ s'" "\<forall>y \<in> set u. p y" "k s' = Some x"
        by blast
      show ?thesis
        using u True by (intro exI [of _ "a # u"] exI [of _ s']) simp
    qed
  qed
qed

lemma lazy_sound:
  "lazy p k s = Some x \<Longrightarrow> \<exists>u s'. s = u @ s' \<and> (\<forall>y \<in> set u. p y) \<and> k s' = Some x"
proof (induction s)
  case Nil
  then have "k [] = Some x" by simp
  then show ?case by (intro exI [of _ "[]"]) simp
next
  case (Cons a s)
  show ?case
  proof (cases "k (a # s)")
    case (Some r)
    with Cons.prems have "k (a # s) = Some x" by simp
    then show ?thesis by (intro exI [of _ "[]"] exI [of _ "a # s"]) simp
  next
    case None
    with Cons.prems have pa: "p a" and l: "lazy p k s = Some x" by (simp_all split: if_splits)
    from Cons.IH [OF l] obtain u s' where u: "s = u @ s'" "\<forall>y \<in> set u. p y" "k s' = Some x"
      by blast
    show ?thesis
      using u pa by (intro exI [of _ "a # u"] exI [of _ s']) simp
  qed
qed

lemma m_sound:
  "m ci n r s c k = Some x \<Longrightarrow> \<exists>s' c'. rx_sem ci n r s s' c c' \<and> k s' c' = Some x"
proof (induction r arbitrary: s c k)
  case (Chars l)
  show ?case
  proof (cases "chars_match ci l s")
    case None
    with Chars show ?thesis by simp
  next
    case (Some s')
    with Chars have k: "k s' c = Some x" by simp
    from chars_match_sound [OF Some] obtain u
      where u: "s = u @ s'" "map (canon ci) u = map (canon ci) l" by blast
    have "rx_sem ci n (Chars l) s s' c c"
      unfolding rx_sem.simps using u by (intro exI [of _ u]) simp
    with k show ?thesis by (intro exI [of _ s'] exI [of _ c]) simp
  qed
next
  case (One cl)
  show ?case
  proof (cases s)
    case Nil
    with One show ?thesis by simp
  next
    case (Cons a t)
    with One have a: "in_cls ci cl a" and k: "k t c = Some x" by (simp_all split: if_splits)
    have "rx_sem ci n (One cl) s t c c"
      unfolding rx_sem.simps using a Cons by (intro exI [of _ a]) simp
    with k show ?thesis by (intro exI [of _ t] exI [of _ c]) simp
  qed
next
  case (Star cl)
  then have "greedy (in_cls ci cl) (\<lambda>s'. k s' c) s = Some x" by simp
  from greedy_sound [OF this] obtain u s'
    where u: "s = u @ s'" "\<forall>y \<in> set u. in_cls ci cl y" "k s' c = Some x" by blast
  have "rx_sem ci n (Star cl) s s' c c"
    unfolding rx_sem.simps using u by (intro exI [of _ u]) simp
  with u(3) show ?case by (intro exI [of _ s'] exI [of _ c]) simp
next
  case (Plus cl)
  show ?case
  proof (cases s)
    case Nil
    with Plus show ?thesis by simp
  next
    case (Cons a t)
    with Plus have a: "in_cls ci cl a"
      and g: "greedy (in_cls ci cl) (\<lambda>s'. k s' c) t = Some x" by (simp_all split: if_splits)
    from greedy_sound [OF g] obtain u s'
      where u: "t = u @ s'" "\<forall>y \<in> set u. in_cls ci cl y" "k s' c = Some x" by blast
    have "rx_sem ci n (Plus cl) s s' c c"
      unfolding rx_sem.simps using u a Cons by (intro exI [of _ "a # u"]) simp
    with u(3) show ?thesis by (intro exI [of _ s'] exI [of _ c]) simp
  qed
next
  case (LazyStar cl)
  then have "lazy (in_cls ci cl) (\<lambda>s'. k s' c) s = Some x" by simp
  from lazy_sound [OF this] obtain u s'
    where u: "s = u @ s'" "\<forall>y \<in> set u. in_cls ci cl y" "k s' c = Some x" by blast
  have "rx_sem ci n (LazyStar cl) s s' c c"
    unfolding rx_sem.simps using u by (intro exI [of _ u]) simp
  with u(3) show ?case by (intro exI [of _ s'] exI [of _ c]) simp
next
  case (LazyPlus cl)
  show ?case
  proof (cases s)
    case Nil
    with LazyPlus show ?thesis by simp
  next
    case (Cons a t)
    with LazyPlus have a: "in_cls ci cl a"
      and g: "lazy (in_cls ci cl) (\<lambda>s'. k s' c) t = Some x" by (simp_all split: if_splits)
    from lazy_sound [OF g] obtain u s'
      where u: "t = u @ s'" "\<forall>y \<in> set u. in_cls ci cl y" "k s' c = Some x" by blast
    have "rx_sem ci n (LazyPlus cl) s s' c c"
      unfolding rx_sem.simps using u a Cons by (intro exI [of _ "a # u"]) simp
    with u(3) show ?thesis by (intro exI [of _ s'] exI [of _ c]) simp
  qed
next
  case (Opt r)
  show ?case
  proof (cases "m ci n r s c k")
    case None
    with Opt.prems have "k s c = Some x" by simp
    then show ?thesis by (intro exI [of _ s] exI [of _ c]) simp
  next
    case (Some y)
    with Opt.prems have "m ci n r s c k = Some x" by simp
    from Opt.IH [OF this] obtain s' c' where "rx_sem ci n r s s' c c'" "k s' c' = Some x" by blast
    then show ?thesis by (intro exI [of _ s'] exI [of _ c']) simp
  qed
next
  case (Alt r1 r2)
  show ?case
  proof (cases "m ci n r1 s c k")
    case None
    with Alt.prems have "m ci n r2 s c k = Some x" by simp
    from Alt.IH(2) [OF this] obtain s' c' where "rx_sem ci n r2 s s' c c'" "k s' c' = Some x" by blast
    then show ?thesis by (intro exI [of _ s'] exI [of _ c']) simp
  next
    case (Some y)
    with Alt.prems have "m ci n r1 s c k = Some x" by simp
    from Alt.IH(1) [OF this] obtain s' c' where "rx_sem ci n r1 s s' c c'" "k s' c' = Some x" by blast
    then show ?thesis by (intro exI [of _ s'] exI [of _ c']) simp
  qed
next
  case (Seq r1 r2)
  then have "m ci n r1 s c (\<lambda>s' c'. m ci n r2 s' c' k) = Some x" by simp
  from Seq.IH(1) [OF this] obtain s1 c1
    where 1: "rx_sem ci n r1 s s1 c c1" and 2: "m ci n r2 s1 c1 k = Some x" by blast
  from Seq.IH(2) [OF 2] obtain s' c'
    where 3: "rx_sem ci n r2 s1 s' c1 c'" and 4: "k s' c' = Some x" by blast
  have "rx_sem ci n (Seq r1 r2) s s' c c'"
    unfolding rx_sem.simps using 1 3 by (intro exI [of _ s1] exI [of _ c1]) simp
  with 4 show ?case by (intro exI [of _ s'] exI [of _ c']) simp
next
  case (Grp g r)
  then have "m ci n r s c (\<lambda>s' c'. k s' ((g, take (length s - length s') s) # c')) = Some x"
    by simp
  from Grp.IH [OF this] obtain s' c1
    where 1: "rx_sem ci n r s s' c c1"
      and 2: "k s' ((g, take (length s - length s') s) # c1) = Some x" by blast
  have "rx_sem ci n (Grp g r) s s' c ((g, take (length s - length s') s) # c1)"
    unfolding rx_sem.simps using 1 by (intro exI [of _ c1]) simp
  with 2 show ?case
    by (intro exI [of _ s'] exI [of _ "(g, take (length s - length s') s) # c1"]) simp
next
  case Bol
  then have "length s = n" "k s c = Some x" by (simp_all split: if_splits)
  then show ?case by (intro exI [of _ s] exI [of _ c]) simp
next
  case Eol
  then have "s = []" "k s c = Some x" by (simp_all split: if_splits)
  then show ?case by (intro exI [of _ s] exI [of _ c]) simp
qed

lemma rx_sem_suffix:
  "rx_sem ci n r s s' c c' \<Longrightarrow> \<exists>u. s = u @ s' \<and> minlen r \<le> length u"
proof (induction r arbitrary: s s' c c')
  case (Chars l)
  then obtain u where u: "s = u @ s'" "map (canon ci) u = map (canon ci) l" by auto
  from u(2) have "length u = length l" by (metis length_map)
  with u(1) have "s = u @ s' \<and> minlen (Chars l) \<le> length u" by simp
  then show ?case ..
next
  case (One cl)
  then obtain x where "s = x # s'" by auto
  then have "s = [x] @ s' \<and> minlen (One cl) \<le> length [x]" by simp
  then show ?case ..
next
  case (Star cl)
  then obtain u where "s = u @ s'" by auto
  then have "s = u @ s' \<and> minlen (Star cl) \<le> length u" by simp
  then show ?case ..
next
  case (Plus cl)
  then obtain u where "s = u @ s'" "u \<noteq> []" by auto
  then have "s = u @ s' \<and> minlen (Plus cl) \<le> length u" by (cases u) auto
  then show ?case ..
next
  case (LazyStar cl)
  then obtain u where "s = u @ s'" by auto
  then have "s = u @ s' \<and> minlen (LazyStar cl) \<le> length u" by simp
  then show ?case ..
next
  case (LazyPlus cl)
  then obtain u where "s = u @ s'" "u \<noteq> []" by auto
  then have "s = u @ s' \<and> minlen (LazyPlus cl) \<le> length u" by (cases u) auto
  then show ?case ..
next
  case (Opt r)
  from Opt.prems have "rx_sem ci n r s s' c c' \<or> s' = s" by auto
  then show ?case
  proof
    assume "rx_sem ci n r s s' c c'"
    from Opt.IH [OF this] obtain u where "s = u @ s'" by blast
    then have "s = u @ s' \<and> minlen (Opt r) \<le> length u" by simp
    then show ?thesis ..
  next
    assume "s' = s"
    then have "s = [] @ s' \<and> minlen (Opt r) \<le> length ([]::string)" by simp
    then show ?thesis ..
  qed
next
  case (Alt r1 r2)
  from Alt.prems have "rx_sem ci n r1 s s' c c' \<or> rx_sem ci n r2 s s' c c'" by simp
  then show ?case
  proof
    assume "rx_sem ci n r1 s s' c c'"
    from Alt.IH(1) [OF this] obtain u where "s = u @ s'" "minlen r1 \<le> length u" by blast
    then have "s = u @ s' \<and> minlen (Alt r1 r2) \<le> length u" by simp
    then show ?thesis ..
  next
    assume "rx_sem ci n r2 s s' c c'"
    from Alt.IH(2) [OF this] obtain u where "s = u @ s'" "minlen r2 \<le> length u" by blast
    then have "s = u @ s' \<and> minlen (Alt r1 r2) \<le> length u" by simp
    then show ?thesis ..
  qed
next
  case (Seq r1 r2)
  then obtain s1 c1 where 1: "rx_sem ci n r1 s s1 c c1" and 2: "rx_sem ci n r2 s1 s' c1 c'" by auto
  from Seq.IH(1) [OF 1] obtain u1 where u1: "s = u1 @ s1" "minlen r1 \<le> length u1" by blast
  from Seq.IH(2) [OF 2] obtain u2 where u2: "s1 = u2 @ s'" "minlen r2 \<le> length u2" by blast
  from u1 u2 have "s = (u1 @ u2) @ s' \<and> minlen (Seq r1 r2) \<le> length (u1 @ u2)" by simp
  then show ?case ..
next
  case (Grp g r)
  then obtain c1 where "rx_sem ci n r s s' c c1" by auto
  from Grp.IH [OF this] obtain u where "s = u @ s'" "minlen r \<le> length u" by blast
  then have "s = u @ s' \<and> minlen (Grp g r) \<le> length u" by simp
  then show ?case ..
next
  case Bol
  then have "s = [] @ s' \<and> minlen Bol \<le> length ([]::string)" by simp
  then show ?case ..
next
  case Eol
  then have "s = [] @ s' \<and> minlen Eol \<le> length ([]::string)" by simp
  then show ?case ..
qed


lemma scan_sound:
  "scan ci n r i s = Some mt \<Longrightarrow>
   \<exists>pre s'. s = pre @ whole mt @ s' \<and> index mt = i + length pre \<and>
     rx_sem ci n r (whole mt @ s') s' [] (groups mt)"
proof (induction s arbitrary: i)
  case Nil
  show ?case
  proof (cases "m ci n r [] [] (\<lambda>s' c. Some (s', c))")
    case None
    with Nil show ?thesis by simp
  next
    case (Some y)
    obtain s' c where y: "y = (s', c)" by (cases y)
    from Some y Nil have mt: "mt = \<lparr>index = i, whole = [], groups = c\<rparr>" by simp
    from m_sound [OF Some] y have sem: "rx_sem ci n r [] s' [] c" by auto
    from rx_sem_suffix [OF sem] have "s' = []" by auto
    with sem mt have "[] = [] @ whole mt @ [] \<and> index mt = i + length ([]::string) \<and>
       rx_sem ci n r (whole mt @ []) [] [] (groups mt)" by simp
    then show ?thesis by (intro exI [of _ "[]"])
  qed
next
  case (Cons a s)
  show ?case
  proof (cases "m ci n r (a # s) [] (\<lambda>s' c. Some (s', c))")
    case None
    with Cons.prems have "scan ci n r (Suc i) s = Some mt" by simp
    from Cons.IH [OF this] obtain pre s' where p: "s = pre @ whole mt @ s'" "index mt = Suc i + length pre"
      "rx_sem ci n r (whole mt @ s') s' [] (groups mt)" by blast
    then have "a # s = (a # pre) @ whole mt @ s' \<and> index mt = i + length (a # pre) \<and>
      rx_sem ci n r (whole mt @ s') s' [] (groups mt)" by simp
    then show ?thesis by (intro exI [of _ "a # pre"] exI [of _ s'])
  next
    case (Some y)
    obtain s' c where y: "y = (s', c)" by (cases y)
    with Some Cons.prems
    have mt: "mt = \<lparr>index = i, whole = take (length (a # s) - length s') (a # s), groups = c\<rparr>"
      by simp
    from m_sound [OF Some] y have sem: "rx_sem ci n r (a # s) s' [] c" by auto
    from rx_sem_suffix [OF sem] obtain u where u: "a # s = u @ s'" by blast
    then have "take (length (a # s) - length s') (a # s) = u" by simp
    with mt have w: "whole mt = u" "index mt = i" "groups mt = c" by simp_all
    from u sem w have "a # s = [] @ whole mt @ s' \<and> index mt = i + length ([]::string) \<and>
      rx_sem ci n r (whole mt @ s') s' [] (groups mt)" by simp
    then show ?thesis by (intro exI [of _ "[]"] exI [of _ s'])
  qed
qed

lemma js_match_sound:
  "js_match ci r s = Some mt \<Longrightarrow>
   \<exists>pre s'. s = pre @ whole mt @ s' \<and> index mt = length pre \<and>
     rx_sem ci (length s) r (whole mt @ s') s' [] (groups mt)"
  unfolding js_match_def regex_exec_def
  using scan_sound [of ci "length s" r 0 s mt] by simp

lemma regex_exec_sound:
  "regex_exec ci r s lastIndex = Some mt \<Longrightarrow>
   lastIndex \<le> index mt \<and> index mt + length (whole mt) \<le> length s \<and> minlen r \<le> length (whole mt)"
proof -
  assume a: "regex_exec ci r s lastIndex = Some mt"
  then have le: "lastIndex \<le> length s"
    and sc: "scan ci (length s) r lastIndex (drop lastIndex s) = Some mt"
    by (simp_all add: regex_exec_def split: if_splits)
  from scan_sound [OF sc] obtain pre s' where d: "drop lastIndex s = pre @ whole mt @ s'"
    and i: "index mt = lastIndex + length pre"
    and sem: "rx_sem ci (length s) r (whole mt @ s') s' [] (groups mt)" by blast
  from d have "length (drop lastIndex s) = length pre + length (whole mt) + length s'" by simp
  with le i have 1: "index mt + length (whole mt) \<le> length s" by simp
  from rx_sem_suffix [OF sem] have "minlen r \<le> length (whole mt)" by auto
  with i 1 show ?thesis by simp
qed

lemma exec_loop_terminates:
  assumes "0 < minlen r"
  shows "\<exists>st'. exec_loop ci r s f lastIndex st = Some st'"
proof (induction "Suc (length s) - lastIndex" arbitrary: lastIndex st rule: less_induct)
  case less
  show ?case
  proof (cases "regex_exec ci r s lastIndex")
    case None
    then show ?thesis by (subst exec_loop.simps) simp
  next
    case (Some mt)
    from regex_exec_sound [OF Some] assms
    have "Suc (length s) - (index mt + length (whole mt)) < Suc (length s) - lastIndex" by linarith
    from less [OF this] obtain st' where
      "exec_loop ci r s f (index mt + length (whole mt)) (f mt st) = Some st'" by blast
    with Some show ?thesis by (subst exec_loop.simps) simp
  qed
qed

lemma exec_loop_invariant:
  assumes "0 < minlen r" and "P st" and "\<And>mt st. P st \<Longrightarrow> P (f mt st)"
    and "exec_loop ci r s f lastIndex st = Some st'"
  shows "P st'"
  using assms(2,4)
proof (induction "Suc (length s) - lastIndex" arbitrary: lastIndex st rule: less_induct)
  case less
  show ?case
  proof (cases "regex_exec ci r s lastIndex")
    case None
    with less.prems(2) have "st' = st" by (subst (asm) exec_loop.simps) simp
    with less.prems(1) show ?thesis by simp
  next
    case (Some mt)
    from regex_exec_sound [OF Some] assms(1)
    have d: "Suc (length s) - (index mt + length (whole mt)) < Suc (length s) - lastIndex" by linarith
    from less.prems(2) Some
    have e: "exec_loop ci r s f (index mt + length (whole mt)) (f mt st) = Some st'"
      by (subst (asm) exec_loop.simps) simp
    from less.prems(1) have "P (f mt st)" by (rule assms(3))
    from less.hyps [OF d this e] show ?thesis .
  qed
qed

subsection \<open>Feature files\<close>

lemma canon_False: "canon False = (\<lambda>c. c)"
  by (rule ext) (simp add: canon_def)

lemma andBut_sem:
  assumes "rx_sem False n andButRx s s' [] cs"
  obtains ind kw w tx where "s = ind @ kw @ w @ tx" "s' = []" "length s = n"
     "\<forall>x \<in> set ind. isSpace x" "kw = ''And'' \<or> kw = ''But''" "w \<noteq> []"
     "\<forall>x \<in> set w. isSpace x" "\<forall>x \<in> set tx. \<not> isLineTerminator x"
     "cs = [(3, tx), (2, kw), (1, ind)]"
  using assms
  apply (simp add: andButRx_def cat_def alts_def canon_False)
  apply (elim exE conjE disjE)
  apply simp_all
  done

lemma keyword_sem:
  assumes "rx_sem False n keywordRx s s' [] cs"
  obtains ind kw w tx where "s = ind @ kw @ w @ tx" "s' = []" "length s = n"
     "\<forall>x \<in> set ind. isSpace x" "kw = ''Given'' \<or> kw = ''When'' \<or> kw = ''Then''" "w \<noteq> []"
     "\<forall>x \<in> set w. isSpace x" "\<forall>x \<in> set tx. \<not> isLineTerminator x"
     "cs = [(3, tx), (2, kw), (1, ind)]"
  using assms
  apply (simp add: keywordRx_def cat_def alts_def canon_False)
  apply (elim exE conjE disjE)
  apply simp_all
  done

lemma reset_sem:
  assumes "rx_sem False n resetRx s s' [] cs"
  obtains ind kw where "s = ind @ kw @ s'" "length s = n" "\<forall>x \<in> set ind. isSpace x"
     "kw = ''Scenario'' \<or> kw = ''Background'' \<or> kw = ''Feature'' \<or> kw = ''Examples'' \<or> kw = ''Rule''"
  using assms
  apply (simp add: resetRx_def cat_def alts_def canon_False)
  apply (elim exE conjE disjE)
  apply simp_all
  done


lemma whole_line:
  assumes "l = pre @ w @ s'" "length (w @ s') = length l"
  shows "pre = []"
  using assms by simp

lemma andBut_shape:
  assumes "js_match False andButRx l = Some mt"
  obtains ind kw w tx where "l = ind @ kw @ w @ tx"
     "\<forall>x \<in> set ind. isSpace x" "kw = ''And'' \<or> kw = ''But''" "w \<noteq> []"
     "\<forall>x \<in> set w. isSpace x" "\<forall>x \<in> set tx. \<not> isLineTerminator x"
     "grp mt 1 = Some ind" "grp mt 2 = Some kw" "grp mt 3 = Some tx"
proof -
  from js_match_sound [OF assms] obtain pre s' where l: "l = pre @ whole mt @ s'"
    and sem: "rx_sem False (length l) andButRx (whole mt @ s') s' [] (groups mt)" by blast
  from sem obtain ind kw w tx where
    s: "whole mt @ s' = ind @ kw @ w @ tx" and "s' = []" and len: "length (whole mt @ s') = length l"
    and r: "\<forall>x \<in> set ind. isSpace x" "kw = ''And'' \<or> kw = ''But''" "w \<noteq> []"
      "\<forall>x \<in> set w. isSpace x" "\<forall>x \<in> set tx. \<not> isLineTerminator x"
    and g: "groups mt = [(3, tx), (2, kw), (1, ind)]" by (rule andBut_sem)
  from l len have "pre = []" by (rule whole_line)
  with l s have 1: "l = ind @ kw @ w @ tx" by simp
  from g have 2: "grp mt 1 = Some ind" "grp mt 2 = Some kw" "grp mt 3 = Some tx"
    by (simp_all add: grp_def)
  from 1 r 2 show thesis by (rule that)
qed

lemma keyword_shape:
  assumes "js_match False keywordRx l = Some mt"
  obtains ind kw w tx where "l = ind @ kw @ w @ tx"
     "\<forall>x \<in> set ind. isSpace x" "kw = ''Given'' \<or> kw = ''When'' \<or> kw = ''Then''" "w \<noteq> []"
     "\<forall>x \<in> set w. isSpace x" "\<forall>x \<in> set tx. \<not> isLineTerminator x"
     "grp mt 1 = Some ind" "grp mt 2 = Some kw" "grp mt 3 = Some tx"
proof -
  from js_match_sound [OF assms] obtain pre s' where l: "l = pre @ whole mt @ s'"
    and sem: "rx_sem False (length l) keywordRx (whole mt @ s') s' [] (groups mt)" by blast
  from sem obtain ind kw w tx where
    s: "whole mt @ s' = ind @ kw @ w @ tx" and "s' = []" and len: "length (whole mt @ s') = length l"
    and r: "\<forall>x \<in> set ind. isSpace x" "kw = ''Given'' \<or> kw = ''When'' \<or> kw = ''Then''" "w \<noteq> []"
      "\<forall>x \<in> set w. isSpace x" "\<forall>x \<in> set tx. \<not> isLineTerminator x"
    and g: "groups mt = [(3, tx), (2, kw), (1, ind)]" by (rule keyword_sem)
  from l len have "pre = []" by (rule whole_line)
  with l s have 1: "l = ind @ kw @ w @ tx" by simp
  from g have 2: "grp mt 1 = Some ind" "grp mt 2 = Some kw" "grp mt 3 = Some tx"
    by (simp_all add: grp_def)
  from 1 r 2 show thesis by (rule that)
qed

lemma reset_shape:
  assumes "js_test False resetRx l"
  obtains ind kw t where "l = ind @ kw @ t" "\<forall>x \<in> set ind. isSpace x"
     "kw = ''Scenario'' \<or> kw = ''Background'' \<or> kw = ''Feature'' \<or> kw = ''Examples'' \<or> kw = ''Rule''"
proof -
  from assms obtain mt where mt: "js_match False resetRx l = Some mt"
    by (auto simp: js_test_def)
  from js_match_sound [OF mt] obtain pre s' where l: "l = pre @ whole mt @ s'"
    and sem: "rx_sem False (length l) resetRx (whole mt @ s') s' [] (groups mt)" by blast
  from sem obtain ind kw where
    s: "whole mt @ s' = ind @ kw @ s'" and len: "length (whole mt @ s') = length l"
    and r: "\<forall>x \<in> set ind. isSpace x"
      "kw = ''Scenario'' \<or> kw = ''Background'' \<or> kw = ''Feature'' \<or> kw = ''Examples'' \<or> kw = ''Rule''"
    by (rule reset_sem)
  from l len have "pre = []" by (rule whole_line)
  with l s have "l = ind @ kw @ s'" by simp
  from this r show thesis by (rule that)
qed


text \<open>The first character that is not white space decides which pattern can accept a line.\<close>

lemma dropWhile_indent:
  "\<forall>x \<in> set ind. isSpace x \<Longrightarrow> \<not> isSpace k \<Longrightarrow> dropWhile isSpace (ind @ k # t) = k # t"
  by (induction ind) auto

lemma takeWhile_indent:
  "\<forall>x \<in> set ind. isSpace x \<Longrightarrow> \<not> isSpace k \<Longrightarrow> takeWhile isSpace (ind @ k # t) = ind"
  by (induction ind) auto

lemma letters_not_space:
  "\<not> isSpace (CHR ''A'')" "\<not> isSpace (CHR ''B'')" "\<not> isSpace (CHR ''G'')" "\<not> isSpace (CHR ''W'')"
  "\<not> isSpace (CHR ''T'')" "\<not> isSpace (CHR ''S'')" "\<not> isSpace (CHR ''F'')" "\<not> isSpace (CHR ''E'')"
  "\<not> isSpace (CHR ''R'')"
  by (simp_all add: isSpace_def)

lemma stripped:
  assumes "l = ind @ (k # kw) @ t" "\<forall>x \<in> set ind. isSpace x" "\<not> isSpace k"
  shows "dropWhile isSpace l = (k # kw) @ t" "takeWhile isSpace l = ind"
  using assms by (simp_all add: dropWhile_indent takeWhile_indent)

lemma andBut_stripped:
  assumes "js_match False andButRx l = Some mt"
  obtains w tx where "w \<noteq> []" "\<forall>x \<in> set w. isSpace x"
    "dropWhile isSpace l = ''And'' @ w @ tx \<or> dropWhile isSpace l = ''But'' @ w @ tx"
    "grp mt 1 = Some (takeWhile isSpace l)" "grp mt 3 = Some tx"
    "\<forall>x \<in> set tx. \<not> isLineTerminator x"
proof -
  from assms obtain ind kw w tx where
    l: "l = ind @ kw @ w @ tx" and ind: "\<forall>x \<in> set ind. isSpace x"
    and kw: "kw = ''And'' \<or> kw = ''But''" and w: "w \<noteq> []" "\<forall>x \<in> set w. isSpace x"
    and tx: "\<forall>x \<in> set tx. \<not> isLineTerminator x"
    and g: "grp mt 1 = Some ind" "grp mt 2 = Some kw" "grp mt 3 = Some tx" by (rule andBut_shape)
  from kw show thesis
  proof
    assume k: "kw = ''And''"
    from l k ind have "dropWhile isSpace l = ''And'' @ (w @ tx)" "takeWhile isSpace l = ind"
      by (simp_all add: stripped letters_not_space)
    with w g tx show thesis by (intro that [of w tx]) simp_all
  next
    assume k: "kw = ''But''"
    from l k ind have "dropWhile isSpace l = ''But'' @ (w @ tx)" "takeWhile isSpace l = ind"
      by (simp_all add: stripped letters_not_space)
    with w g tx show thesis by (intro that [of w tx]) simp_all
  qed
qed

lemma keyword_stripped:
  assumes "js_match False keywordRx l = Some mt"
  obtains t where "dropWhile isSpace l = ''Given'' @ t \<or> dropWhile isSpace l = ''When'' @ t \<or>
     dropWhile isSpace l = ''Then'' @ t"
proof -
  from assms obtain ind kw w tx where
    l: "l = ind @ kw @ w @ tx" and ind: "\<forall>x \<in> set ind. isSpace x"
    and kw: "kw = ''Given'' \<or> kw = ''When'' \<or> kw = ''Then''" and w: "w \<noteq> []" "\<forall>x \<in> set w. isSpace x"
    and tx: "\<forall>x \<in> set tx. \<not> isLineTerminator x"
    and g: "grp mt 1 = Some ind" "grp mt 2 = Some kw" "grp mt 3 = Some tx" by (rule keyword_shape)
  from kw show thesis
  proof (elim disjE)
    assume "kw = ''Given''"
    with l ind have "dropWhile isSpace l = ''Given'' @ (w @ tx)"
      by (simp add: stripped letters_not_space)
    then show thesis by (intro that [of "w @ tx"]) simp
  next
    assume "kw = ''When''"
    with l ind have "dropWhile isSpace l = ''When'' @ (w @ tx)"
      by (simp add: stripped letters_not_space)
    then show thesis by (intro that [of "w @ tx"]) simp
  next
    assume "kw = ''Then''"
    with l ind have "dropWhile isSpace l = ''Then'' @ (w @ tx)"
      by (simp add: stripped letters_not_space)
    then show thesis by (intro that [of "w @ tx"]) simp
  qed
qed

lemma reset_stripped:
  assumes "js_test False resetRx l"
  obtains t where "dropWhile isSpace l = ''Scenario'' @ t \<or> dropWhile isSpace l = ''Background'' @ t \<or>
     dropWhile isSpace l = ''Feature'' @ t \<or> dropWhile isSpace l = ''Examples'' @ t \<or>
     dropWhile isSpace l = ''Rule'' @ t"
proof -
  from assms obtain ind kw t where
    l: "l = ind @ kw @ t" and ind: "\<forall>x \<in> set ind. isSpace x"
    and kw: "kw = ''Scenario'' \<or> kw = ''Background'' \<or> kw = ''Feature'' \<or> kw = ''Examples'' \<or> kw = ''Rule''"
    by (rule reset_shape)
  from kw show thesis
  proof (elim disjE)
    assume "kw = ''Scenario''"
    with l ind have "dropWhile isSpace l = ''Scenario'' @ t"
      by (simp add: stripped letters_not_space)
    then show thesis by (intro that [of t]) simp
  next
    assume "kw = ''Background''"
    with l ind have "dropWhile isSpace l = ''Background'' @ t"
      by (simp add: stripped letters_not_space)
    then show thesis by (intro that [of t]) simp
  next
    assume "kw = ''Feature''"
    with l ind have "dropWhile isSpace l = ''Feature'' @ t"
      by (simp add: stripped letters_not_space)
    then show thesis by (intro that [of t]) simp
  next
    assume "kw = ''Examples''"
    with l ind have "dropWhile isSpace l = ''Examples'' @ t"
      by (simp add: stripped letters_not_space)
    then show thesis by (intro that [of t]) simp
  next
    assume "kw = ''Rule''"
    with l ind have "dropWhile isSpace l = ''Rule'' @ t"
      by (simp add: stripped letters_not_space)
    then show thesis by (intro that [of t]) simp
  qed
qed

lemma andBut_not_keyword:
  assumes "js_match False andButRx l = Some mt"
  shows "js_match False keywordRx l = None"
proof (cases "js_match False keywordRx l")
  case None
  then show ?thesis .
next
  case (Some mk)
  from Some obtain t where
    k: "dropWhile isSpace l = ''Given'' @ t \<or> dropWhile isSpace l = ''When'' @ t \<or>
        dropWhile isSpace l = ''Then'' @ t" by (rule keyword_stripped)
  from assms obtain w t' where
    a: "dropWhile isSpace l = ''And'' @ w @ t' \<or> dropWhile isSpace l = ''But'' @ w @ t'"
    by (rule andBut_stripped)
  from k a have False by auto
  then show ?thesis ..
qed

lemma andBut_not_reset:
  assumes "js_match False andButRx l = Some mt"
  shows "\<not> js_test False resetRx l"
proof
  assume "js_test False resetRx l"
  then obtain t where
    k: "dropWhile isSpace l = ''Scenario'' @ t \<or> dropWhile isSpace l = ''Background'' @ t \<or>
     dropWhile isSpace l = ''Feature'' @ t \<or> dropWhile isSpace l = ''Examples'' @ t \<or>
     dropWhile isSpace l = ''Rule'' @ t" by (rule reset_stripped)
  from assms obtain w t' where
    a: "dropWhile isSpace l = ''And'' @ w @ t' \<or> dropWhile isSpace l = ''But'' @ w @ t'"
    by (rule andBut_stripped)
  from k a show False by auto
qed

lemma andBut_begins:
  assumes "js_match False andButRx l = Some mt"
  shows "beginsAndButWs l"
proof -
  from assms obtain w t where w: "w \<noteq> []" "\<forall>x \<in> set w. isSpace x"
    and a: "dropWhile isSpace l = ''And'' @ w @ t \<or> dropWhile isSpace l = ''But'' @ w @ t"
    by (rule andBut_stripped)
  from w obtain c w' where c: "w = c # w'" "isSpace c" by (cases w) auto
  from a show ?thesis
  proof
    assume "dropWhile isSpace l = ''And'' @ w @ t"
    with c show ?thesis by (simp add: beginsAndButWs_def)
  next
    assume "dropWhile isSpace l = ''But'' @ w @ t"
    with c show ?thesis by (simp add: beginsAndButWs_def)
  qed
qed



lemma splitOnAcc_nonempty: "splitOnAcc d acc s \<noteq> []"
  by (induction s arbitrary: acc) auto

lemma splitOnAcc_no_sep: "d \<notin> set acc \<Longrightarrow> \<forall>l \<in> set (splitOnAcc d acc s). d \<notin> set l"
proof (induction s arbitrary: acc)
  case Nil
  then show ?case by simp
next
  case (Cons a s)
  show ?case
  proof (cases "a = d")
    case True
    have "\<forall>l \<in> set (splitOnAcc d [] s). d \<notin> set l" by (rule Cons.IH) simp
    with True Cons.prems show ?thesis by simp
  next
    case False
    with Cons.prems have "d \<notin> set (a # acc)" by simp
    then have "\<forall>l \<in> set (splitOnAcc d (a # acc) s). d \<notin> set l" by (rule Cons.IH)
    with False show ?thesis by simp
  qed
qed

lemma splitOnAcc_append: "d \<notin> set l \<Longrightarrow> splitOnAcc d acc (l @ t) = splitOnAcc d (rev l @ acc) t"
  by (induction l arbitrary: acc) auto

lemma splitOnAcc_join:
  "\<forall>l \<in> set (l0 # ls). d \<notin> set l \<Longrightarrow> splitOnAcc d acc (join [d] (l0 # ls)) = (rev acc @ l0) # ls"
proof (induction ls arbitrary: l0 acc)
  case Nil
  then have "splitOnAcc d acc (l0 @ []) = splitOnAcc d (rev l0 @ acc) []"
    by (intro splitOnAcc_append) simp
  then show ?case by simp
next
  case (Cons l1 ls)
  then have 0: "d \<notin> set l0" and 1: "\<forall>l \<in> set (l1 # ls). d \<notin> set l" by simp_all
  have "splitOnAcc d acc (join [d] (l0 # l1 # ls)) = splitOnAcc d acc (l0 @ (d # join [d] (l1 # ls)))"
    by simp
  also have "\<dots> = splitOnAcc d (rev l0 @ acc) (d # join [d] (l1 # ls))"
    using 0 by (rule splitOnAcc_append)
  also have "\<dots> = (rev acc @ l0) # splitOnAcc d [] (join [d] (l1 # ls))" by simp
  also have "splitOnAcc d [] (join [d] (l1 # ls)) = l1 # ls"
    using Cons.IH [OF 1, of "[]"] by simp
  finally show ?case .
qed

lemma splitOn_join: "ls \<noteq> [] \<Longrightarrow> \<forall>l \<in> set ls. d \<notin> set l \<Longrightarrow> splitOn d (join [d] ls) = ls"
  by (cases ls) (simp_all add: splitOn_def splitOnAcc_join del: join.simps)

lemma splitOn_lines: "splitOn d s \<noteq> []" "\<forall>l \<in> set (splitOn d s). d \<notin> set l"
proof -
  show "splitOn d s \<noteq> []" by (simp add: splitOn_def splitOnAcc_nonempty)
  have "d \<notin> set ([]::string)" by simp
  then have "\<forall>l \<in> set (splitOnAcc d [] s). d \<notin> set l" by (rule splitOnAcc_no_sep)
  then show "\<forall>l \<in> set (splitOn d s). d \<notin> set l" by (simp add: splitOn_def)
qed


lemma convertLine_step:
  obtains x kw' n' where "convertLine l (kw, out, n) = (kw', out @ [x], n')"
    "js_match False andButRx l = None \<longrightarrow> x = l"
    "nl \<notin> set l \<and> nl \<notin> set kw \<longrightarrow> nl \<notin> set x"
    "nl \<notin> set kw \<longrightarrow> nl \<notin> set kw'"
proof (cases "js_match False keywordRx l")
  case (Some mk)
  from Some obtain ind kwd w tx where "kwd = ''Given'' \<or> kwd = ''When'' \<or> kwd = ''Then''"
    "grp mk 2 = Some kwd" by (rule keyword_shape)
  then have "nl \<notin> set (tpl (grp mk 2))" by (auto simp: tpl_def)
  moreover from Some have "convertLine l (kw, out, n) = (tpl (grp mk 2), out @ [l], n)"
    by (simp add: convertLine_def)
  ultimately show thesis by (intro that [of "tpl (grp mk 2)" l n]) simp_all
next
  case None
  show thesis
  proof (cases "js_match False andButRx l")
    case nab: None
    with None have "convertLine l (kw, out, n)
        = ((if js_test False resetRx l then [] else kw), out @ [l], n)"
      by (simp add: convertLine_def copyLine_def)
    then show thesis by (intro that [of "if js_test False resetRx l then [] else kw" l n]) simp_all
  next
    case (Some ma)
    show thesis
    proof (cases "kw = []")
      case True
      with None Some have "convertLine l (kw, out, n)
          = ((if js_test False resetRx l then [] else kw), out @ [l], n)"
        by (simp add: convertLine_def copyLine_def)
      then show thesis
        using Some by (intro that [of "if js_test False resetRx l then [] else kw" l n]) simp_all
    next
      case False
      from Some obtain ind kwd w tx where l: "l = ind @ kwd @ w @ tx"
        and g: "grp ma 1 = Some ind" "grp ma 3 = Some tx" by (rule andBut_shape)
      from None Some False g have "convertLine l (kw, out, n)
          = (kw, out @ [ind @ kw @ '' '' @ tx], n + 1)"
        by (simp add: convertLine_def tpl_def)
      then show thesis
        using Some l by (intro that [of kw "ind @ kw @ '' '' @ tx" "n + 1"]) simp_all
    qed
  qed
qed

lemma convertLines_fold:
  assumes "nl \<notin> set kw" "\<forall>l \<in> set ls. nl \<notin> set l"
  shows "\<exists>kw' out' n'. fold convertLine ls (kw, out, n) = (kw', out @ out', n') \<and>
    length out' = length ls \<and>
    (\<forall>i < length ls. js_match False andButRx (ls ! i) = None \<longrightarrow> out' ! i = ls ! i) \<and>
    (\<forall>x \<in> set out'. nl \<notin> set x)"
  using assms
proof (induction ls arbitrary: kw out n)
  case Nil
  show ?case by (intro exI [of _ kw] exI [of _ "[]"] exI [of _ n]) simp
next
  case (Cons l ls)
  obtain x kw1 n1 where
    1: "convertLine l (kw, out, n) = (kw1, out @ [x], n1)"
    and 2: "js_match False andButRx l = None \<longrightarrow> x = l"
    and 3: "nl \<notin> set l \<and> nl \<notin> set kw \<longrightarrow> nl \<notin> set x"
    and 4: "nl \<notin> set kw \<longrightarrow> nl \<notin> set kw1" by (rule convertLine_step)
  from Cons.prems 3 4 have k1: "nl \<notin> set kw1" and x: "nl \<notin> set x"
    and ls: "\<forall>l \<in> set ls. nl \<notin> set l" by simp_all
  from Cons.IH [OF k1 ls, of "out @ [x]" n1] obtain kw' out' n' where
    5: "fold convertLine ls (kw1, out @ [x], n1) = (kw', (out @ [x]) @ out', n')"
    and 6: "length out' = length ls"
    and 7: "\<forall>i < length ls. js_match False andButRx (ls ! i) = None \<longrightarrow> out' ! i = ls ! i"
    and 8: "\<forall>x \<in> set out'. nl \<notin> set x" by blast
  have a: "fold convertLine (l # ls) (kw, out, n) = (kw', out @ (x # out'), n')"
    using 1 5 by simp
  have b: "length (x # out') = length (l # ls)" using 6 by simp
  have c: "\<forall>i < length (l # ls). js_match False andButRx ((l # ls) ! i) = None
      \<longrightarrow> (x # out') ! i = (l # ls) ! i"
  proof (intro allI impI)
    fix i assume i: "i < length (l # ls)" and m: "js_match False andButRx ((l # ls) ! i) = None"
    show "(x # out') ! i = (l # ls) ! i"
    proof (cases i)
      case 0
      with m 2 show ?thesis by simp
    next
      case (Suc j)
      with i m 7 show ?thesis by simp
    qed
  qed
  have d: "\<forall>y \<in> set (x # out'). nl \<notin> set y" using x 8 by simp
  from a b c d show ?case
    by (intro exI [of _ kw'] exI [of _ "x # out'"] exI [of _ n']) (intro conjI)
qed

lemma convertFeatureContent_lines:
  obtains kw' out' n' where "convertLines (splitOn nl text) = (kw', out', n')"
    "convertFeatureContent text = (join [nl] out', n')"
    "splitOn nl (join [nl] out') = out'"
    "length out' = length (splitOn nl text)"
    "\<forall>i < length (splitOn nl text).
       js_match False andButRx (splitOn nl text ! i) = None \<longrightarrow> out' ! i = splitOn nl text ! i"
proof -
  have "nl \<notin> set ([]::string)" by simp
  from convertLines_fold [where kw = "[]" and ls = "splitOn nl text" and out = "[]" and n = 0,
      OF this splitOn_lines(2)]
  obtain kw' out' n' where
    1: "fold convertLine (splitOn nl text) ([], [], 0) = (kw', [] @ out', n')"
    and 2: "length out' = length (splitOn nl text)"
    and 3: "\<forall>i < length (splitOn nl text).
       js_match False andButRx (splitOn nl text ! i) = None \<longrightarrow> out' ! i = splitOn nl text ! i"
    and 4: "\<forall>x \<in> set out'. nl \<notin> set x" by blast
  from 1 have a: "convertLines (splitOn nl text) = (kw', out', n')"
    by (simp add: convertLines_def)
  then have b: "convertFeatureContent text = (join [nl] out', n')"
    by (simp add: convertFeatureContent_def)
  from 2 splitOn_lines(1) [of nl "text"] have "out' \<noteq> []" by auto
  from this 4 have c: "splitOn nl (join [nl] out') = out'" by (rule splitOn_join)
  from a b c 2 3 show thesis by (rule that)
qed


subsection \<open>The frame of the feature conversion\<close>

lemma example_feature_lines:
  "splitOn nl (''Feature: f'' @ [nl] @ ''  When a'' @ [nl] @ ''  And b'')
     = [''Feature: f'', ''  When a'', ''  And b'']"
  by (simp add: splitOn_def)

text \<open>
  Claim C10 as stated fails.  The pattern for the continuation lines is
  \<^verbatim>\<open>/^(\s*)(And|But)\s+(.*)$/\<close>: the keyword may be followed by any white space, not only by
  a space.  In the text of the two lines \<^verbatim>\<open>When a\<close> and \<^verbatim>\<open>And<TAB>b\<close> the second line does
  not begin with \<^verbatim>\<open>And\<close> followed by a space, and it is rewritten to \<^verbatim>\<open>When b\<close>.
\<close>

theorem C10_frame_counterexample:
  "splitOn nl (''When a'' @ [nl] @ ''And'' @ [CHR 0x09] @ ''b'') ! 1 = ''And'' @ [CHR 0x09] @ ''b''
   \<and> \<not> beginsAndButSpace (''And'' @ [CHR 0x09] @ ''b'')
   \<and> splitOn nl (fst (convertFeatureContent (''When a'' @ [nl] @ ''And'' @ [CHR 0x09] @ ''b''))) ! 1
       = ''When b''"
  by (simp add: convertFeatureContent_def convertLines_def convertLine_def copyLine_def
      keywordRx_def andButRx_def resetRx_def beginsAndButSpace_def 
      char_eval rx_eval str_eval split del: if_split)

text \<open>
  Claim C10, with the lines that may be rewritten read as the code does: for every input text
  the output of \<^verbatim>\<open>convertFeatureContent\<close> has as many lines as the input, and every line that
  does not begin, after optional white space, with \<^verbatim>\<open>And\<close> or \<^verbatim>\<open>But\<close> followed by a white
  space character is copied to the output at the same position, whatever the lines around it
  are.
\<close>

theorem C10_frame:
  "length (splitOn nl (fst (convertFeatureContent tx))) = length (splitOn nl tx) \<and>
   (\<forall>i < length (splitOn nl tx). \<not> beginsAndButWs (splitOn nl tx ! i) \<longrightarrow>
      splitOn nl (fst (convertFeatureContent tx)) ! i = splitOn nl tx ! i)"
proof -
  obtain kw' out' n' where c: "convertFeatureContent tx = (join [nl] out', n')"
    and s: "splitOn nl (join [nl] out') = out'"
    and l: "length out' = length (splitOn nl tx)"
    and u: "\<forall>i < length (splitOn nl tx).
       js_match False andButRx (splitOn nl tx ! i) = None \<longrightarrow> out' ! i = splitOn nl tx ! i"
    by (rule convertFeatureContent_lines)
  have "\<forall>i < length (splitOn nl tx). \<not> beginsAndButWs (splitOn nl tx ! i) \<longrightarrow>
      out' ! i = splitOn nl tx ! i"
  proof (intro allI impI)
    fix i assume i: "i < length (splitOn nl tx)" and b: "\<not> beginsAndButWs (splitOn nl tx ! i)"
    have "js_match False andButRx (splitOn nl tx ! i) = None"
    proof (cases "js_match False andButRx (splitOn nl tx ! i)")
      case None
      then show ?thesis .
    next
      case (Some ma)
      then have "beginsAndButWs (splitOn nl tx ! i)" by (rule andBut_begins)
      with b show ?thesis ..
    qed
    with u i show "out' ! i = splitOn nl tx ! i" by simp
  qed
  with c s l show ?thesis by simp
qed

theorem C10_frame_witness:
  "length (splitOn nl (fst (convertFeatureContent
       (''Feature: f'' @ [nl] @ ''  When a'' @ [nl] @ ''  And b'')))) = 3
   \<and> \<not> beginsAndButWs ''  When a''
   \<and> splitOn nl (fst (convertFeatureContent
       (''Feature: f'' @ [nl] @ ''  When a'' @ [nl] @ ''  And b''))) ! 1 = ''  When a''"
proof -
  note c = C10_frame [of "''Feature: f'' @ [nl] @ ''  When a'' @ [nl] @ ''  And b''"]
  have b: "\<not> beginsAndButWs ''  When a''"
    by (simp add: beginsAndButWs_def isSpace_def)
  from c have "length (splitOn nl (fst (convertFeatureContent
       (''Feature: f'' @ [nl] @ ''  When a'' @ [nl] @ ''  And b'')))) = 3"
    by (simp only: example_feature_lines) simp
  moreover from c have "\<forall>i < 3. \<not> beginsAndButWs ([''Feature: f'', ''  When a'', ''  And b''] ! i) \<longrightarrow>
      splitOn nl (fst (convertFeatureContent
       (''Feature: f'' @ [nl] @ ''  When a'' @ [nl] @ ''  And b''))) ! i
        = [''Feature: f'', ''  When a'', ''  And b''] ! i"
    by (simp only: example_feature_lines) simp
  then have "\<not> beginsAndButWs ([''Feature: f'', ''  When a'', ''  And b''] ! 1) \<longrightarrow>
      splitOn nl (fst (convertFeatureContent
       (''Feature: f'' @ [nl] @ ''  When a'' @ [nl] @ ''  And b''))) ! 1
        = [''Feature: f'', ''  When a'', ''  And b''] ! 1" by (simp del: One_nat_def)
  with b have "splitOn nl (fst (convertFeatureContent
       (''Feature: f'' @ [nl] @ ''  When a'' @ [nl] @ ''  And b''))) ! 1 = ''  When a''" by simp
  ultimately show ?thesis using b by (intro conjI)
qed


subsection \<open>The keyword a continuation line inherits\<close>

text \<open>
  The matcher tries the longest run of a quantified class first, so on a line made of an
  indentation, a keyword, white space and a text that does not start with white space the
  three groups are exactly the indentation, the keyword and the text.
\<close>

lemma greedy_longest:
  assumes "\<forall>x \<in> set u. p x" "s' = [] \<or> \<not> p (hd s')" "k s' = Some r"
  shows "greedy p k (u @ s') = Some r"
  using assms
proof (induction u)
  case Nil
  then show ?case by (cases s') auto
next
  case (Cons x u)
  then show ?case by simp
qed

lemma scan_here:
  assumes "m ci n r s [] (\<lambda>s' c. Some (s', c)) = Some (s', c)"
  shows "scan ci n r i s = Some \<lparr>index = i, whole = take (length s - length s') s, groups = c\<rparr>"
proof (cases s)
  case Nil
  with assms have "m ci n r [] [] (\<lambda>s' c. Some (s', c)) = Some (s', c)" by simp
  then have "scan ci n r i [] = Some \<lparr>index = i, whole = [], groups = c\<rparr>" by simp
  with Nil show ?thesis by simp
next
  case (Cons x t)
  with assms have "m ci n r (x # t) [] (\<lambda>s' c. Some (s', c)) = Some (s', c)" by simp
  then have "scan ci n r i (x # t)
    = Some \<lparr>index = i, whole = take (length (x # t) - length s') (x # t), groups = c\<rparr>" by simp
  with Cons show ?thesis by simp
qed

lemma step_line_match:
  fixes A :: rx
  assumes A: "\<And>(k :: string \<Rightarrow> captures \<Rightarrow> (string \<times> captures) option) X c n.
      m False n A (kw @ X) c k = k X c"
    and kw: "kw \<noteq> []" "\<not> isSpace (hd kw)"
    and ind: "\<forall>x \<in> set ind. isSpace x"
    and W: "W \<noteq> []" "\<forall>x \<in> set W. isSpace x"
    and T: "\<forall>x \<in> set T. \<not> isLineTerminator x" "T = [] \<or> \<not> isSpace (hd T)"
  shows "js_match False (cat [Bol, Grp 1 (Star ws), Grp 2 A, Plus ws, Grp 3 (Star Dot), Eol])
           (ind @ kw @ W @ T)
         = Some \<lparr>index = 0, whole = ind @ kw @ W @ T, groups = [(3, T), (2, kw), (1, ind)]\<rparr>"
proof -
  let ?K = "\<lambda>(s' :: string) (c :: captures). Some (s', c)"
  let ?n = "length (ind @ kw @ W @ T)"
  let ?R5 = "Seq Eol (Chars [])"
  let ?R4 = "Seq (Grp 3 (Star Dot)) ?R5"
  let ?R3 = "Seq (Plus ws) ?R4"
  let ?R2 = "Seq (Grp 2 A) ?R3"
  let ?R1 = "Seq (Grp 1 (Star ws)) ?R2"
  have 5: "m False ?n ?R5 [] c ?K = Some ([], c)" for c by simp
  have 4: "m False ?n ?R4 T c ?K = Some ([], (3, T) # c)" for c
  proof -
    have "greedy (in_cls False Dot)
        (\<lambda>s'. m False ?n ?R5 s' ((3, take (length T - length s') T) # c) ?K) (T @ [])
        = Some ([], (3, T) # c)"
      using T(1) by (intro greedy_longest) simp_all
    then show ?thesis by simp
  qed
  have 3: "m False ?n ?R3 (W @ T) c ?K = Some ([], (3, T) # c)" for c
  proof -
    from W obtain w0 W' where w: "W = w0 # W'" "isSpace w0" "\<forall>x \<in> set W'. isSpace x"
      by (cases W) auto
    have "greedy (in_cls False ws) (\<lambda>s'. m False ?n ?R4 s' c ?K) (W' @ T) = Some ([], (3, T) # c)"
      using w(3) T(2) 4 [of c] by (intro greedy_longest) simp_all
    with w show ?thesis by simp
  qed
  have 2: "m False ?n ?R2 (kw @ W @ T) c ?K = Some ([], (3, T) # (2, kw) # c)" for c
  proof -
    have "m False ?n ?R2 (kw @ W @ T) c ?K
      = m False ?n A (kw @ W @ T) c
          (\<lambda>s' c'. m False ?n ?R3 s' ((2, take (length (kw @ W @ T) - length s') (kw @ W @ T)) # c') ?K)"
      by simp
    also have "\<dots> = (\<lambda>s' c'. m False ?n ?R3 s'
          ((2, take (length (kw @ W @ T) - length s') (kw @ W @ T)) # c') ?K) (W @ T) c"
      by (rule A)
    also have "\<dots> = m False ?n ?R3 (W @ T) ((2, kw) # c) ?K" by (simp del: m.simps)
    also have "\<dots> = Some ([], (3, T) # (2, kw) # c)" by (rule 3)
    finally show ?thesis .
  qed
  have 1: "m False ?n ?R1 (ind @ kw @ W @ T) [] ?K = Some ([], [(3, T), (2, kw), (1, ind)])"
  proof -
    from kw have h: "kw @ W @ T = [] \<or> \<not> isSpace (hd (kw @ W @ T))" by (cases kw) auto
    have "greedy (in_cls False ws)
        (\<lambda>s'. m False ?n ?R2 s'
           [(1, take (length (ind @ kw @ W @ T) - length s') (ind @ kw @ W @ T))] ?K)
        (ind @ kw @ W @ T) = Some ([], [(3, T), (2, kw), (1, ind)])"
    proof (rule greedy_longest)
      show "\<forall>x \<in> set ind. in_cls False ws x" using ind by simp
      show "kw @ W @ T = [] \<or> \<not> in_cls False ws (hd (kw @ W @ T))" using h by simp
      show "m False ?n ?R2 (kw @ W @ T)
         [(1, take (length (ind @ kw @ W @ T) - length (kw @ W @ T)) (ind @ kw @ W @ T))] ?K
         = Some ([], [(3, T), (2, kw), (1, ind)])"
        using 2 [of "[(1, ind)]"] by simp
    qed
    then show ?thesis by simp
  qed
  have "m False ?n (cat [Bol, Grp 1 (Star ws), Grp 2 A, Plus ws, Grp 3 (Star Dot), Eol])
      (ind @ kw @ W @ T) [] ?K = Some ([], [(3, T), (2, kw), (1, ind)])"
    using 1 by (simp add: cat_def)
  then have "scan False ?n (cat [Bol, Grp 1 (Star ws), Grp 2 A, Plus ws, Grp 3 (Star Dot), Eol]) 0
      (ind @ kw @ W @ T)
    = Some \<lparr>index = 0, whole = take (length (ind @ kw @ W @ T) - length ([]::string)) (ind @ kw @ W @ T),
        groups = [(3, T), (2, kw), (1, ind)]\<rparr>" by (rule scan_here)
  then show ?thesis by (simp add: js_match_def regex_exec_def)
qed

lemma andBut_alt:
  fixes k :: "string \<Rightarrow> captures \<Rightarrow> (string \<times> captures) option"
  assumes "kw = ''And'' \<or> kw = ''But''"
  shows "m False n (alts [Chars ''And'', Chars ''But'']) (kw @ X) c k = k X c"
  using assms
proof
  assume "kw = ''And''"
  then show ?thesis by (cases "k X c") (simp_all add: alts_def canon_False)
next
  assume "kw = ''But''"
  then show ?thesis by (simp add: alts_def canon_False)
qed

lemma andBut_match_exact:
  assumes "\<forall>x \<in> set ind. isSpace x" "kw = ''And'' \<or> kw = ''But''" "W \<noteq> []"
    "\<forall>x \<in> set W. isSpace x" "\<forall>x \<in> set T. \<not> isLineTerminator x" "T = [] \<or> \<not> isSpace (hd T)"
  shows "js_match False andButRx (ind @ kw @ W @ T)
         = Some \<lparr>index = 0, whole = ind @ kw @ W @ T, groups = [(3, T), (2, kw), (1, ind)]\<rparr>"
proof -
  from assms(2) have k: "kw \<noteq> []" "\<not> isSpace (hd kw)" by (auto simp: isSpace_def)
  show ?thesis unfolding andButRx_def
    by (rule step_line_match [OF andBut_alt [OF assms(2)] k assms(1) assms(3-6)])
qed


lemma keyword_alt:
  fixes k :: "string \<Rightarrow> captures \<Rightarrow> (string \<times> captures) option"
  assumes "K = ''Given'' \<or> K = ''When'' \<or> K = ''Then''"
  shows "m False n (alts [Chars ''Given'', Chars ''When'', Chars ''Then'']) (K @ X) c k = k X c"
  using assms
proof (elim disjE)
  assume "K = ''Given''"
  then show ?thesis by (cases "k X c") (simp_all add: alts_def canon_False)
next
  assume "K = ''When''"
  then show ?thesis by (cases "k X c") (simp_all add: alts_def canon_False)
next
  assume "K = ''Then''"
  then show ?thesis by (simp add: alts_def canon_False)
qed

lemma keyword_match_exact:
  assumes "\<forall>x \<in> set ind. isSpace x" "K = ''Given'' \<or> K = ''When'' \<or> K = ''Then''" "W \<noteq> []"
    "\<forall>x \<in> set W. isSpace x" "\<forall>x \<in> set T. \<not> isLineTerminator x" "T = [] \<or> \<not> isSpace (hd T)"
  shows "js_match False keywordRx (ind @ K @ W @ T)
         = Some \<lparr>index = 0, whole = ind @ K @ W @ T, groups = [(3, T), (2, K), (1, ind)]\<rparr>"
proof -
  from assms(2) have k: "K \<noteq> []" "\<not> isSpace (hd K)" by (auto simp: isSpace_def)
  show ?thesis unfolding keywordRx_def
    by (rule step_line_match [OF keyword_alt [OF assms(2)] k assms(1) assms(3-6)])
qed

lemma reset_not_keyword:
  assumes "js_test False resetRx l"
  shows "js_match False keywordRx l = None"
proof (cases "js_match False keywordRx l")
  case None
  then show ?thesis .
next
  case (Some mk)
  from Some obtain t where
    k: "dropWhile isSpace l = ''Given'' @ t \<or> dropWhile isSpace l = ''When'' @ t \<or>
        dropWhile isSpace l = ''Then'' @ t" by (rule keyword_stripped)
  from assms obtain t' where
    r: "dropWhile isSpace l = ''Scenario'' @ t' \<or> dropWhile isSpace l = ''Background'' @ t' \<or>
     dropWhile isSpace l = ''Feature'' @ t' \<or> dropWhile isSpace l = ''Examples'' @ t' \<or>
     dropWhile isSpace l = ''Rule'' @ t'" by (rule reset_stripped)
  from k r have False by auto
  then show ?thesis ..
qed

lemma reset_not_andBut:
  assumes "js_test False resetRx l"
  shows "js_match False andButRx l = None"
proof (cases "js_match False andButRx l")
  case None
  then show ?thesis .
next
  case (Some ma)
  then have "\<not> js_test False resetRx l" by (rule andBut_not_reset)
  with assms show ?thesis by simp
qed

lemma convertLine_keyword:
  "js_match False keywordRx l = Some mk \<Longrightarrow> grp mk 2 = Some K \<Longrightarrow>
   convertLine l (kw, out, n) = (K, out @ [l], n)"
  by (simp add: convertLine_def tpl_def)

lemma convertLine_reset:
  assumes "js_test False resetRx l"
  shows "convertLine l (kw, out, n) = ([], out @ [l], n)"
  using assms reset_not_keyword [OF assms] reset_not_andBut [OF assms]
  by (simp add: convertLine_def copyLine_def)

lemma convertLine_empty:
  assumes "js_match False keywordRx l = None"
  shows "convertLine l ([], out, n) = ([], out @ [l], n)"
  using assms by (simp add: convertLine_def copyLine_def split: option.splits)

lemma convertLine_other:
  assumes "js_match False keywordRx l = None" "\<not> js_test False resetRx l"
  shows "\<exists>x n'. convertLine l (kw, out, n) = (kw, out @ [x], n')"
  using assms by (simp add: convertLine_def copyLine_def split: option.splits)

lemma convertLine_andBut:
  assumes "\<forall>x \<in> set ind. isSpace x" "kw = ''And'' \<or> kw = ''But''" "W \<noteq> []"
    "\<forall>x \<in> set W. isSpace x" "\<forall>x \<in> set T. \<not> isLineTerminator x" "T = [] \<or> \<not> isSpace (hd T)"
    and K: "K \<noteq> []"
  shows "convertLine (ind @ kw @ W @ T) (K, out, n) = (K, out @ [ind @ K @ '' '' @ T], n + 1)"
proof -
  have a: "js_match False andButRx (ind @ kw @ W @ T)
         = Some \<lparr>index = 0, whole = ind @ kw @ W @ T, groups = [(3, T), (2, kw), (1, ind)]\<rparr>"
    using assms(1-6) by (rule andBut_match_exact)
  then have k: "js_match False keywordRx (ind @ kw @ W @ T) = None" by (rule andBut_not_keyword)
  from a k K show ?thesis by (simp add: convertLine_def tpl_def grp_def)
qed

lemma fold_any:
  "\<exists>kw' out' n'. fold convertLine ls (kw, out, n) = (kw', out @ out', n') \<and> length out' = length ls"
proof (induction ls arbitrary: kw out n)
  case Nil
  show ?case by simp
next
  case (Cons l ls)
  obtain x kw1 n1 where 1: "convertLine l (kw, out, n) = (kw1, out @ [x], n1)"
    by (rule convertLine_step)
  from Cons.IH [of kw1 "out @ [x]" n1] obtain kw' out' n' where
    2: "fold convertLine ls (kw1, out @ [x], n1) = (kw', (out @ [x]) @ out', n')"
    and 3: "length out' = length ls" by blast
  from 1 2 have "fold convertLine (l # ls) (kw, out, n) = (kw', out @ (x # out'), n')" by simp
  moreover from 3 have "length (x # out') = length (l # ls)" by simp
  ultimately show ?case by (intro exI [of _ kw'] exI [of _ "x # out'"] exI [of _ n'] conjI)
qed

lemma fold_keep:
  assumes "\<forall>l \<in> set mid. js_match False keywordRx l = None \<and> \<not> js_test False resetRx l"
  shows "\<exists>out' n'. fold convertLine mid (kw, out, n) = (kw, out @ out', n') \<and>
     length out' = length mid"
  using assms
proof (induction mid arbitrary: out n)
  case Nil
  show ?case by simp
next
  case (Cons l ls)
  from Cons.prems have "js_match False keywordRx l = None" "\<not> js_test False resetRx l" by simp_all
  then obtain x n1 where 1: "convertLine l (kw, out, n) = (kw, out @ [x], n1)"
    using convertLine_other [of l kw out n] by blast
  from Cons.prems have "\<forall>l \<in> set ls. js_match False keywordRx l = None \<and> \<not> js_test False resetRx l"
    by simp
  from Cons.IH [OF this, of "out @ [x]" n1] obtain out' n' where
    2: "fold convertLine ls (kw, out @ [x], n1) = (kw, (out @ [x]) @ out', n')"
    and 3: "length out' = length ls" by blast
  from 1 2 have "fold convertLine (l # ls) (kw, out, n) = (kw, out @ (x # out'), n')" by simp
  moreover from 3 have "length (x # out') = length (l # ls)" by simp
  ultimately show ?case by (intro exI [of _ "x # out'"] exI [of _ n'] conjI)
qed

lemma fold_empty:
  assumes "\<forall>l \<in> set mid. js_match False keywordRx l = None"
  shows "fold convertLine mid ([], out, n) = ([], out @ mid, n)"
  using assms
proof (induction mid arbitrary: out)
  case Nil
  show ?case by simp
next
  case (Cons l ls)
  then show ?case by (simp add: convertLine_empty)
qed

lemma fold_scope_empty:
  assumes "pre = [] \<or> js_test False resetRx (last pre)"
  shows "\<exists>out1 n1. fold convertLine pre ([], [], 0) = ([], out1, n1) \<and> length out1 = length pre"
  using assms
proof
  assume "pre = []"
  then show ?thesis by simp
next
  assume r: "js_test False resetRx (last pre)"
  show ?thesis
  proof (cases pre rule: rev_cases)
    case Nil
    then show ?thesis by simp
  next
    case (snoc ys y)
    obtain kw1 out1 n1 where 1: "fold convertLine ys ([], [], 0) = (kw1, [] @ out1, n1)"
      and 2: "length out1 = length ys" using fold_any [of ys "[]" "[]" 0] by blast
    from r snoc have "js_test False resetRx y" by simp
    then have "convertLine y (kw1, out1, n1) = ([], out1 @ [y], n1)" by (rule convertLine_reset)
    with 1 snoc have "fold convertLine pre ([], [], 0) = ([], out1 @ [y], n1)" by simp
    moreover from 2 snoc have "length (out1 @ [y]) = length pre" by simp
    ultimately show ?thesis by (intro exI conjI)
  qed
qed

lemma convertFeatureContent_out:
  assumes "convertLines (splitOn nl tx) = (kw', out', n')"
  shows "splitOn nl (fst (convertFeatureContent tx)) = out'"
proof -
  obtain kw2 out2 n2 where 1: "convertLines (splitOn nl tx) = (kw2, out2, n2)"
    and 2: "convertFeatureContent tx = (join [nl] out2, n2)"
    and 3: "splitOn nl (join [nl] out2) = out2"
    by (rule convertFeatureContent_lines)
  from 1 assms have "out2 = out'" by simp
  with 2 3 show ?thesis by simp
qed


text \<open>
  On a text without carriage returns the conversion does what its header says.  Let a line
  consist of an indentation \<open>ind\<close>, the keyword \<^verbatim>\<open>And\<close> or \<^verbatim>\<open>But\<close>, white space \<open>W\<close> and a step
  text \<open>T\<close> without line terminator, such as \<^verbatim>\<open>And user clicks Save\<close>.  If the nearest step
  keyword line before it consists of an indentation, the keyword \<open>K\<close> (such as \<^verbatim>\<open>When\<close>),
  white space and a text without line terminator, and no \<^verbatim>\<open>Scenario\<close>, \<^verbatim>\<open>Background\<close>,
  \<^verbatim>\<open>Feature\<close>, \<^verbatim>\<open>Examples\<close> or \<^verbatim>\<open>Rule\<close> line lies between the two, the line is converted to
  \<open>ind\<close>, \<open>K\<close>, one space and \<open>T\<close>.  If no step keyword line comes before it since the
  start of the file or since the last such heading line, the line is copied unchanged.
\<close>

lemma and_but_inherits_keyword:
  assumes "\<forall>x \<in> set ind. isSpace x" "kw = ''And'' \<or> kw = ''But''" "W \<noteq> []"
    "\<forall>x \<in> set W. isSpace x" "\<forall>x \<in> set T. \<not> isLineTerminator x" "T = [] \<or> \<not> isSpace (hd T)"
  shows "(splitOn nl tx = pre @ (ind' @ K @ W' @ T') # mid @ (ind @ kw @ W @ T) # post \<and>
          (\<forall>x \<in> set ind'. isSpace x) \<and> (K = ''Given'' \<or> K = ''When'' \<or> K = ''Then'') \<and>
          W' \<noteq> [] \<and> (\<forall>x \<in> set W'. isSpace x) \<and> (\<forall>x \<in> set T'. \<not> isLineTerminator x) \<and>
          (T' = [] \<or> \<not> isSpace (hd T')) \<and>
          (\<forall>l \<in> set mid. js_match False keywordRx l = None \<and> \<not> js_test False resetRx l)
          \<longrightarrow> splitOn nl (fst (convertFeatureContent tx)) ! (length pre + 1 + length mid)
                = ind @ K @ '' '' @ T)
       \<and> (splitOn nl tx = pre @ mid @ (ind @ kw @ W @ T) # post \<and>
          (pre = [] \<or> js_test False resetRx (last pre)) \<and>
          (\<forall>l \<in> set mid. js_match False keywordRx l = None)
          \<longrightarrow> splitOn nl (fst (convertFeatureContent tx)) ! (length pre + length mid)
                = ind @ kw @ W @ T)"
proof (intro conjI impI)
  let ?wl = "ind' @ K @ W' @ T'"
  assume a: "splitOn nl tx = pre @ ?wl # mid @ (ind @ kw @ W @ T) # post \<and>
          (\<forall>x \<in> set ind'. isSpace x) \<and> (K = ''Given'' \<or> K = ''When'' \<or> K = ''Then'') \<and>
          W' \<noteq> [] \<and> (\<forall>x \<in> set W'. isSpace x) \<and> (\<forall>x \<in> set T'. \<not> isLineTerminator x) \<and>
          (T' = [] \<or> \<not> isSpace (hd T')) \<and>
          (\<forall>l \<in> set mid. js_match False keywordRx l = None \<and> \<not> js_test False resetRx l)"
  then have ls: "splitOn nl tx = pre @ ?wl # mid @ (ind @ kw @ W @ T) # post"
    and w: "\<forall>x \<in> set ind'. isSpace x" "K = ''Given'' \<or> K = ''When'' \<or> K = ''Then''" "W' \<noteq> []"
      "\<forall>x \<in> set W'. isSpace x" "\<forall>x \<in> set T'. \<not> isLineTerminator x" "T' = [] \<or> \<not> isSpace (hd T')"
    and mid: "\<forall>l \<in> set mid. js_match False keywordRx l = None \<and> \<not> js_test False resetRx l"
    by blast+
  let ?mw = "\<lparr>index = 0, whole = ?wl, groups = [(3, T'), (2, K), (1, ind')]\<rparr>"
  from w have mw: "js_match False keywordRx ?wl = Some ?mw" by (rule keyword_match_exact)
  have K: "grp ?mw 2 = Some K" by (simp add: grp_def)
  from w(2) have K0: "K \<noteq> []" by auto
  obtain kw1 out1 n1 where 1: "fold convertLine pre ([], [], 0) = (kw1, [] @ out1, n1)"
    and l1: "length out1 = length pre" using fold_any [of pre "[]" "[]" 0] by blast
  from mw K have 2: "convertLine ?wl (kw1, out1, n1) = (K, out1 @ [?wl], n1)"
    by (rule convertLine_keyword)
  from fold_keep [OF mid, of K "out1 @ [?wl]" n1] obtain out2 n2 where
    3: "fold convertLine mid (K, out1 @ [?wl], n1) = (K, (out1 @ [?wl]) @ out2, n2)"
    and l2: "length out2 = length mid" by blast
  have 4: "convertLine (ind @ kw @ W @ T) (K, (out1 @ [?wl]) @ out2, n2)
      = (K, ((out1 @ [?wl]) @ out2) @ [ind @ K @ '' '' @ T], n2 + 1)"
    using assms K0 by (rule convertLine_andBut)
  obtain kw3 out3 n3 where
    5: "fold convertLine post (K, ((out1 @ [?wl]) @ out2) @ [ind @ K @ '' '' @ T], n2 + 1)
        = (kw3, (((out1 @ [?wl]) @ out2) @ [ind @ K @ '' '' @ T]) @ out3, n3)"
    using fold_any [of post K "((out1 @ [?wl]) @ out2) @ [ind @ K @ '' '' @ T]" "n2 + 1"] by blast
  from ls 1 2 3 4 5 have "convertLines (splitOn nl tx)
      = (kw3, (((out1 @ [?wl]) @ out2) @ [ind @ K @ '' '' @ T]) @ out3, n3)"
    by (simp add: convertLines_def)
  then have "splitOn nl (fst (convertFeatureContent tx))
      = (((out1 @ [?wl]) @ out2) @ [ind @ K @ '' '' @ T]) @ out3"
    by (rule convertFeatureContent_out)
  moreover have "((((out1 @ [?wl]) @ out2) @ [ind @ K @ '' '' @ T]) @ out3)
      ! (length pre + 1 + length mid) = ind @ K @ '' '' @ T"
    using l1 l2 by (simp add: nth_append)
  ultimately show "splitOn nl (fst (convertFeatureContent tx)) ! (length pre + 1 + length mid)
      = ind @ K @ '' '' @ T" by simp
next
  assume a: "splitOn nl tx = pre @ mid @ (ind @ kw @ W @ T) # post \<and>
          (pre = [] \<or> js_test False resetRx (last pre)) \<and>
          (\<forall>l \<in> set mid. js_match False keywordRx l = None)"
  then have ls: "splitOn nl tx = pre @ mid @ (ind @ kw @ W @ T) # post"
    and pre: "pre = [] \<or> js_test False resetRx (last pre)"
    and mid: "\<forall>l \<in> set mid. js_match False keywordRx l = None" by simp_all
  from fold_scope_empty [OF pre] obtain out1 n1 where
    1: "fold convertLine pre ([], [], 0) = ([], out1, n1)" and l1: "length out1 = length pre"
    by blast
  from mid have 2: "fold convertLine mid ([], out1, n1) = ([], out1 @ mid, n1)"
    by (rule fold_empty)
  have "js_match False andButRx (ind @ kw @ W @ T)
         = Some \<lparr>index = 0, whole = ind @ kw @ W @ T, groups = [(3, T), (2, kw), (1, ind)]\<rparr>"
    using assms by (rule andBut_match_exact)
  then have "js_match False keywordRx (ind @ kw @ W @ T) = None" by (rule andBut_not_keyword)
  then have 3: "convertLine (ind @ kw @ W @ T) ([], out1 @ mid, n1)
      = ([], (out1 @ mid) @ [ind @ kw @ W @ T], n1)" by (rule convertLine_empty)
  obtain kw3 out3 n3 where
    4: "fold convertLine post ([], (out1 @ mid) @ [ind @ kw @ W @ T], n1)
        = (kw3, ((out1 @ mid) @ [ind @ kw @ W @ T]) @ out3, n3)"
    using fold_any [of post "[]" "(out1 @ mid) @ [ind @ kw @ W @ T]" n1] by blast
  from ls 1 2 3 4 have "convertLines (splitOn nl tx)
      = (kw3, ((out1 @ mid) @ [ind @ kw @ W @ T]) @ out3, n3)"
    by (simp add: convertLines_def)
  then have "splitOn nl (fst (convertFeatureContent tx))
      = ((out1 @ mid) @ [ind @ kw @ W @ T]) @ out3"
    by (rule convertFeatureContent_out)
  moreover have "(((out1 @ mid) @ [ind @ kw @ W @ T]) @ out3) ! (length pre + length mid)
      = ind @ kw @ W @ T"
    using l1 by (simp add: nth_append)
  ultimately show "splitOn nl (fst (convertFeatureContent tx)) ! (length pre + length mid)
      = ind @ kw @ W @ T" by simp
qed

text \<open>
  Claim C6 fails on a text with Windows line ends.  \<^verbatim>\<open>content.split('\n')\<close> leaves the
  carriage return at the end of every line but the last, and neither \<^verbatim>\<open>/^(\s*)(Given|When|Then)\s+(.*)$/\<close>
  nor the pattern of the continuation lines accepts such a line: \<^verbatim>\<open>.\<close> does not match a
  carriage return and \<^verbatim>\<open>$\<close> is the end of the line.  In the text of the two lines
  \<^verbatim>\<open>When user opens form\<close> and \<^verbatim>\<open>And user clicks Save\<close>, separated by CR LF, the \<^verbatim>\<open>When\<close> line is
  not recognised, no keyword is remembered, and the \<^verbatim>\<open>And\<close> line stays as it is, with 0
  conversions.  The same two lines separated by LF alone are converted to
  \<^verbatim>\<open>When user clicks Save\<close>, with 1 conversion, as the header of the script promises for all
  \<^verbatim>\<open>And\<close>/\<^verbatim>\<open>But\<close> keywords.
\<close>

theorem C6_crlf_and_line_not_converted:
  "js_match False keywordRx (''When user opens form'' @ [CHR 0x0D]) = None \<and>
   convertFeatureContent (''When user opens form'' @ [CHR 0x0D, nl] @ ''And user clicks Save'')
     = (''When user opens form'' @ [CHR 0x0D, nl] @ ''And user clicks Save'', 0) \<and>
   convertFeatureContent (''When user opens form'' @ [nl] @ ''And user clicks Save'')
     = (''When user opens form'' @ [nl] @ ''When user clicks Save'', 1)"
  by (simp add: convertFeatureContent_def convertLines_def convertLine_def copyLine_def
      keywordRx_def andButRx_def resetRx_def char_eval rx_eval str_eval split del: if_split)

subsection \<open>The rewriters\<close>

text \<open>
  The loops over the matches of \<^verbatim>\<open>stepRegex\<close>, \<^verbatim>\<open>methodRegex\<close> and of the locator pattern
  end: every match of these patterns has at least one character, so \<^verbatim>\<open>lastIndex\<close> grows.
  Both rewriters therefore return for every input.
\<close>

lemma exec_loop_None:
  "regex_exec ci r s i = None \<Longrightarrow> exec_loop ci r s f i st = Some st"
  by (subst exec_loop.simps) simp

lemma exec_loop_Some:
  "regex_exec ci r s i = Some mt \<Longrightarrow> index mt + length (whole mt) = j \<Longrightarrow>
   exec_loop ci r s f i st = exec_loop ci r s f j (f mt st)"
  by (subst exec_loop.simps) auto



lemma processStep_absent:
  "\<not> js_test True (todoPattern (description st)) tsContent \<Longrightarrow>
   processStep st (tsContent, implementedCount, sts) = (tsContent, implementedCount, sts)"
  by (simp add: processStep_def)

lemma fold_processStep_absent:
  "\<forall>st \<in> set javaSteps. \<not> js_test True (todoPattern (description st)) tsContent \<Longrightarrow>
   fold processStep javaSteps (tsContent, implementedCount, sts) = (tsContent, implementedCount, sts)"
  by (induction javaSteps) (simp_all add: processStep_absent)

lemma java_example_first:
  \<open>regex_exec False stepRegex ''@When("user goes to x") public void f() { }'' 0
     = Some \<lparr>index = 0, whole = ''@When("user goes to x") public void f() {'',
         groups = [(3, []), (2, ''f''), (1, ''user goes to x'')]\<rparr>\<close>
  by (simp add: stepRegex_def rx_eval char_eval split del: if_split)

lemma java_example_rest:
  \<open>regex_exec False stepRegex ''@When("user goes to x") public void f() { }'' 41 = None\<close>
  by (simp add: stepRegex_def rx_eval char_eval split del: if_split)

lemma java_example_steps:
  \<open>parseJavaSteps ''@When("user goes to x") public void f() { }''
     = Some [\<lparr>description = ''user goes to x'', methodName = ''f'', params = [], body = []\<rparr>]\<close>
proof -
  have \<open>parseJavaSteps ''@When("user goes to x") public void f() { }''
    = exec_loop False stepRegex ''@When("user goes to x") public void f() { }''
        (parseStep ''@When("user goes to x") public void f() { }'') 41
        (parseStep ''@When("user goes to x") public void f() { }''
           \<lparr>index = 0, whole = ''@When("user goes to x") public void f() {'',
         groups = [(3, []), (2, ''f''), (1, ''user goes to x'')]\<rparr> [])\<close>
    unfolding parseJavaSteps_def by (rule exec_loop_Some [OF java_example_first]) simp
  also have \<open>\<dots> = Some (parseStep ''@When("user goes to x") public void f() { }''
           \<lparr>index = 0, whole = ''@When("user goes to x") public void f() {'',
         groups = [(3, []), (2, ''f''), (1, ''user goes to x'')]\<rparr> [])\<close>
    by (rule exec_loop_None [OF java_example_rest])
  also have \<open>parseStep ''@When("user goes to x") public void f() { }''
           \<lparr>index = 0, whole = ''@When("user goes to x") public void f() {'',
         groups = [(3, []), (2, ''f''), (1, ''user goes to x'')]\<rparr> []
     = [\<lparr>description = ''user goes to x'', methodName = ''f'', params = [], body = []\<rparr>]\<close>
    by (simp add: parseStep_def parseStepParams_def findBodyEnd_def braceLoop.simps braceStep_def
        rx_eval char_eval str_eval split del: if_split)
  finally show ?thesis .
qed




lemma updateTypeScriptStepFile_absent:
  assumes "parseJavaSteps javaContent = Some javaSteps"
    and "\<forall>st \<in> set javaSteps. \<not> js_test True (todoPattern (description st)) tsContent"
  shows "updateTypeScriptStepFile (Some tsContent) javaContent sts = Some (Some tsContent, 0, sts)"
  using assms(1) fold_processStep_absent [OF assms(2), of 0 sts]
  by (simp add: updateTypeScriptStepFile_def)













lemma goes_to_x_step: "matchStepPattern ''user goes to x'' []
    = Some (''await page.goto('x');'' @ nl # ''    await page.waitForLoadState('networkidle');'')"
  by (simp add: matchStepPattern_def stepPatterns_def js_or_def truthy_def rx_eval char_eval str_eval
      split del: if_split)

lemma example_step_first:
  "processStep \<lparr>description = ''user goes to x'', methodName = ''f'', params = [], body = []\<rparr>
     (''When('user goes to x', async function () { /* TODO */ })'' @ nl #
      ''When('user goes to x', async function () { /* TODO */ })'', 0,
      \<lparr>filesProcessed = 0, stepsImplemented = 0, stepsSkipped = 0\<rparr>)
   = (''When('user goes to x', async ({ page }) => {'' @ nl # ''    await page.goto('x');'' @ nl #
      ''    await page.waitForLoadState('networkidle');'' @ nl # ''  }))'' @ nl #
      ''When('user goes to x', async function () { /* TODO */ })'', 1,
      \<lparr>filesProcessed = 0, stepsImplemented = 1, stepsSkipped = 0\<rparr>)"
  by (simp add: processStep_def goes_to_x_step todoPattern_def newStep_def stepType_def tsParams_def
      rx_eval char_eval str_eval split del: if_split)








subsection \<open>One result for every unit\<close>

text \<open>
  The loops of \<^verbatim>\<open>parseJavaPageClass\<close> end, and every one of them keeps the counters of
  \<^verbatim>\<open>conversionStats\<close> in step with the entries of \<^verbatim>\<open>result.locators\<close>: the counter of a
  classification has grown by the number of entries with that classification.
\<close>

lemma pushConverted_tally:
  assumes "\<forall>t. cs t = cs0 t + length (filter (\<lambda>l. entryType l = t) locs)"
    and "pushConverted fieldName x (locs, cs) = (locs', cs')"
  shows "\<forall>t. cs' t = cs0 t + length (filter (\<lambda>l. entryType l = t) locs')"
  using assms by (auto simp: pushConverted_def Let_def)

lemma qafBody_tally:
  assumes "\<forall>t. cs t = cs0 t + length (filter (\<lambda>l. entryType l = t) locs)"
    and "qafBody mt (locs, cs) = (locs', cs')"
  shows "\<forall>t. cs' t = cs0 t + length (filter (\<lambda>l. entryType l = t) locs')"
  using assms unfolding qafBody_def by (rule pushConverted_tally)

lemma findByXPathBody_tally:
  assumes "\<forall>t. cs t = cs0 t + length (filter (\<lambda>l. entryType l = t) locs)"
    and "findByXPathBody mt (locs, cs) = (locs', cs')"
  shows "\<forall>t. cs' t = cs0 t + length (filter (\<lambda>l. entryType l = t) locs')"
  using assms unfolding findByXPathBody_def by (rule pushConverted_tally)

lemma dedupBody_tally:
  assumes "\<forall>t. cs t = cs0 t + length (filter (\<lambda>l. entryType l = t) locs)"
    and "dedupBody mt (locs, cs) = (locs', cs')"
  shows "\<forall>t. cs' t = cs0 t + length (filter (\<lambda>l. entryType l = t) locs')"
proof (cases "list_ex (\<lambda>l. entryName l = tpl (grp mt 1)) locs")
  case True
  with assms show ?thesis by (simp add: dedupBody_def)
next
  case False
  with assms(2) have "pushConverted (tpl (grp mt 1)) (tpl (grp mt 2)) (locs, cs) = (locs', cs')"
    by (simp add: dedupBody_def)
  with assms(1) show ?thesis by (rule pushConverted_tally)
qed

lemma findByIdBody_tally:
  assumes "\<forall>t. cs t = cs0 t + length (filter (\<lambda>l. entryType l = t) locs)"
    and "findByIdBody mt (locs, cs) = (locs', cs')"
  shows "\<forall>t. cs' t = cs0 t + length (filter (\<lambda>l. entryType l = t) locs')"
  using assms by (auto simp: findByIdBody_def)

lemma findByCssBody_tally:
  assumes "\<forall>t. cs t = cs0 t + length (filter (\<lambda>l. entryType l = t) locs)"
    and "findByCssBody mt (locs, cs) = (locs', cs')"
  shows "\<forall>t. cs' t = cs0 t + length (filter (\<lambda>l. entryType l = t) locs')"
  using assms by (auto simp: findByCssBody_def)

lemma locator_minlen:
  "0 < minlen qafXpathRegex" "0 < minlen qafXpathRegex2" "0 < minlen simpleXpathRegex"
  "0 < minlen findByXPathRegex" "0 < minlen findByIdRegex" "0 < minlen findByCssRegex"
  "0 < minlen pageMethodRegex"
  by (simp_all add: qafXpathRegex_def qafXpathRegex2_def simpleXpathRegex_def findByXPathRegex_def
      findByIdRegex_def findByCssRegex_def pageMethodRegex_def cat_def alts_def)

lemma loop_tally:
  fixes f :: "rmatch \<Rightarrow> locatorEntry list \<times> (ltype \<Rightarrow> nat) \<Rightarrow> locatorEntry list \<times> (ltype \<Rightarrow> nat)"
  assumes r: "0 < minlen r"
    and f: "\<And>mt locs cs locs' cs'.
      \<forall>t. cs t = cs0 t + length (filter (\<lambda>l. entryType l = t) locs) \<Longrightarrow>
      f mt (locs, cs) = (locs', cs') \<Longrightarrow>
      \<forall>t. cs' t = cs0 t + length (filter (\<lambda>l. entryType l = t) locs')"
    and s: "\<forall>t. snd s t = cs0 t + length (filter (\<lambda>l. entryType l = t) (fst s))"
    and e: "exec_loop False r content f 0 s = Some s'"
  shows "\<forall>t. snd s' t = cs0 t + length (filter (\<lambda>l. entryType l = t) (fst s'))"
proof (rule exec_loop_invariant
    [where P = "\<lambda>s. \<forall>t. snd s t = cs0 t + length (filter (\<lambda>l. entryType l = t) (fst s))",
     OF r s _ e])
  fix mt and st :: "locatorEntry list \<times> (ltype \<Rightarrow> nat)"
  assume p: "\<forall>t. snd st t = cs0 t + length (filter (\<lambda>l. entryType l = t) (fst st))"
  obtain locs' cs' where q: "f mt (fst st, snd st) = (locs', cs')" by (rule prod.exhaust)
  from p q have "\<forall>t. cs' t = cs0 t + length (filter (\<lambda>l. entryType l = t) locs')" by (rule f)
  with q show "\<forall>t. snd (f mt st) t = cs0 t + length (filter (\<lambda>l. entryType l = t) (fst (f mt st)))"
    by simp
qed

lemma parseLocators_tally:
  assumes "parseLocators content cs0 = Some (locs, cs)"
  shows "\<forall>t. cs t = cs0 t + length (filter (\<lambda>l. entryType l = t) locs)"
proof -
  from assms obtain s1 s2 s3 s4 s5 where
    1: "exec_loop False qafXpathRegex content qafBody 0 ([], cs0) = Some s1"
    and 2: "exec_loop False qafXpathRegex2 content dedupBody 0 s1 = Some s2"
    and 3: "exec_loop False simpleXpathRegex content dedupBody 0 s2 = Some s3"
    and 4: "exec_loop False findByXPathRegex content findByXPathBody 0 s3 = Some s4"
    and 5: "exec_loop False findByIdRegex content findByIdBody 0 s4 = Some s5"
    and 6: "exec_loop False findByCssRegex content findByCssBody 0 s5 = Some (locs, cs)"
    unfolding parseLocators_def by (auto simp: bind_eq_Some_conv)
  have 0: "\<forall>t. snd ([], cs0) t = cs0 t + length (filter (\<lambda>l. entryType l = t) (fst ([], cs0)))"
    by simp
  note a = loop_tally [OF locator_minlen(1) qafBody_tally 0 1]
  note b = loop_tally [OF locator_minlen(2) dedupBody_tally a 2]
  note c = loop_tally [OF locator_minlen(3) dedupBody_tally b 3]
  note d = loop_tally [OF locator_minlen(4) findByXPathBody_tally c 4]
  note e = loop_tally [OF locator_minlen(5) findByIdBody_tally d 5]
  note f = loop_tally [OF locator_minlen(6) findByCssBody_tally e 6]
  then show ?thesis by simp
qed

lemma parseLocators_total: "\<exists>r. parseLocators content cs0 = Some r"
proof -
  have "\<exists>s1. exec_loop False qafXpathRegex content qafBody 0 ([], cs0) = Some s1" using locator_minlen(1) by (rule exec_loop_terminates)
  then obtain s1 where 1: "exec_loop False qafXpathRegex content qafBody 0 ([], cs0) = Some s1" by blast
  have "\<exists>s2. exec_loop False qafXpathRegex2 content dedupBody 0 s1 = Some s2" using locator_minlen(2) by (rule exec_loop_terminates)
  then obtain s2 where 2: "exec_loop False qafXpathRegex2 content dedupBody 0 s1 = Some s2" by blast
  have "\<exists>s3. exec_loop False simpleXpathRegex content dedupBody 0 s2 = Some s3" using locator_minlen(3) by (rule exec_loop_terminates)
  then obtain s3 where 3: "exec_loop False simpleXpathRegex content dedupBody 0 s2 = Some s3" by blast
  have "\<exists>s4. exec_loop False findByXPathRegex content findByXPathBody 0 s3 = Some s4" using locator_minlen(4) by (rule exec_loop_terminates)
  then obtain s4 where 4: "exec_loop False findByXPathRegex content findByXPathBody 0 s3 = Some s4" by blast
  have "\<exists>s5. exec_loop False findByIdRegex content findByIdBody 0 s4 = Some s5" using locator_minlen(5) by (rule exec_loop_terminates)
  then obtain s5 where 5: "exec_loop False findByIdRegex content findByIdBody 0 s4 = Some s5" by blast
  have "\<exists>s6. exec_loop False findByCssRegex content findByCssBody 0 s5 = Some s6" using locator_minlen(6) by (rule exec_loop_terminates)
  then obtain s6 where 6: "exec_loop False findByCssRegex content findByCssBody 0 s5 = Some s6" by blast
  from 1 2 3 4 5 6 show ?thesis by (simp add: parseLocators_def)
qed

lemma parseJavaPageClass_total: "\<exists>r. parseJavaPageClass content fileName cs0 = Some r"
proof -
  obtain locs cs where 1: "parseLocators content cs0 = Some (locs, cs)"
    using parseLocators_total [of content cs0] by auto
  have "\<exists>ms. exec_loop False pageMethodRegex content pageMethodBody 0 [] = Some ms" using locator_minlen(7) by (rule exec_loop_terminates)
  then obtain ms where 2: "exec_loop False pageMethodRegex content pageMethodBody 0 [] = Some ms" by blast
  from 1 2 show ?thesis by (simp add: parseJavaPageClass_def)
qed

lemma parseJavaPageClass_tally:
  assumes "parseJavaPageClass content fileName cs0 = Some (result, cs)"
  shows "\<forall>t. cs t = cs0 t + length (filter (\<lambda>l. entryType l = t) (pageLocators result))"
proof -
  from assms obtain locs ms where 1: "parseLocators content cs0 = Some (locs, cs)"
    and 2: "pageLocators result = locs"
    unfolding parseJavaPageClass_def by (auto simp: bind_eq_Some_conv)
  from 1 have "\<forall>t. cs t = cs0 t + length (filter (\<lambda>l. entryType l = t) locs)"
    by (rule parseLocators_tally)
  with 2 show ?thesis by simp
qed

text \<open>The counters of the rewriter of script 08.\<close>

lemma processStep_counts:
  assumes "processStep st (tsContent, n, sts) = (tsContent', n', sts')"
  shows "stepsImplemented sts' + stepsSkipped sts'
      = stepsImplemented sts + stepsSkipped sts
        + (if js_test True (todoPattern (description st)) tsContent then 1 else 0)"
    and "stepsImplemented sts' = stepsImplemented sts + (n' - n)" and "n \<le> n'"
    and "stepsSkipped sts \<le> stepsSkipped sts'"
    and "(n' - n) + (stepsSkipped sts' - stepsSkipped sts) \<le> 1"
  using assms by (auto simp: processStep_def split: if_splits option.splits)

lemma fold_processStep_counts:
  assumes "fold processStep javaSteps (tsContent, n, sts) = (tsContent', n', sts')"
  shows "stepsImplemented sts' = stepsImplemented sts + (n' - n) \<and> n \<le> n' \<and>
     stepsSkipped sts \<le> stepsSkipped sts' \<and>
     (n' - n) + (stepsSkipped sts' - stepsSkipped sts) \<le> length javaSteps"
  using assms
proof (induction javaSteps arbitrary: tsContent n sts)
  case Nil
  then show ?case by simp
next
  case (Cons st javaSteps)
  obtain c1 n1 sts1 where 1: "processStep st (tsContent, n, sts) = (c1, n1, sts1)"
    by (rule prod_cases3)
  with Cons.prems have 2: "fold processStep javaSteps (c1, n1, sts1) = (tsContent', n', sts')"
    by simp
  note a = processStep_counts(2-5) [OF 1]
  note b = Cons.IH [OF 2]
  from a b show ?case by (auto simp del: One_nat_def)
qed


text \<open>
  Claim C8 as stated fails for the steps.  The callback of \<^verbatim>\<open>updateTypeScriptStepFile\<close> returns
  before it counts anything when the placeholder pattern of the step does not match the
  content.  The step definition that script 04 generates for the step \<^verbatim>\<open>user goes to x\<close> has
  the fixture \<^verbatim>\<open>{ page }\<close> between \<^verbatim>\<open>async\<close> and the body, and the pattern
  \<^verbatim>\<open>async[^{]+\{[^}]*TODO[^}]*\}\<close> does not match it: the Java source has one step, and the run
  counts it neither as implemented nor as skipped.
\<close>

lemma skeleton_no_placeholder:
  "\<not> js_test True (todoPattern ''user goes to x'')
     (nl # ''When('user goes to x', async ({ page }) => {'' @ nl #
      ''  // TODO: Implement - Original method: f'' @ nl #
      ''  throw new Error('Not implemented');'' @ nl # ''});'')"
  by (simp add: todoPattern_def rx_eval char_eval split del: if_split)

theorem C8_step_without_placeholder_counterexample:
  \<open>parseJavaSteps ''@When("user goes to x") public void f() { }''
     = Some [\<lparr>description = ''user goes to x'', methodName = ''f'', params = [], body = []\<rparr>]
   \<and> updateTypeScriptStepFile
       (Some (nl # ''When('user goes to x', async ({ page }) => {'' @ nl #
              ''  // TODO: Implement - Original method: f'' @ nl #
              ''  throw new Error('Not implemented');'' @ nl # ''});''))
       ''@When("user goes to x") public void f() { }''
       \<lparr>filesProcessed = 0, stepsImplemented = 0, stepsSkipped = 0\<rparr>
     = Some (Some (nl # ''When('user goes to x', async ({ page }) => {'' @ nl #
                   ''  // TODO: Implement - Original method: f'' @ nl #
                   ''  throw new Error('Not implemented');'' @ nl # ''});''), 0,
             \<lparr>filesProcessed = 0, stepsImplemented = 0, stepsSkipped = 0\<rparr>)\<close>
proof
  show \<open>parseJavaSteps ''@When("user goes to x") public void f() { }''
     = Some [\<lparr>description = ''user goes to x'', methodName = ''f'', params = [], body = []\<rparr>]\<close>
    by (rule java_example_steps)
  have \<open>\<forall>st \<in> set [\<lparr>description = ''user goes to x'', methodName = ''f'', params = [], body = []\<rparr>].
     \<not> js_test True (todoPattern (description st))
       (nl # ''When('user goes to x', async ({ page }) => {'' @ nl #
        ''  // TODO: Implement - Original method: f'' @ nl #
        ''  throw new Error('Not implemented');'' @ nl # ''});'')\<close>
    using skeleton_no_placeholder by simp
  with java_example_steps
  show \<open>updateTypeScriptStepFile
       (Some (nl # ''When('user goes to x', async ({ page }) => {'' @ nl #
              ''  // TODO: Implement - Original method: f'' @ nl #
              ''  throw new Error('Not implemented');'' @ nl # ''});''))
       ''@When("user goes to x") public void f() { }''
       \<lparr>filesProcessed = 0, stepsImplemented = 0, stepsSkipped = 0\<rparr>
     = Some (Some (nl # ''When('user goes to x', async ({ page }) => {'' @ nl #
                   ''  // TODO: Implement - Original method: f'' @ nl #
                   ''  throw new Error('Not implemented');'' @ nl # ''});''), 0,
             \<lparr>filesProcessed = 0, stepsImplemented = 0, stepsSkipped = 0\<rparr>)\<close>
    by (rule updateTypeScriptStepFile_absent)
qed

text \<open>
  Claim C8, with the steps counted as the code counts them.  \<^verbatim>\<open>parseJavaPageClass\<close> returns
  for every content, and in its result every entry of \<^verbatim>\<open>result.locators\<close> has exactly one
  tally: the counter of each classification has grown by the number of entries with that
  classification.  A match of the patterns 1, 3, 4 and 5 adds exactly one entry, named after
  the field, and one tally of its classification; a match of the patterns 1b and 2 does
  the same unless an entry of that name exists, and is skipped then.  A Java step whose
  placeholder is found in the content when the step is processed is counted exactly once,
  as implemented or as skipped; a step whose placeholder is not found is counted as
  neither.  So after a run the count returned is the growth of \<^verbatim>\<open>stepsImplemented\<close>, and
  implemented and skipped steps together are at most the steps of the Java source.
\<close>

theorem C8_one_tally_per_entry_and_counted_steps:
  "(\<exists>r. parseJavaPageClass content fileName conversionStats = Some r) \<and>
   (parseJavaPageClass content fileName conversionStats = Some (result, conversionStats') \<longrightarrow>
      (\<forall>t. conversionStats' t
         = conversionStats t + length (filter (\<lambda>l. entryType l = t) (pageLocators result)))) \<and>
   (\<exists>e. qafBody mt (locs, cs) = (locs @ [e], cs(entryType e := cs (entryType e) + 1)) \<and>
        entryName e = tpl (grp mt 1)) \<and>
   (\<exists>e. findByXPathBody mt (locs, cs) = (locs @ [e], cs(entryType e := cs (entryType e) + 1)) \<and>
        entryName e = tpl (grp mt 2)) \<and>
   (\<exists>e. findByIdBody mt (locs, cs) = (locs @ [e], cs(entryType e := cs (entryType e) + 1)) \<and>
        entryName e = tpl (grp mt 2)) \<and>
   (\<exists>e. findByCssBody mt (locs, cs) = (locs @ [e], cs(entryType e := cs (entryType e) + 1)) \<and>
        entryName e = tpl (grp mt 2)) \<and>
   dedupBody mt (locs, cs)
     = (if list_ex (\<lambda>l. entryName l = tpl (grp mt 1)) locs then (locs, cs)
        else qafBody mt (locs, cs)) \<and>
   (processStep st (tsContent, n, sts) = (tsContentA, nA, stsA) \<longrightarrow>
      stepsImplemented stsA + stepsSkipped stsA
        = stepsImplemented sts + stepsSkipped sts
          + (if js_test True (todoPattern (description st)) tsContent then 1 else 0) \<and>
      stepsImplemented stsA = stepsImplemented sts + (nA - n) \<and> n \<le> nA \<and>
      stepsSkipped sts \<le> stepsSkipped stsA) \<and>
   (parseJavaSteps javaContent = Some javaSteps \<and>
    updateTypeScriptStepFile (Some tsContent) javaContent sts = Some (tsFileB, nB, stsB) \<longrightarrow>
      stepsImplemented stsB = stepsImplemented sts + nB \<and>
      stepsSkipped sts \<le> stepsSkipped stsB \<and>
      nB + (stepsSkipped stsB - stepsSkipped sts) \<le> length javaSteps)"
proof (intro conjI impI)
  show "\<exists>r. parseJavaPageClass content fileName conversionStats = Some r"
    by (rule parseJavaPageClass_total)
  show "\<exists>e. qafBody mt (locs, cs) = (locs @ [e], cs(entryType e := cs (entryType e) + 1)) \<and>
        entryName e = tpl (grp mt 1)"
    by (simp add: qafBody_def pushConverted_def Let_def)
  show "\<exists>e. findByXPathBody mt (locs, cs) = (locs @ [e], cs(entryType e := cs (entryType e) + 1)) \<and>
        entryName e = tpl (grp mt 2)"
    by (simp add: findByXPathBody_def pushConverted_def Let_def)
  show "\<exists>e. findByIdBody mt (locs, cs) = (locs @ [e], cs(entryType e := cs (entryType e) + 1)) \<and>
        entryName e = tpl (grp mt 2)"
    by (simp add: findByIdBody_def)
  show "\<exists>e. findByCssBody mt (locs, cs) = (locs @ [e], cs(entryType e := cs (entryType e) + 1)) \<and>
        entryName e = tpl (grp mt 2)"
    by (simp add: findByCssBody_def)
  show "dedupBody mt (locs, cs)
     = (if list_ex (\<lambda>l. entryName l = tpl (grp mt 1)) locs then (locs, cs)
        else qafBody mt (locs, cs))"
    by (simp add: dedupBody_def qafBody_def)
next
  assume "parseJavaPageClass content fileName conversionStats = Some (result, conversionStats')"
  then show "\<forall>t. conversionStats' t
         = conversionStats t + length (filter (\<lambda>l. entryType l = t) (pageLocators result))"
    by (rule parseJavaPageClass_tally)
next
  assume a: "processStep st (tsContent, n, sts) = (tsContentA, nA, stsA)"
  show "stepsImplemented stsA + stepsSkipped stsA
        = stepsImplemented sts + stepsSkipped sts
          + (if js_test True (todoPattern (description st)) tsContent then 1 else 0)"
    using a by (rule processStep_counts(1))
  show "stepsImplemented stsA = stepsImplemented sts + (nA - n)"
    using a by (rule processStep_counts(2))
  show "n \<le> nA" using a by (rule processStep_counts(3))
  show "stepsSkipped sts \<le> stepsSkipped stsA" using a by (rule processStep_counts(4))
next
  assume "parseJavaSteps javaContent = Some javaSteps \<and>
    updateTypeScriptStepFile (Some tsContent) javaContent sts = Some (tsFileB, nB, stsB)"
  then have p: "parseJavaSteps javaContent = Some javaSteps"
    and u: "updateTypeScriptStepFile (Some tsContent) javaContent sts = Some (tsFileB, nB, stsB)"
    by blast+
  obtain c' where f: "fold processStep javaSteps (tsContent, 0, sts) = (c', nB, stsB)"
  proof -
    obtain c' n' sts' where g: "fold processStep javaSteps (tsContent, 0, sts) = (c', n', sts')"
      by (rule prod_cases3)
    with p u have "n' = nB" "sts' = stsB" by (simp_all add: updateTypeScriptStepFile_def)
    with g show thesis by (intro that [of c']) simp
  qed
  from fold_processStep_counts [OF f]
  have g: "stepsImplemented stsB = stepsImplemented sts + (nB - 0)"
    "stepsSkipped sts \<le> stepsSkipped stsB"
    "(nB - 0) + (stepsSkipped stsB - stepsSkipped sts) \<le> length javaSteps" by blast+
  from g(1) show "stepsImplemented stsB = stepsImplemented sts + nB" by simp
  from g(2) show "stepsSkipped sts \<le> stepsSkipped stsB" .
  from g(3) show "nB + (stepsSkipped stsB - stepsSkipped sts) \<le> length javaSteps"
    by (simp only: diff_zero)
qed


text \<open>
  Witness of C8: a page class with one \<^verbatim>\<open>@FindBy\<close> field and one \<^verbatim>\<open>By.xpath\<close> constant has two
  entries, one tallied as semantic and one as css; the first run on the file with two
  placeholders counts the one Java step once, as implemented.
\<close>

lemma page_none:
  \<open>regex_exec False qafXpathRegex ''@FindBy(id = "q") WebElement q; static final By ok = By.xpath("//button[text()='OK']");'' 0 = None\<close>
  \<open>regex_exec False qafXpathRegex2 ''@FindBy(id = "q") WebElement q; static final By ok = By.xpath("//button[text()='OK']");'' 0 = None\<close>
  \<open>regex_exec False findByXPathRegex ''@FindBy(id = "q") WebElement q; static final By ok = By.xpath("//button[text()='OK']");'' 0 = None\<close>
  \<open>regex_exec False findByCssRegex ''@FindBy(id = "q") WebElement q; static final By ok = By.xpath("//button[text()='OK']");'' 0 = None\<close>
  \<open>regex_exec False pageMethodRegex ''@FindBy(id = "q") WebElement q; static final By ok = By.xpath("//button[text()='OK']");'' 0 = None\<close>
  \<open>js_match False classRx ''@FindBy(id = "q") WebElement q; static final By ok = By.xpath("//button[text()='OK']");'' = None\<close>
  by (simp_all add: qafXpathRegex_def qafXpathRegex2_def findByXPathRegex_def findByCssRegex_def
      pageMethodRegex_def classRx_def rx_eval char_eval split del: if_split)

lemma page_simple:
  \<open>regex_exec False simpleXpathRegex ''@FindBy(id = "q") WebElement q; static final By ok = By.xpath("//button[text()='OK']");'' 0
     = Some \<lparr>index = 32, whole = ''static final By ok = By.xpath("//button[text()='OK']")'',
         groups = [(2, ''//button[text()='OK']''), (1, ''ok'')]\<rparr>\<close>
  \<open>regex_exec False simpleXpathRegex ''@FindBy(id = "q") WebElement q; static final By ok = By.xpath("//button[text()='OK']");'' 86 = None\<close>
  by (simp_all add: simpleXpathRegex_def rx_eval char_eval split del: if_split)

lemma page_id:
  \<open>regex_exec False findByIdRegex ''@FindBy(id = "q") WebElement q; static final By ok = By.xpath("//button[text()='OK']");'' 0
     = Some \<lparr>index = 0, whole = ''@FindBy(id = "q") WebElement q'', groups = [(2, ''q''), (1, ''q'')]\<rparr>\<close>
  \<open>regex_exec False findByIdRegex ''@FindBy(id = "q") WebElement q; static final By ok = By.xpath("//button[text()='OK']");'' 30 = None\<close>
  by (simp_all add: findByIdRegex_def rx_eval char_eval split del: if_split)

lemma ok_conversion:
  "convertXPathToPlaywright ''//button[text()='OK']'' ''ok'' =
     \<lparr>locator = ''page.getByRole('button', { name: 'OK' })'', type = Semantic,
      originalXpath = ''//button[text()='OK']'', comment = None\<rparr>"
  by (simp add: convertXPathToPlaywright_def cleanXpath_def xpath_rx rx_eval char_eval str_eval
        split del: if_split)

lemma page_example:
  \<open>parseJavaPageClass ''@FindBy(id = "q") WebElement q; static final By ok = By.xpath("//button[text()='OK']");'' ''LoginPage.java'' (\<lambda>t. 0)
     = Some (\<lparr>className = [],
              pageLocators =
                [\<lparr>entryName = ''ok'', entryXpath = ''//button[text()='OK']'',
                   playwright = ''page.getByRole('button', { name: 'OK' })'',
                   entryType = Semantic, entryComment = None\<rparr>,
                 \<lparr>entryName = ''q'', entryXpath = ''id=q'', playwright = ''page.locator('#q')'',
                   entryType = Css, entryComment = None\<rparr>],
              pageMethods = []\<rparr>,
             (\<lambda>t. 0)(Semantic := 1, Css := 1))\<close>
proof -
  let ?ok = "\<lparr>entryName = ''ok'', entryXpath = ''//button[text()='OK']'',
                   playwright = ''page.getByRole('button', { name: 'OK' })'',
                   entryType = Semantic, entryComment = None\<rparr>"
  let ?q = "\<lparr>entryName = ''q'', entryXpath = ''id=q'', playwright = ''page.locator('#q')'',
                   entryType = Css, entryComment = None\<rparr>"
  have 1: \<open>exec_loop False qafXpathRegex ''@FindBy(id = "q") WebElement q; static final By ok = By.xpath("//button[text()='OK']");'' qafBody 0 ([], \<lambda>t. 0) = Some ([], \<lambda>t. 0)\<close>
    by (rule exec_loop_None [OF page_none(1)])
  have 2: \<open>exec_loop False qafXpathRegex2 ''@FindBy(id = "q") WebElement q; static final By ok = By.xpath("//button[text()='OK']");'' dedupBody 0 ([], \<lambda>t. 0) = Some ([], \<lambda>t. 0)\<close>
    by (rule exec_loop_None [OF page_none(2)])
  have \<open>exec_loop False simpleXpathRegex ''@FindBy(id = "q") WebElement q; static final By ok = By.xpath("//button[text()='OK']");'' dedupBody 0 ([], \<lambda>t. 0)
      = exec_loop False simpleXpathRegex ''@FindBy(id = "q") WebElement q; static final By ok = By.xpath("//button[text()='OK']");'' dedupBody 86
          (dedupBody \<lparr>index = 32, whole = ''static final By ok = By.xpath("//button[text()='OK']")'',
         groups = [(2, ''//button[text()='OK']''), (1, ''ok'')]\<rparr> ([], \<lambda>t. 0))\<close>
    by (rule exec_loop_Some [OF page_simple(1)]) simp
  also have \<open>\<dots> = Some (dedupBody \<lparr>index = 32, whole = ''static final By ok = By.xpath("//button[text()='OK']")'',
         groups = [(2, ''//button[text()='OK']''), (1, ''ok'')]\<rparr> ([], \<lambda>t. 0))\<close>
    by (rule exec_loop_None [OF page_simple(2)])
  also have \<open>dedupBody \<lparr>index = 32, whole = ''static final By ok = By.xpath("//button[text()='OK']")'',
         groups = [(2, ''//button[text()='OK']''), (1, ''ok'')]\<rparr> ([], \<lambda>t. 0)
      = ([?ok], (\<lambda>t. 0)(Semantic := 1))\<close>
    by (simp add: dedupBody_def pushConverted_def grp_def tpl_def ok_conversion)
  finally have 3: \<open>exec_loop False simpleXpathRegex ''@FindBy(id = "q") WebElement q; static final By ok = By.xpath("//button[text()='OK']");'' dedupBody 0 ([], \<lambda>t. 0)
      = Some ([?ok], (\<lambda>t. 0)(Semantic := 1))\<close> .
  have 4: \<open>exec_loop False findByXPathRegex ''@FindBy(id = "q") WebElement q; static final By ok = By.xpath("//button[text()='OK']");'' findByXPathBody 0 ([?ok], (\<lambda>t. 0)(Semantic := 1))
      = Some ([?ok], (\<lambda>t. 0)(Semantic := 1))\<close>
    by (rule exec_loop_None [OF page_none(3)])
  have \<open>exec_loop False findByIdRegex ''@FindBy(id = "q") WebElement q; static final By ok = By.xpath("//button[text()='OK']");'' findByIdBody 0 ([?ok], (\<lambda>t. 0)(Semantic := 1))
      = exec_loop False findByIdRegex ''@FindBy(id = "q") WebElement q; static final By ok = By.xpath("//button[text()='OK']");'' findByIdBody 30
          (findByIdBody \<lparr>index = 0, whole = ''@FindBy(id = "q") WebElement q'',
             groups = [(2, ''q''), (1, ''q'')]\<rparr> ([?ok], (\<lambda>t. 0)(Semantic := 1)))\<close>
    by (rule exec_loop_Some [OF page_id(1)]) simp
  also have \<open>\<dots> = Some (findByIdBody \<lparr>index = 0, whole = ''@FindBy(id = "q") WebElement q'',
             groups = [(2, ''q''), (1, ''q'')]\<rparr> ([?ok], (\<lambda>t. 0)(Semantic := 1)))\<close>
    by (rule exec_loop_None [OF page_id(2)])
  also have \<open>findByIdBody \<lparr>index = 0, whole = ''@FindBy(id = "q") WebElement q'',
             groups = [(2, ''q''), (1, ''q'')]\<rparr> ([?ok], (\<lambda>t. 0)(Semantic := 1))
      = ([?ok, ?q], (\<lambda>t. 0)(Semantic := 1, Css := 1))\<close>
    by (simp add: findByIdBody_def grp_def tpl_def)
  finally have 5: \<open>exec_loop False findByIdRegex ''@FindBy(id = "q") WebElement q; static final By ok = By.xpath("//button[text()='OK']");'' findByIdBody 0 ([?ok], (\<lambda>t. 0)(Semantic := 1))
      = Some ([?ok, ?q], (\<lambda>t. 0)(Semantic := 1, Css := 1))\<close> .
  have 6: \<open>exec_loop False findByCssRegex ''@FindBy(id = "q") WebElement q; static final By ok = By.xpath("//button[text()='OK']");'' findByCssBody 0
        ([?ok, ?q], (\<lambda>t. 0)(Semantic := 1, Css := 1))
      = Some ([?ok, ?q], (\<lambda>t. 0)(Semantic := 1, Css := 1))\<close>
    by (rule exec_loop_None [OF page_none(4)])
  have 7: \<open>exec_loop False pageMethodRegex ''@FindBy(id = "q") WebElement q; static final By ok = By.xpath("//button[text()='OK']");'' pageMethodBody 0 [] = Some []\<close>
    by (rule exec_loop_None [OF page_none(5)])
  have l: \<open>parseLocators ''@FindBy(id = "q") WebElement q; static final By ok = By.xpath("//button[text()='OK']");'' (\<lambda>t. 0) = Some ([?ok, ?q], (\<lambda>t. 0)(Semantic := 1, Css := 1))\<close>
    unfolding parseLocators_def by (simp only: 1 2 3 4 5 6 Option.bind.simps)
  show ?thesis
    unfolding parseJavaPageClass_def
    by (simp only: l 7 page_none(6) Option.bind.simps prod.case option.case)
qed

lemma example_first_run:
  \<open>updateTypeScriptStepFile
     (Some (''When('user goes to x', async function () { /* TODO */ })'' @ nl #
            ''When('user goes to x', async function () { /* TODO */ })''))
     ''@When("user goes to x") public void f() { }''
     \<lparr>filesProcessed = 0, stepsImplemented = 0, stepsSkipped = 0\<rparr>
   = Some (Some (''When('user goes to x', async ({ page }) => {'' @ nl #
                 ''    await page.goto('x');'' @ nl #
                 ''    await page.waitForLoadState('networkidle');'' @ nl # ''  }))'' @ nl #
                 ''When('user goes to x', async function () { /* TODO */ })''), 1,
           \<lparr>filesProcessed = 0, stepsImplemented = 1, stepsSkipped = 0\<rparr>)\<close>
  unfolding updateTypeScriptStepFile_def
  by (simp only: java_example_steps option.case fold_simps id_apply comp_apply example_step_first
      prod.case) simp

theorem C8_one_tally_per_entry_and_counted_steps_witness:
  \<open>parseJavaPageClass ''@FindBy(id = "q") WebElement q; static final By ok = By.xpath("//button[text()='OK']");'' ''LoginPage.java'' (\<lambda>t. 0)
     = Some (\<lparr>className = [],
              pageLocators =
                [\<lparr>entryName = ''ok'', entryXpath = ''//button[text()='OK']'',
                   playwright = ''page.getByRole('button', { name: 'OK' })'',
                   entryType = Semantic, entryComment = None\<rparr>,
                 \<lparr>entryName = ''q'', entryXpath = ''id=q'', playwright = ''page.locator('#q')'',
                   entryType = Css, entryComment = None\<rparr>],
              pageMethods = []\<rparr>,
             (\<lambda>t. 0)(Semantic := 1, Css := 1))
   \<and> map ((\<lambda>t. 0 :: nat)(Semantic := 1, Css := 1)) [Semantic, Css, Xpath]
       = map (\<lambda>t. length (filter (\<lambda>l. entryType l = t)
           [\<lparr>entryName = ''ok'', entryXpath = ''//button[text()='OK']'',
                   playwright = ''page.getByRole('button', { name: 'OK' })'',
                   entryType = Semantic, entryComment = None\<rparr>,
                 \<lparr>entryName = ''q'', entryXpath = ''id=q'', playwright = ''page.locator('#q')'',
                   entryType = Css, entryComment = None\<rparr>])) [Semantic, Css, Xpath]
   \<and> processStep \<lparr>description = ''user goes to x'', methodName = ''f'', params = [], body = []\<rparr>
       (''When('user goes to x', async function () { /* TODO */ })'' @ nl #
        ''When('user goes to x', async function () { /* TODO */ })'', 0,
        \<lparr>filesProcessed = 0, stepsImplemented = 0, stepsSkipped = 0\<rparr>)
     = (''When('user goes to x', async ({ page }) => {'' @ nl # ''    await page.goto('x');'' @ nl #
        ''    await page.waitForLoadState('networkidle');'' @ nl # ''  }))'' @ nl #
        ''When('user goes to x', async function () { /* TODO */ })'', 1,
        \<lparr>filesProcessed = 0, stepsImplemented = 1, stepsSkipped = 0\<rparr>)
   \<and> js_test True (todoPattern ''user goes to x'')
       (''When('user goes to x', async function () { /* TODO */ })'' @ nl #
        ''When('user goes to x', async function () { /* TODO */ })'')
   \<and> updateTypeScriptStepFile
       (Some (''When('user goes to x', async function () { /* TODO */ })'' @ nl #
              ''When('user goes to x', async function () { /* TODO */ })''))
       ''@When("user goes to x") public void f() { }''
       \<lparr>filesProcessed = 0, stepsImplemented = 0, stepsSkipped = 0\<rparr>
     = Some (Some (''When('user goes to x', async ({ page }) => {'' @ nl #
                   ''    await page.goto('x');'' @ nl #
                   ''    await page.waitForLoadState('networkidle');'' @ nl # ''  }))'' @ nl #
                   ''When('user goes to x', async function () { /* TODO */ })''), 1,
             \<lparr>filesProcessed = 0, stepsImplemented = 1, stepsSkipped = 0\<rparr>)
   \<and> (1 :: nat) + (0 - 0) \<le> length [\<lparr>description = ''user goes to x'', methodName = ''f'',
        params = [], body = []\<rparr>]\<close>
proof -
  let ?st = "\<lparr>description = ''user goes to x'', methodName = ''f'', params = [], body = []\<rparr>"
  let ?P = "''When('user goes to x', async function () { /* TODO */ })'' @ nl #
        ''When('user goes to x', async function () { /* TODO */ })''"
  let ?c1 = "''When('user goes to x', async ({ page }) => {'' @ nl # ''    await page.goto('x');'' @ nl #
        ''    await page.waitForLoadState('networkidle');'' @ nl # ''  }))'' @ nl #
        ''When('user goes to x', async function () { /* TODO */ })''"
  let ?s0 = "\<lparr>filesProcessed = 0, stepsImplemented = 0, stepsSkipped = 0\<rparr>"
  let ?s1 = "\<lparr>filesProcessed = 0, stepsImplemented = 1, stepsSkipped = 0\<rparr>"
  note c = C8_one_tally_per_entry_and_counted_steps
    [where content = \<open>''@FindBy(id = "q") WebElement q; static final By ok = By.xpath("//button[text()='OK']");''\<close>
       and fileName = "''LoginPage.java''" and conversionStats = "\<lambda>t. 0"
       and conversionStats' = "(\<lambda>t. 0)(Semantic := 1, Css := 1)"
       and result = "\<lparr>className = [],
              pageLocators =
                [\<lparr>entryName = ''ok'', entryXpath = ''//button[text()='OK']'',
                   playwright = ''page.getByRole('button', { name: 'OK' })'',
                   entryType = Semantic, entryComment = None\<rparr>,
                 \<lparr>entryName = ''q'', entryXpath = ''id=q'', playwright = ''page.locator('#q')'',
                   entryType = Css, entryComment = None\<rparr>],
              pageMethods = []\<rparr>"
       and st = ?st and tsContent = ?P and n = 0 and sts = ?s0
       and tsContentA = ?c1 and nA = 1 and stsA = ?s1
       and javaContent = \<open>''@When("user goes to x") public void f() { }''\<close>
       and javaSteps = "[?st]" and tsFileB = "Some ?c1" and nB = 1 and stsB = ?s1]
  from c page_example
  have t: "\<forall>t. ((\<lambda>t. 0 :: nat)(Semantic := 1, Css := 1)) t
      = (\<lambda>t. 0 :: nat) t + length (filter (\<lambda>l. entryType l = t)
           [\<lparr>entryName = ''ok'', entryXpath = ''//button[text()='OK']'',
                   playwright = ''page.getByRole('button', { name: 'OK' })'',
                   entryType = Semantic, entryComment = None\<rparr>,
                 \<lparr>entryName = ''q'', entryXpath = ''id=q'', playwright = ''page.locator('#q')'',
                   entryType = Css, entryComment = None\<rparr>])"
    by (simp del: fun_upd_apply filter.simps)
  then have 2: "map ((\<lambda>t. 0 :: nat)(Semantic := 1, Css := 1)) [Semantic, Css, Xpath]
       = map (\<lambda>t. length (filter (\<lambda>l. entryType l = t)
           [\<lparr>entryName = ''ok'', entryXpath = ''//button[text()='OK']'',
                   playwright = ''page.getByRole('button', { name: 'OK' })'',
                   entryType = Semantic, entryComment = None\<rparr>,
                 \<lparr>entryName = ''q'', entryXpath = ''id=q'', playwright = ''page.locator('#q')'',
                   entryType = Css, entryComment = None\<rparr>])) [Semantic, Css, Xpath]"
    by simp
  from c example_step_first
  have "stepsImplemented ?s1 + stepsSkipped ?s1 = stepsImplemented ?s0 + stepsSkipped ?s0
          + (if js_test True (todoPattern (description ?st)) ?P then 1 else 0)" by blast
  then have 4: "js_test True (todoPattern ''user goes to x'') ?P"
    by (simp split: if_splits)
  from c java_example_steps example_first_run
  have "n2x + (stepsSkipped ?s1 - stepsSkipped ?s0) \<le> length [?st]" if "n2x = (1::nat)" for n2x
    using that by blast
  then have 6: "(1 :: nat) + (0 - 0) \<le> length [?st]" by simp
  from page_example 2 example_step_first 4 example_first_run 6 show ?thesis by (intro conjI)
qed

subsection \<open>The two tiers of errors in the run of script 02\<close>

lemma convertFile_counts:
  "totalFiles (convertFile e srcItemPath tgtPath item file st)
     + length (errors (convertFile e srcItemPath tgtPath item file st))
   = totalFiles st + length (errors st) + 1"
  by (simp add: convertFile_def ensureDir_def split: sum.splits option.splits)

lemma convertFile_cases:
  "(totalFiles (convertFile e srcItemPath tgtPath item file st) = totalFiles st + 1 \<and>
    errors (convertFile e srcItemPath tgtPath item file st) = errors st \<and>
    (\<exists>content. file = Inr content \<and>
       written (convertFile e srcItemPath tgtPath item file st)
         = written st @ [(pjoin e tgtPath item, fst (convertFeatureContent content))])) \<or>
   (totalFiles (convertFile e srcItemPath tgtPath item file st) = totalFiles st \<and>
    written (convertFile e srcItemPath tgtPath item file st) = written st \<and>
    (\<exists>msg. errors (convertFile e srcItemPath tgtPath item file st)
       = errors st @ [(srcItemPath, msg)]))"
  by (simp add: convertFile_def ensureDir_def split: sum.splits option.splits)

lemma ensureDir_ok:
  assumes "\<forall>p. mkdirError e p = None"
  shows "\<exists>st1. ensureDir e p st = Inr st1 \<and> totalFiles st1 = totalFiles st \<and> errors st1 = errors st"
  using assms by (simp add: ensureDir_def)

lemma process_listable:
  assumes mk: "\<forall>p. mkdirError e p = None" and mp: "\<forall>name0. mapping name0 \<noteq> Truthy"
  shows "(\<forall>items. nd = DirNode items \<and> listableIn items \<longrightarrow>
            (\<exists>st'. processDirectory e mapping srcPath tgtPath nd st = Inr st' \<and>
               totalFiles st' + length (errors st')
                 = totalFiles st + length (errors st) + featureFilesIn items))"
    and "listableIn items \<longrightarrow>
            (\<exists>st'. processItems e mapping srcPath tgtPath items st = Inr st' \<and>
               totalFiles st' + length (errors st')
                 = totalFiles st + length (errors st) + featureFilesIn items)"
  using mk mp
proof (induction e mapping srcPath tgtPath nd st and e mapping srcPath tgtPath items st
    rule: processDirectory_processItems.induct)
  case (1 e mapping srcPath tgtPath items st)
  then show ?case by simp
next
  case (2 e mapping srcPath tgtPath msg st)
  show ?case by simp
next
  case (3 e mapping srcPath tgtPath fl st)
  show ?case by simp
next
  case (4 e mapping srcPath tgtPath msg st)
  show ?case by simp
next
  case (5 e mapping srcPath tgtPath st)
  show ?case by simp
next
  case (6 e mapping srcPath tgtPath item msg rest st)
  show ?case by simp
next
  case (7 e mapping srcPath tgtPath item fl rest st)
  show ?case
  proof (cases "endsWith item ''.feature''")
    case True
    with 7(1) [OF True 7(3,4)] show ?thesis
      using convertFile_counts [of e "pjoin e srcPath item" tgtPath item fl st] by auto
  next
    case False
    with 7(2) [OF False 7(3,4)] show ?thesis by auto
  qed
next
  case (8 e mapping srcPath tgtPath item items rest st)
  show ?case
  proof
    assume l: "listableIn ((item, DirNode items) # rest)"
    from 8(4) obtain cn where cn: "convertFolderName mapping item = Some cn"
      by (cases "mapping item") (auto simp: convertFolderName_def)
    from ensureDir_ok [OF 8(3), of "pjoin e tgtPath cn" st] obtain st1 where
      e1: "ensureDir e (pjoin e tgtPath cn) st = Inr st1"
      and c1: "totalFiles st1 = totalFiles st" "errors st1 = errors st" by blast
    from l have li: "listableIn items" and lr: "listableIn rest" by simp_all
    from 8(1) [OF cn e1 8(3,4)] li obtain st2 where
      p2: "processDirectory e mapping (pjoin e srcPath item) (pjoin e tgtPath cn) (DirNode items) st1
            = Inr st2"
      and c2: "totalFiles st2 + length (errors st2)
                 = totalFiles st1 + length (errors st1) + featureFilesIn items" by blast
    from 8(2) [OF cn e1 p2 8(3,4)] lr obtain st3 where
      p3: "processItems e mapping srcPath tgtPath rest st2 = Inr st3"
      and c3: "totalFiles st3 + length (errors st3)
                 = totalFiles st2 + length (errors st2) + featureFilesIn rest" by blast
    from cn e1 p2 p3 have "processItems e mapping srcPath tgtPath ((item, DirNode items) # rest) st
        = Inr st3" by simp
    moreover from c1 c2 c3 have "totalFiles st3 + length (errors st3)
        = totalFiles st + length (errors st) + featureFilesIn ((item, DirNode items) # rest)"
      by simp
    ultimately show "\<exists>st'. processItems e mapping srcPath tgtPath ((item, DirNode items) # rest) st
        = Inr st' \<and> totalFiles st' + length (errors st')
           = totalFiles st + length (errors st) + featureFilesIn ((item, DirNode items) # rest)"
      by blast
  qed
next
  case (9 e mapping srcPath tgtPath item msg0 rest st)
  show ?case by simp
qed


text \<open>
  Claim C7 as stated fails in its second tier.  The \<^verbatim>\<open>try\<close> block of \<^verbatim>\<open>processDirectory\<close> encloses
  the work on one feature file only; \<^verbatim>\<open>fs.statSync(srcItemPath)\<close> is outside of it.  In a source
  directory with the entries \<^verbatim>\<open>a\<close>, for which \<^verbatim>\<open>statSync\<close> throws (a dangling link), and
  \<^verbatim>\<open>b.feature\<close>, the exception ends the run: \<^verbatim>\<open>b.feature\<close> is neither converted nor recorded
  as an error.
\<close>

theorem C7_uncaught_error_aborts_counterexample:
  "run \<lparr>configPath = ''./migration-config.json'',
        configFile = Parsed \<lparr>sourceRoot = ''src'', targetRoot = ''out'', sourceFeaturesPath = None,
                               targetFeaturesPath = None, folderMapping = (\<lambda>name0. Falsy)\<rparr>,
        sourceTree = Some (DirNode [(''a'', BrokenNode ''ENOENT: no such file or directory, stat''),
                                     (''b.feature'', FileNode (Inr ''Feature: f''))]),
        pjoin = (\<lambda>a b. a @ ''/'' @ b),
        fsExists = (\<lambda>made p. p \<in> set made),
        mkdirError = (\<lambda>p. None),
        writeError = (\<lambda>p. None)\<rparr>
   = (Uncaught ''ENOENT: no such file or directory, stat'',
      \<lparr>totalFiles = 0, totalConversions = 0, convertedFiles = [], errors = [], madeDirs = [],
         written = []\<rparr>)
   \<and> featureFilesIn [(''a'', BrokenNode ''ENOENT: no such file or directory, stat''),
                      (''b.feature'', FileNode (Inr ''Feature: f''))] = 1"
  by (simp add: run_def sourceExists_def initialState_def endsWith_def)

text \<open>
  Claim C7, with the second tier as wide as the \<^verbatim>\<open>try\<close> block.  A missing configuration file,
  a configuration that cannot be read or parsed, and a missing source directory end the
  run with \<^verbatim>\<open>process.exit(1)\<close> after a message, in the initial state: no directory has been
  made and no file written.  An error while one feature file is read, its target directory
  made or its target written is caught: the file is recorded in \<^verbatim>\<open>errors\<close>, nothing is
  written for it, and the run goes on with the next entry; a feature file without error is
  counted and written.  So in a tree in which every entry can be inspected and every
  directory listed, when no directory fails to be made and no folder is mapped to a value
  that is not a string, \<^verbatim>\<open>processDirectory\<close> returns, and the files counted and the errors
  recorded are together the feature files of the tree.
\<close>

theorem C7_fatal_errors_exit_and_file_errors_are_recorded:
  "(configFile e = NoFile \<longrightarrow>
      run e = (Exit 1 (''[ERROR] Configuration file not found: '' @ configPath e), initialState)) \<and>
   (configFile e = Unparsable msg \<longrightarrow>
      run e = (Exit 1 (''[ERROR] Failed to parse configuration: '' @ msg), initialState)) \<and>
   (configFile e = Parsed c \<and> \<not> sourceExists e \<longrightarrow>
      (\<exists>sourceDir. run e
         = (Exit 1 (''[ERROR] Source features directory not found: '' @ sourceDir), initialState))) \<and>
   madeDirs initialState = [] \<and> written initialState = [] \<and>
   processItems e mapping srcPath tgtPath ((item, FileNode fl) # rest) st
     = processItems e mapping srcPath tgtPath rest
         (if endsWith item ''.feature''
          then convertFile e (pjoin e srcPath item) tgtPath item fl st else st) \<and>
   ((totalFiles (convertFile e srcItemPath tgtPath item fl st) = totalFiles st + 1 \<and>
     errors (convertFile e srcItemPath tgtPath item fl st) = errors st \<and>
     (\<exists>content. fl = Inr content \<and>
        written (convertFile e srcItemPath tgtPath item fl st)
          = written st @ [(pjoin e tgtPath item, fst (convertFeatureContent content))])) \<or>
    (totalFiles (convertFile e srcItemPath tgtPath item fl st) = totalFiles st \<and>
     written (convertFile e srcItemPath tgtPath item fl st) = written st \<and>
     (\<exists>err. errors (convertFile e srcItemPath tgtPath item fl st)
        = errors st @ [(srcItemPath, err)]))) \<and>
   ((\<forall>p. mkdirError e p = None) \<and> (\<forall>name0. mapping name0 \<noteq> Truthy) \<and> listableIn items \<longrightarrow>
      (\<exists>st'. processDirectory e mapping srcPath tgtPath (DirNode items) st = Inr st' \<and>
         totalFiles st' + length (errors st')
           = totalFiles st + length (errors st) + featureFilesIn items))"
proof (intro conjI impI)
  assume "configFile e = NoFile"
  then show "run e = (Exit 1 (''[ERROR] Configuration file not found: '' @ configPath e),
      initialState)"
    by (simp add: run_def)
next
  assume "configFile e = Unparsable msg"
  then show "run e = (Exit 1 (''[ERROR] Failed to parse configuration: '' @ msg), initialState)"
    by (simp add: run_def)
next
  assume "configFile e = Parsed c \<and> \<not> sourceExists e"
  then show "\<exists>sourceDir. run e
         = (Exit 1 (''[ERROR] Source features directory not found: '' @ sourceDir), initialState)"
    by (simp add: run_def Let_def)
next
  show "madeDirs initialState = []" by (simp add: initialState_def)
  show "written initialState = []" by (simp add: initialState_def)
  show "processItems e mapping srcPath tgtPath ((item, FileNode fl) # rest) st
     = processItems e mapping srcPath tgtPath rest
         (if endsWith item ''.feature''
          then convertFile e (pjoin e srcPath item) tgtPath item fl st else st)"
    by simp
  show "(totalFiles (convertFile e srcItemPath tgtPath item fl st) = totalFiles st + 1 \<and>
     errors (convertFile e srcItemPath tgtPath item fl st) = errors st \<and>
     (\<exists>content. fl = Inr content \<and>
        written (convertFile e srcItemPath tgtPath item fl st)
          = written st @ [(pjoin e tgtPath item, fst (convertFeatureContent content))])) \<or>
    (totalFiles (convertFile e srcItemPath tgtPath item fl st) = totalFiles st \<and>
     written (convertFile e srcItemPath tgtPath item fl st) = written st \<and>
     (\<exists>err. errors (convertFile e srcItemPath tgtPath item fl st)
        = errors st @ [(srcItemPath, err)]))"
    by (rule convertFile_cases)
next
  assume "(\<forall>p. mkdirError e p = None) \<and> (\<forall>name0. mapping name0 \<noteq> Truthy) \<and> listableIn items"
  then have mk: "\<forall>p. mkdirError e p = None" and mp: "\<forall>name0. mapping name0 \<noteq> Truthy"
    and li: "listableIn items" by blast+
  from process_listable(1) [OF mk mp, of "DirNode items" srcPath tgtPath st] li
  show "\<exists>st'. processDirectory e mapping srcPath tgtPath (DirNode items) st = Inr st' \<and>
         totalFiles st' + length (errors st')
           = totalFiles st + length (errors st) + featureFilesIn items" by blast
qed


text \<open>
  Witness of C7: the three fatal cases, and a source directory with a feature file that
  cannot be read, a feature file that can, and a file that is no feature file.
\<close>

lemma example_feature_copy: "convertFeatureContent ''Feature: f'' = (''Feature: f'', 0)"
  by (simp add: convertFeatureContent_def convertLines_def convertLine_def copyLine_def
      keywordRx_def andButRx_def resetRx_def char_eval rx_eval str_eval split del: if_split)

lemma example_directory:
  "processDirectory \<lparr>configPath = ''./migration-config.json'',
        configFile = Parsed \<lparr>sourceRoot = ''src'', targetRoot = ''out'', sourceFeaturesPath = None,
                               targetFeaturesPath = None, folderMapping = (\<lambda>name0. Falsy)\<rparr>,
        sourceTree = Some (DirNode [(''bad.feature'', FileNode (Inl ''EACCES: permission denied'')),
            (''ok.feature'', FileNode (Inr ''Feature: f'')),
            (''notes.txt'', FileNode (Inr ''x''))]),
        pjoin = (\<lambda>a b. a @ ''/'' @ b),
        fsExists = (\<lambda>made p. p \<in> set made),
        mkdirError = (\<lambda>p. None),
        writeError = (\<lambda>p. None)\<rparr> (\<lambda>name0. Falsy) ''src/features'' ''out/features''
     (DirNode [(''bad.feature'', FileNode (Inl ''EACCES: permission denied'')),
            (''ok.feature'', FileNode (Inr ''Feature: f'')),
            (''notes.txt'', FileNode (Inr ''x''))]) initialState
   = Inr \<lparr>totalFiles = 1, totalConversions = 0,
         convertedFiles = [(''src/features/ok.feature'', ''out/features/ok.feature'', 0)],
         errors = [(''src/features/bad.feature'', ''EACCES: permission denied'')],
         madeDirs = [''out/features''],
         written = [(''out/features/ok.feature'', ''Feature: f'')]\<rparr>"
  by (simp add: convertFile_def ensureDir_def initialState_def endsWith_def example_feature_copy)

theorem C7_fatal_errors_exit_and_file_errors_are_recorded_witness:
  "run \<lparr>configPath = ''./migration-config.json'',
        configFile = NoFile,
        sourceTree = Some (DirNode [(''bad.feature'', FileNode (Inl ''EACCES: permission denied'')),
            (''ok.feature'', FileNode (Inr ''Feature: f'')),
            (''notes.txt'', FileNode (Inr ''x''))]),
        pjoin = (\<lambda>a b. a @ ''/'' @ b),
        fsExists = (\<lambda>made p. p \<in> set made),
        mkdirError = (\<lambda>p. None),
        writeError = (\<lambda>p. None)\<rparr>
     = (Exit 1 ''[ERROR] Configuration file not found: ./migration-config.json'', initialState)
   \<and> run \<lparr>configPath = ''./migration-config.json'',
        configFile = Unparsable ''Unexpected end of JSON input'',
        sourceTree = Some (DirNode [(''bad.feature'', FileNode (Inl ''EACCES: permission denied'')),
            (''ok.feature'', FileNode (Inr ''Feature: f'')),
            (''notes.txt'', FileNode (Inr ''x''))]),
        pjoin = (\<lambda>a b. a @ ''/'' @ b),
        fsExists = (\<lambda>made p. p \<in> set made),
        mkdirError = (\<lambda>p. None),
        writeError = (\<lambda>p. None)\<rparr>
     = (Exit 1 ''[ERROR] Failed to parse configuration: Unexpected end of JSON input'', initialState)
   \<and> run \<lparr>configPath = ''./migration-config.json'',
        configFile = Parsed \<lparr>sourceRoot = ''src'', targetRoot = ''out'', sourceFeaturesPath = None,
                               targetFeaturesPath = None, folderMapping = (\<lambda>name0. Falsy)\<rparr>,
        sourceTree = None,
        pjoin = (\<lambda>a b. a @ ''/'' @ b),
        fsExists = (\<lambda>made p. p \<in> set made),
        mkdirError = (\<lambda>p. None),
        writeError = (\<lambda>p. None)\<rparr>
     = (Exit 1 ''[ERROR] Source features directory not found: src/features'', initialState)
   \<and> processDirectory \<lparr>configPath = ''./migration-config.json'',
        configFile = Parsed \<lparr>sourceRoot = ''src'', targetRoot = ''out'', sourceFeaturesPath = None,
                               targetFeaturesPath = None, folderMapping = (\<lambda>name0. Falsy)\<rparr>,
        sourceTree = Some (DirNode [(''bad.feature'', FileNode (Inl ''EACCES: permission denied'')),
            (''ok.feature'', FileNode (Inr ''Feature: f'')),
            (''notes.txt'', FileNode (Inr ''x''))]),
        pjoin = (\<lambda>a b. a @ ''/'' @ b),
        fsExists = (\<lambda>made p. p \<in> set made),
        mkdirError = (\<lambda>p. None),
        writeError = (\<lambda>p. None)\<rparr> (\<lambda>name0. Falsy) ''src/features'' ''out/features''
       (DirNode [(''bad.feature'', FileNode (Inl ''EACCES: permission denied'')),
            (''ok.feature'', FileNode (Inr ''Feature: f'')),
            (''notes.txt'', FileNode (Inr ''x''))]) initialState
     = Inr \<lparr>totalFiles = 1, totalConversions = 0,
         convertedFiles = [(''src/features/ok.feature'', ''out/features/ok.feature'', 0)],
         errors = [(''src/features/bad.feature'', ''EACCES: permission denied'')],
         madeDirs = [''out/features''],
         written = [(''out/features/ok.feature'', ''Feature: f'')]\<rparr>
   \<and> totalFiles \<lparr>totalFiles = 1, totalConversions = 0,
         convertedFiles = [(''src/features/ok.feature'', ''out/features/ok.feature'', 0)],
         errors = [(''src/features/bad.feature'', ''EACCES: permission denied'')],
         madeDirs = [''out/features''],
         written = [(''out/features/ok.feature'', ''Feature: f'')]\<rparr> + length (errors \<lparr>totalFiles = 1, totalConversions = 0,
         convertedFiles = [(''src/features/ok.feature'', ''out/features/ok.feature'', 0)],
         errors = [(''src/features/bad.feature'', ''EACCES: permission denied'')],
         madeDirs = [''out/features''],
         written = [(''out/features/ok.feature'', ''Feature: f'')]\<rparr>)
     = totalFiles initialState + length (errors initialState) + featureFilesIn [(''bad.feature'', FileNode (Inl ''EACCES: permission denied'')),
            (''ok.feature'', FileNode (Inr ''Feature: f'')),
            (''notes.txt'', FileNode (Inr ''x''))]
   \<and> featureFilesIn [(''bad.feature'', FileNode (Inl ''EACCES: permission denied'')),
            (''ok.feature'', FileNode (Inr ''Feature: f'')),
            (''notes.txt'', FileNode (Inr ''x''))] = 2"
proof -
  note a = C7_fatal_errors_exit_and_file_errors_are_recorded [where e = "\<lparr>configPath = ''./migration-config.json'',
        configFile = NoFile,
        sourceTree = Some (DirNode [(''bad.feature'', FileNode (Inl ''EACCES: permission denied'')),
            (''ok.feature'', FileNode (Inr ''Feature: f'')),
            (''notes.txt'', FileNode (Inr ''x''))]),
        pjoin = (\<lambda>a b. a @ ''/'' @ b),
        fsExists = (\<lambda>made p. p \<in> set made),
        mkdirError = (\<lambda>p. None),
        writeError = (\<lambda>p. None)\<rparr>"]
  note b = C7_fatal_errors_exit_and_file_errors_are_recorded
    [where e = "\<lparr>configPath = ''./migration-config.json'',
        configFile = Unparsable ''Unexpected end of JSON input'',
        sourceTree = Some (DirNode [(''bad.feature'', FileNode (Inl ''EACCES: permission denied'')),
            (''ok.feature'', FileNode (Inr ''Feature: f'')),
            (''notes.txt'', FileNode (Inr ''x''))]),
        pjoin = (\<lambda>a b. a @ ''/'' @ b),
        fsExists = (\<lambda>made p. p \<in> set made),
        mkdirError = (\<lambda>p. None),
        writeError = (\<lambda>p. None)\<rparr>" and msg = "''Unexpected end of JSON input''"]
  note c = C7_fatal_errors_exit_and_file_errors_are_recorded
    [where e = "\<lparr>configPath = ''./migration-config.json'',
        configFile = Parsed \<lparr>sourceRoot = ''src'', targetRoot = ''out'', sourceFeaturesPath = None,
                               targetFeaturesPath = None, folderMapping = (\<lambda>name0. Falsy)\<rparr>,
        sourceTree = Some (DirNode [(''bad.feature'', FileNode (Inl ''EACCES: permission denied'')),
            (''ok.feature'', FileNode (Inr ''Feature: f'')),
            (''notes.txt'', FileNode (Inr ''x''))]),
        pjoin = (\<lambda>a b. a @ ''/'' @ b),
        fsExists = (\<lambda>made p. p \<in> set made),
        mkdirError = (\<lambda>p. None),
        writeError = (\<lambda>p. None)\<rparr>" and mapping = "\<lambda>name0. Falsy" and items = "[(''bad.feature'', FileNode (Inl ''EACCES: permission denied'')),
            (''ok.feature'', FileNode (Inr ''Feature: f'')),
            (''notes.txt'', FileNode (Inr ''x''))]"
       and srcPath = "''src/features''" and tgtPath = "''out/features''" and st = initialState]
  from a have 1: "run \<lparr>configPath = ''./migration-config.json'',
        configFile = NoFile,
        sourceTree = Some (DirNode [(''bad.feature'', FileNode (Inl ''EACCES: permission denied'')),
            (''ok.feature'', FileNode (Inr ''Feature: f'')),
            (''notes.txt'', FileNode (Inr ''x''))]),
        pjoin = (\<lambda>a b. a @ ''/'' @ b),
        fsExists = (\<lambda>made p. p \<in> set made),
        mkdirError = (\<lambda>p. None),
        writeError = (\<lambda>p. None)\<rparr>
     = (Exit 1 ''[ERROR] Configuration file not found: ./migration-config.json'', initialState)"
    by simp
  from b have 2: "run \<lparr>configPath = ''./migration-config.json'',
        configFile = Unparsable ''Unexpected end of JSON input'',
        sourceTree = Some (DirNode [(''bad.feature'', FileNode (Inl ''EACCES: permission denied'')),
            (''ok.feature'', FileNode (Inr ''Feature: f'')),
            (''notes.txt'', FileNode (Inr ''x''))]),
        pjoin = (\<lambda>a b. a @ ''/'' @ b),
        fsExists = (\<lambda>made p. p \<in> set made),
        mkdirError = (\<lambda>p. None),
        writeError = (\<lambda>p. None)\<rparr>
     = (Exit 1 ''[ERROR] Failed to parse configuration: Unexpected end of JSON input'', initialState)"
    by simp
  have 3: "run \<lparr>configPath = ''./migration-config.json'',
        configFile = Parsed \<lparr>sourceRoot = ''src'', targetRoot = ''out'', sourceFeaturesPath = None,
                               targetFeaturesPath = None, folderMapping = (\<lambda>name0. Falsy)\<rparr>,
        sourceTree = None,
        pjoin = (\<lambda>a b. a @ ''/'' @ b),
        fsExists = (\<lambda>made p. p \<in> set made),
        mkdirError = (\<lambda>p. None),
        writeError = (\<lambda>p. None)\<rparr>
     = (Exit 1 ''[ERROR] Source features directory not found: src/features'', initialState)"
    by (simp add: run_def sourceExists_def)
  have l: "(\<forall>p. mkdirError \<lparr>configPath = ''./migration-config.json'',
        configFile = Parsed \<lparr>sourceRoot = ''src'', targetRoot = ''out'', sourceFeaturesPath = None,
                               targetFeaturesPath = None, folderMapping = (\<lambda>name0. Falsy)\<rparr>,
        sourceTree = Some (DirNode [(''bad.feature'', FileNode (Inl ''EACCES: permission denied'')),
            (''ok.feature'', FileNode (Inr ''Feature: f'')),
            (''notes.txt'', FileNode (Inr ''x''))]),
        pjoin = (\<lambda>a b. a @ ''/'' @ b),
        fsExists = (\<lambda>made p. p \<in> set made),
        mkdirError = (\<lambda>p. None),
        writeError = (\<lambda>p. None)\<rparr> p = None) \<and> (\<forall>name0. (\<lambda>name0. Falsy) name0 \<noteq> Truthy) \<and>
      listableIn [(''bad.feature'', FileNode (Inl ''EACCES: permission denied'')),
            (''ok.feature'', FileNode (Inr ''Feature: f'')),
            (''notes.txt'', FileNode (Inr ''x''))]" by simp
  with c obtain st' where
    p: "processDirectory \<lparr>configPath = ''./migration-config.json'',
        configFile = Parsed \<lparr>sourceRoot = ''src'', targetRoot = ''out'', sourceFeaturesPath = None,
                               targetFeaturesPath = None, folderMapping = (\<lambda>name0. Falsy)\<rparr>,
        sourceTree = Some (DirNode [(''bad.feature'', FileNode (Inl ''EACCES: permission denied'')),
            (''ok.feature'', FileNode (Inr ''Feature: f'')),
            (''notes.txt'', FileNode (Inr ''x''))]),
        pjoin = (\<lambda>a b. a @ ''/'' @ b),
        fsExists = (\<lambda>made p. p \<in> set made),
        mkdirError = (\<lambda>p. None),
        writeError = (\<lambda>p. None)\<rparr> (\<lambda>name0. Falsy) ''src/features'' ''out/features'' (DirNode [(''bad.feature'', FileNode (Inl ''EACCES: permission denied'')),
            (''ok.feature'', FileNode (Inr ''Feature: f'')),
            (''notes.txt'', FileNode (Inr ''x''))])
          initialState = Inr st'"
    and q: "totalFiles st' + length (errors st')
      = totalFiles initialState + length (errors initialState) + featureFilesIn [(''bad.feature'', FileNode (Inl ''EACCES: permission denied'')),
            (''ok.feature'', FileNode (Inr ''Feature: f'')),
            (''notes.txt'', FileNode (Inr ''x''))]" by blast
  from p example_directory have "st' = \<lparr>totalFiles = 1, totalConversions = 0,
         convertedFiles = [(''src/features/ok.feature'', ''out/features/ok.feature'', 0)],
         errors = [(''src/features/bad.feature'', ''EACCES: permission denied'')],
         madeDirs = [''out/features''],
         written = [(''out/features/ok.feature'', ''Feature: f'')]\<rparr>" by simp
  with q have 5: "totalFiles \<lparr>totalFiles = 1, totalConversions = 0,
         convertedFiles = [(''src/features/ok.feature'', ''out/features/ok.feature'', 0)],
         errors = [(''src/features/bad.feature'', ''EACCES: permission denied'')],
         madeDirs = [''out/features''],
         written = [(''out/features/ok.feature'', ''Feature: f'')]\<rparr> + length (errors \<lparr>totalFiles = 1, totalConversions = 0,
         convertedFiles = [(''src/features/ok.feature'', ''out/features/ok.feature'', 0)],
         errors = [(''src/features/bad.feature'', ''EACCES: permission denied'')],
         madeDirs = [''out/features''],
         written = [(''out/features/ok.feature'', ''Feature: f'')]\<rparr>)
     = totalFiles initialState + length (errors initialState) + featureFilesIn [(''bad.feature'', FileNode (Inl ''EACCES: permission denied'')),
            (''ok.feature'', FileNode (Inr ''Feature: f'')),
            (''notes.txt'', FileNode (Inr ''x''))]" by simp
  have 6: "featureFilesIn [(''bad.feature'', FileNode (Inl ''EACCES: permission denied'')),
            (''ok.feature'', FileNode (Inr ''Feature: f'')),
            (''notes.txt'', FileNode (Inr ''x''))] = 2" by (simp add: endsWith_def)
  from 1 2 3 example_directory 5 6 show ?thesis by (intro conjI)
qed

end
